theory Spec2Isabelle
  imports Complex_Main
begin

section \<open>Shared data model\<close>

text \<open>
  The enumeration \<open>ConnectivityState\<close> of channel.js, in the order of its declaration
  (CONNECTING = 0, READY = 1, TRANSIENT_FAILURE = 2, IDLE = 3, SHUTDOWN = 4).
\<close>

datatype ConnectivityState = CONNECTING | READY | TRANSIENT_FAILURE | IDLE | SHUTDOWN

text \<open>
  Modelled from the spec: the \<open>Status\<close> code enumeration of constants.js, which is not
  among the sources; the spec calls it the standard gRPC status enumeration. Only the
  names of the codes are used.
\<close>

datatype StatusCode =
    OK | CANCELLED | UNKNOWN | INVALID_ARGUMENT | DEADLINE_EXCEEDED | NOT_FOUND
  | ALREADY_EXISTS | PERMISSION_DENIED | RESOURCE_EXHAUSTED | FAILED_PRECONDITION
  | ABORTED | OUT_OF_RANGE | UNIMPLEMENTED | INTERNAL | UNAVAILABLE | DATA_LOSS
  | UNAUTHENTICATED

text \<open>Metadata is carried as an ordered list of header name and value.\<close>

type_synonym Metadata = "(string \<times> string) list"

record StatusObject =
  code :: StatusCode
  details :: string
  metadata :: Metadata

text \<open>\<open>new Metadata()\<close>\<close>

definition new_Metadata :: Metadata where
  "new_Metadata = []"

text \<open>
  How a JavaScript call ends: it returns a value or throws (the message of the error is
  kept). Where a method mutates its object before it throws, the model returns the object
  as it is at the throw next to the completion.
\<close>

datatype 'a completion = Returns 'a | Throws string

section \<open>DNS resolver (resolver-dns.js)\<close>

subsection \<open>Regular expressions\<close>

text \<open>
  The four regular expressions of the resolver use character classes, sequence, greedy
  bounded repetition \<open>r{lo,hi}\<close> (\<open>r?\<close> is \<open>r{0,1}\<close>), greedy \<open>r+\<close> and capture
  groups. \<open>Cls cs\<close> accepts one character of the list \<open>cs\<close>.
\<close>

datatype regex =
    Cls "char list"
  | Seq regex regex
  | Rep regex nat nat
  | Plus regex
  | Grp nat regex

type_synonym captures = "nat \<Rightarrow> string option"

fun rsize :: "regex \<Rightarrow> nat" where
  "rsize (Cls cs) = 0"
| "rsize (Seq r1 r2) = Suc (rsize r1 + rsize r2)"
| "rsize (Rep r lo hi) = Suc (rsize r + hi)"
| "rsize (Plus r) = Suc (rsize r)"
| "rsize (Grp n r) = Suc (rsize r)"

text \<open>
  \<open>matches r s c\<close> lists, in the order in which a backtracking matcher tries them, the
  ways \<open>r\<close> can match at the start of \<open>s\<close>: each entry is the rest of the input and the
  captures after the match. A greedy quantifier tries one more iteration before it tries
  to stop. An iteration of \<open>r+\<close> that consumes nothing is not repeated.
\<close>

function matches :: "regex \<Rightarrow> string \<Rightarrow> captures \<Rightarrow> (string \<times> captures) list" where
  "matches (Cls cs) s c = (case s of [] \<Rightarrow> [] | x # t \<Rightarrow> if x \<in> set cs then [(t, c)] else [])"
| "matches (Seq r1 r2) s c = concat (map (\<lambda>(t, c'). matches r2 t c') (matches r1 s c))"
| "matches (Rep r lo hi) s c =
     (if hi = 0 then []
      else concat (map (\<lambda>(t, c'). matches (Rep r (lo - 1) (hi - 1)) t c') (matches r s c)))
     @ (if lo = 0 then [(s, c)] else [])"
| "matches (Plus r) s c =
     concat (map (\<lambda>(t, c'). (if length t < length s then matches (Plus r) t c' else []) @ [(t, c')])
                 (matches r s c))"
| "matches (Grp n r) s c =
     map (\<lambda>(t, c'). (t, c'(n \<mapsto> take (length s - length t) s))) (matches r s c)"
  by pat_completeness auto
termination
  by (relation "measures [\<lambda>(r, s, c). rsize r, \<lambda>(r, s, c). length s]") auto

declare matches.simps(3,4) [simp del]

text \<open>
  Three measures of an expression, used to reason about what a match consumes: the
  characters its classes accept, the capture groups it has, and whether every match of it
  consumes at least one character.
\<close>

fun chars :: "regex \<Rightarrow> char set" where
  "chars (Cls cs) = set cs"
| "chars (Seq r1 r2) = chars r1 \<union> chars r2"
| "chars (Rep r lo hi) = chars r"
| "chars (Plus r) = chars r"
| "chars (Grp n r) = chars r"

fun groups :: "regex \<Rightarrow> nat set" where
  "groups (Cls cs) = {}"
| "groups (Seq r1 r2) = groups r1 \<union> groups r2"
| "groups (Rep r lo hi) = groups r"
| "groups (Plus r) = groups r"
| "groups (Grp n r) = insert n (groups r)"

fun consuming :: "regex \<Rightarrow> bool" where
  "consuming (Cls cs) = True"
| "consuming (Seq r1 r2) = (consuming r1 \<or> consuming r2)"
| "consuming (Rep r lo hi) = (0 < lo \<and> consuming r)"
| "consuming (Plus r) = consuming r"
| "consuming (Grp n r) = consuming r"

text \<open>
  \<open>/^r$/.exec(s)\<close>: the captures of the first way to match the whole input, or \<open>None\<close>
  for \<open>null\<close>. A group that took no part in the match is \<open>None\<close> (\<open>undefined\<close>).
\<close>

definition exec :: "regex \<Rightarrow> string \<Rightarrow> captures option" where
  "exec r s = (case filter (\<lambda>(t, c). t = []) (matches r s Map.empty) of
                 [] \<Rightarrow> None | (t, c) # _ \<Rightarrow> Some c)"

text \<open>\<open>\d\<close>\<close>

definition digit :: regex where
  "digit = Cls ''0123456789''"

text \<open>\<open>[0-9a-f]\<close> under the flag \<open>i\<close>\<close>

definition hexdigit :: regex where
  "hexdigit = Cls ''0123456789abcdefABCDEF''"

text \<open>\<open>(?::(\d+))?\<close>\<close>

definition port_suffix :: regex where
  "port_suffix = Rep (Seq (Cls '':'') (Grp 2 (Plus digit))) 0 1"

text \<open>\<open>/^(\d{1,3}(?:\.\d{1,3}){3})(?::(\d+))?$/\<close>\<close>

definition IPV4_REGEX :: regex where
  "IPV4_REGEX =
     Seq (Grp 1 (Seq (Rep digit 1 3) (Rep (Seq (Cls ''.'') (Rep digit 1 3)) 3 3))) port_suffix"

text \<open>\<open>[0-9a-f]{0,4}(?::{1,2}[0-9a-f]{0,4})+\<close>\<close>

definition ipv6_body :: regex where
  "ipv6_body = Seq (Rep hexdigit 0 4) (Plus (Seq (Rep (Cls '':'') 1 2) (Rep hexdigit 0 4)))"

text \<open>\<open>/^([0-9a-f]{0,4}(?::{1,2}[0-9a-f]{0,4})+)$/i\<close>\<close>

definition IPV6_REGEX :: regex where
  "IPV6_REGEX = Grp 1 ipv6_body"

text \<open>\<open>/^\[([0-9a-f]{0,4}(?::{1,2}[0-9a-f]{0,4})+)\](?::(\d+))?$/i\<close>\<close>

definition IPV6_BRACKET_REGEX :: regex where
  "IPV6_BRACKET_REGEX = Seq (Cls ''['') (Seq (Grp 1 ipv6_body) (Seq (Cls '']'') port_suffix))"

text \<open>\<open>[a-zA-Z0-9-]\<close>\<close>

definition label_char :: regex where
  "label_char = Cls ''abcdefghijklmnopqrstuvwxyzABCDEFGHIJKLMNOPQRSTUVWXYZ0123456789-''"

text \<open>\<open>(?:[a-zA-Z0-9-]+\.?)+\<close>\<close>

definition labels :: regex where
  "labels = Plus (Seq (Plus label_char) (Rep (Cls ''.'') 0 1))"

text \<open>\<open>/^(?:dns:)?(?:\/\/(?:[a-zA-Z0-9-]+\.?)+\/)?((?:[a-zA-Z0-9-]+\.?)+)(?::(\d+))?$/\<close>\<close>

definition DNS_REGEX :: regex where
  "DNS_REGEX =
     Seq (Rep (Seq (Cls ''d'') (Seq (Cls ''n'') (Seq (Cls ''s'') (Cls '':'')))) 0 1)
       (Seq (Rep (Seq (Cls ''/'') (Seq (Cls ''/'') (Seq labels (Cls ''/'')))) 0 1)
         (Seq (Grp 1 labels) port_suffix))"

definition DEFAULT_PORT :: string where
  "DEFAULT_PORT = ''443''"

subsection \<open>parseIP\<close>

text \<open>\<open>match[n]\<close> inside a template string: an absent group prints as \<open>undefined\<close>.\<close>

definition group_text :: "captures \<Rightarrow> nat \<Rightarrow> string" where
  "group_text m n = (case m n of Some g \<Rightarrow> g | None \<Rightarrow> ''undefined'')"

text \<open>\<open>if (match[2]) port = match[2]; else port = DEFAULT_PORT\<close>: an absent or empty group is falsy.\<close>

definition port_of :: "captures \<Rightarrow> string" where
  "port_of m = (case m 2 of Some p \<Rightarrow> if p \<noteq> [] then p else DEFAULT_PORT | None \<Rightarrow> DEFAULT_PORT)"

definition parseIP :: "string \<Rightarrow> string list option" where
  "parseIP target =
     (let ipv4Match = exec IPV4_REGEX target;
          match = (case ipv4Match of Some m \<Rightarrow> Some m
                   | None \<Rightarrow> (case exec IPV6_REGEX target of Some m \<Rightarrow> Some m
                              | None \<Rightarrow> exec IPV6_BRACKET_REGEX target))
      in case match of
           None \<Rightarrow> None
         | Some m \<Rightarrow>
             (let addr = (if ipv4Match \<noteq> None then group_text m 1
                          else ''['' @ group_text m 1 @ '']'')
              in Some [addr @ '':'' @ port_of m]))"

subsection \<open>mergeArrays\<close>

text \<open>
  \<open>mergeArrays(...arrays)\<close>: for every index below the greatest length, in order, and
  for every array, in order, the element at that index is pushed if the array has one.
  \<open>Math.max\<close> of no lengths is minus infinity, so the loop body never runs then.
\<close>

definition mergeArrays :: "'a list list \<Rightarrow> 'a list" where
  "mergeArrays arrays =
     concat (map (\<lambda>i. concat (map (\<lambda>array. if i < length array then [array ! i] else []) arrays))
                 [0 ..< foldr max (map length arrays) 0])"

subsection \<open>The resolver object\<close>

text \<open>
  A service config: \<open>loadBalancingConfig\<close> is a list of objects, each given by its own
  keys in enumeration order with their values; the values and the method configs are
  opaque JSON texts.
\<close>

type_synonym json = string

type_synonym LoadBalancingConfig = "(string \<times> json) list"

record ServiceConfig =
  loadBalancingConfig :: "LoadBalancingConfig list"
  methodConfig :: "json list"

text \<open>The two methods of the resolver's listener.\<close>

datatype ListenerCall =
    onSuccessfulResolution "string list" "ServiceConfig option" "StatusObject option"
  | onError StatusObject

text \<open>
  What a resolver method does to the outside: a listener call deferred with
  \<open>setImmediate\<close>, a listener call made directly, and the two DNS queries.
\<close>

datatype ResolverEffect =
    SetImmediate ListenerCall
  | CallListener ListenerCall
  | DnsLookup string
  | ResolveTxt string

record DnsResolver =
  target :: string
  ipResult :: "string list option"
  dnsHostname :: "string option"
  port :: "string option"
  percentage :: real
  defaultResolutionError :: StatusObject
  pendingResultPromise :: bool

text \<open>
  The constructor; \<open>random100\<close> is the value of \<open>Math.random() * 100\<close>. No statement
  of the constructor throws.
\<close>

definition DnsResolver_constructor :: "string \<Rightarrow> real \<Rightarrow> DnsResolver completion" where
  "DnsResolver_constructor tgt random100 =
     (let dnsMatch = exec DNS_REGEX tgt
      in Returns \<lparr>
           target = tgt,
           ipResult = parseIP tgt,
           dnsHostname = (case dnsMatch of None \<Rightarrow> None | Some m \<Rightarrow> m 1),
           port = (case dnsMatch of None \<Rightarrow> None | Some m \<Rightarrow> Some (port_of m)),
           percentage = random100,
           defaultResolutionError =
             \<lparr>code = UNAVAILABLE,
              details = ''Name resolution failed for target '' @ tgt,
              metadata = new_Metadata\<rparr>,
           pendingResultPromise = False\<rparr>)"

definition startResolution :: "DnsResolver \<Rightarrow> DnsResolver \<times> ResolverEffect list" where
  "startResolution r =
     (case ipResult r of
        Some ips \<Rightarrow> (r, [SetImmediate (onSuccessfulResolution ips None None)])
      | None \<Rightarrow>
          (case dnsHostname r of
             Some hostname \<Rightarrow>
               (r\<lparr>pendingResultPromise := True\<rparr>, [DnsLookup hostname, ResolveTxt hostname])
           | None \<Rightarrow> (r, [])))"


text \<open>One entry of the result of \<open>dns.lookup(hostname, {all: true})\<close>.\<close>

record LookupAddress =
  address :: string
  family :: nat

definition ip4Addresses :: "string \<Rightarrow> LookupAddress list \<Rightarrow> string list" where
  "ip4Addresses prt addressList =
     map (\<lambda>addr. address addr @ '':'' @ prt) (filter (\<lambda>addr. family addr = 4) addressList)"

text \<open>
  \<open>ipv6Supported\<close> is the value of \<open>semver.satisfies(process.version, '>= 12.6')\<close>;
  where it is false the IPv6 results are dropped.
\<close>

definition ip6Addresses :: "bool \<Rightarrow> string \<Rightarrow> LookupAddress list \<Rightarrow> string list" where
  "ip6Addresses ipv6Supported prt addressList =
     (if ipv6Supported
      then map (\<lambda>addr. ''['' @ address addr @ '']:'' @ prt)
               (filter (\<lambda>addr. family addr = 6) addressList)
      else [])"

definition allAddresses :: "bool \<Rightarrow> string \<Rightarrow> LookupAddress list \<Rightarrow> string list" where
  "allAddresses ipv6Supported prt addressList =
     mergeArrays [ip4Addresses prt addressList, ip6Addresses ipv6Supported prt addressList]"

text \<open>
  The outcome of the TXT query together with \<open>extractAndSelectServiceConfig\<close>
  (service-config.js, not among the sources): the query failed, a config (or \<open>null\<close>) was
  selected, or the selection threw.
\<close>

datatype TxtOutcome = TxtQueryFailed | TxtSelected "ServiceConfig option" | TxtSelectionThrew

definition serviceConfigOf :: "TxtOutcome \<Rightarrow> ServiceConfig option \<times> StatusObject option" where
  "serviceConfigOf txt =
     (case txt of
        TxtQueryFailed \<Rightarrow>
          (None, Some \<lparr>code = UNAVAILABLE, details = ''TXT query failed'', metadata = new_Metadata\<rparr>)
      | TxtSelected cfg \<Rightarrow> (cfg, None)
      | TxtSelectionThrew \<Rightarrow>
          (None, Some \<lparr>code = UNAVAILABLE, details = ''Parsing service config failed'',
                       metadata = new_Metadata\<rparr>))"

text \<open>
  The two callbacks of \<open>pendingResultPromise.then\<close>: \<open>lookup\<close> is \<open>Inr\<close> the address
  list, or \<open>Inl\<close> the message of the error that rejected the address lookup.
\<close>

definition resolutionSettled ::
  "bool \<Rightarrow> string + LookupAddress list \<Rightarrow> TxtOutcome \<Rightarrow> DnsResolver
     \<Rightarrow> DnsResolver \<times> ResolverEffect list" where
  "resolutionSettled ipv6Supported lookup txt r =
     (let r' = r\<lparr>pendingResultPromise := False\<rparr>
      in case lookup of
           Inl message \<Rightarrow> (r', [CallListener (onError (defaultResolutionError r))])
         | Inr addressList \<Rightarrow>
             (let prt = (case port r of Some p \<Rightarrow> p | None \<Rightarrow> ''null'');
                  addresses = allAddresses ipv6Supported prt addressList
              in if addresses = [] then (r', [CallListener (onError (defaultResolutionError r))])
                 else (case serviceConfigOf txt of
                         (serviceConfig, serviceConfigError) \<Rightarrow>
                           (r', [CallListener
                                   (onSuccessfulResolution addresses serviceConfig
                                      serviceConfigError)]))))"


text \<open>
  The round-robin interleaving in the words of the specification: \<open>a1, b1, a2, b2, ...\<close>
  with the tail of the longer list appended.
\<close>

fun round_robin :: "'a list \<Rightarrow> 'a list \<Rightarrow> 'a list" where
  "round_robin [] bs = bs"
| "round_robin as [] = as"
| "round_robin (a # as) (b # bs) = a # b # round_robin as bs"

section \<open>Subchannel (subchannel.js)\<close>

text \<open>
  What a subchannel does to its collaborators, in the order in which it does it: the
  backoff timer, the HTTP/2 sessions (each \<open>http2.connect\<close> makes a new session, named
  by a number), the keepalive timers and the connectivity state listeners.
\<close>

datatype SubchannelEffect =
    BackoffRunOnce
  | BackoffStop
  | BackoffReset
  | Http2Connect nat string "string option"
  | SessionUnref nat
  | SessionRef nat
  | SessionClose nat
  | SessionPing nat
  | SocketOnceClose nat
  | SetKeepaliveInterval int
  | SetKeepaliveTimeout int
  | ClearKeepaliveInterval
  | ClearKeepaliveTimeout
  | LogExcessPings
  | StateListeners ConnectivityState ConnectivityState

text \<open>
  The fields of a subchannel. \<open>secure\<close> says whether the connection options of the
  credentials have a \<open>secureContext\<close>; \<open>sslTargetNameOverride\<close> is the option
  \<open>grpc.ssl_target_name_override\<close>; \<open>session\<close> is the current session or \<open>None\<close> for
  \<open>null\<close>; \<open>sessionsOpened\<close> counts the sessions made so far and names the next one.
  The listener lists and the user agent string are left out; a call of the state
  listeners is recorded in \<open>trace\<close>.
\<close>

record Subchannel =
  channelTarget :: string
  channelTargetAuthority :: "string completion"
  subchannelAddress :: string
  secure :: bool
  sslTargetNameOverride :: "string option"
  connectivityState :: ConnectivityState
  session :: "nat option"
  continueConnecting :: bool
  keepaliveTimeMs :: int
  keepaliveTimeoutMs :: int
  callRefcount :: int
  refcount :: int
  sessionsOpened :: nat
  trace :: "SubchannelEffect list"

definition KEEPALIVE_MAX_TIME_MS :: int where
  "KEEPALIVE_MAX_TIME_MS = 2147483647"

definition KEEPALIVE_TIMEOUT_MS :: int where
  "KEEPALIVE_TIMEOUT_MS = 20000"

text \<open>\<open>http2.constants.NGHTTP2_ENHANCE_YOUR_CALM\<close>\<close>

definition NGHTTP2_ENHANCE_YOUR_CALM :: nat where
  "NGHTTP2_ENHANCE_YOUR_CALM = 11"

definition Subchannel_constructor ::
  "string \<Rightarrow> string completion \<Rightarrow> string \<Rightarrow> bool \<Rightarrow> string option \<Rightarrow> int option \<Rightarrow> int option
     \<Rightarrow> Subchannel" where
  "Subchannel_constructor tgt authority addr sec override keepalive_time_ms keepalive_timeout_ms =
     \<lparr>channelTarget = tgt,
      channelTargetAuthority = authority,
      subchannelAddress = addr,
      secure = sec,
      sslTargetNameOverride = override,
      connectivityState = IDLE,
      session = None,
      continueConnecting = False,
      keepaliveTimeMs = (case keepalive_time_ms of Some t \<Rightarrow> t | None \<Rightarrow> KEEPALIVE_MAX_TIME_MS),
      keepaliveTimeoutMs =
        (case keepalive_timeout_ms of Some t \<Rightarrow> t | None \<Rightarrow> KEEPALIVE_TIMEOUT_MS),
      callRefcount = 0,
      refcount = 0,
      sessionsOpened = 0,
      trace = []\<rparr>"

definition emit :: "SubchannelEffect list \<Rightarrow> Subchannel \<Rightarrow> Subchannel" where
  "emit es s = s\<lparr>trace := trace s @ es\<rparr>"

definition startBackoff :: "Subchannel \<Rightarrow> Subchannel" where
  "startBackoff s = emit [BackoffRunOnce] s"

definition stopBackoff :: "Subchannel \<Rightarrow> Subchannel" where
  "stopBackoff s = emit [BackoffStop, BackoffReset] s"

definition stopKeepalivePings :: "Subchannel \<Rightarrow> Subchannel" where
  "stopKeepalivePings s = emit [ClearKeepaliveInterval, ClearKeepaliveTimeout] s"

text \<open>\<open>sendPing\<close>: \<open>this.session.ping\<close> throws a TypeError when there is no session.\<close>

definition sendPing :: "Subchannel \<Rightarrow> Subchannel \<times> unit completion" where
  "sendPing s =
     (let s1 = emit [SetKeepaliveTimeout (keepaliveTimeoutMs s)] s
      in case session s1 of
           None \<Rightarrow> (s1, Throws ''TypeError: Cannot read property ping of null'')
         | Some sid \<Rightarrow> (emit [SessionPing sid] s1, Returns ()))"

definition startKeepalivePings :: "Subchannel \<Rightarrow> Subchannel \<times> unit completion" where
  "startKeepalivePings s = sendPing (emit [SetKeepaliveInterval (keepaliveTimeMs s)] s)"

text \<open>
  \<open>startConnectingInternal\<close>: with a secure context the server name is the override
  option if that is a non-empty string, else the default authority of the channel target.
  That is computed by the function \<open>getDefaultAuthority\<close> of resolver.js, which is not
  among the sources and hands the target to the resolver class registered for its
  scheme; as the channel target never changes, what that call gives for it (a name, or
  the error it throws) is the field \<open>channelTargetAuthority\<close>.
\<close>

definition open_session :: "string \<Rightarrow> string option \<Rightarrow> Subchannel \<Rightarrow> Subchannel" where
  "open_session addressScheme servername s =
     (let sid = sessionsOpened s
      in emit [Http2Connect sid (addressScheme @ subchannelAddress s) servername, SessionUnref sid]
           (s\<lparr>session := Some sid, sessionsOpened := Suc sid\<rparr>))"

definition startConnectingInternal :: "Subchannel \<Rightarrow> Subchannel \<times> unit completion" where
  "startConnectingInternal s =
     (if secure s then
        (case sslTargetNameOverride s of
           Some name \<Rightarrow>
             (if name \<noteq> [] then (open_session ''https://'' (Some name) s, Returns ())
              else (case channelTargetAuthority s of
                      Throws e \<Rightarrow> (s, Throws e)
                    | Returns authority \<Rightarrow>
                        (open_session ''https://'' (Some authority) s, Returns ())))
         | None \<Rightarrow>
             (case channelTargetAuthority s of
                Throws e \<Rightarrow> (s, Throws e)
              | Returns authority \<Rightarrow> (open_session ''https://'' (Some authority) s, Returns ())))
      else (open_session ''http://'' None s, Returns ()))"

definition close_session :: "Subchannel \<Rightarrow> Subchannel" where
  "close_session s =
     (case session s of
        Some sid \<Rightarrow> (emit [SessionClose sid] s)\<lparr>session := None\<rparr>
      | None \<Rightarrow> s\<lparr>session := None\<rparr>)"

text \<open>
  The \<open>switch (newState)\<close> of \<open>transitionToState\<close>, run after the new state has been
  stored. Entering READY reads \<open>this.session.socket\<close>, which throws without a session;
  the \<open>default\<close> branch throws for SHUTDOWN.
\<close>

fun enter :: "ConnectivityState \<Rightarrow> Subchannel \<Rightarrow> Subchannel \<times> unit completion" where
  "enter READY s =
     (let s1 = stopBackoff s
      in case session s1 of
           None \<Rightarrow> (s1, Throws ''TypeError: Cannot read property socket of null'')
         | Some sid \<Rightarrow> (emit [SocketOnceClose sid] s1, Returns ()))"
| "enter CONNECTING s =
     (case startConnectingInternal (startBackoff s) of
        (s1, Throws e) \<Rightarrow> (s1, Throws e)
      | (s1, Returns u) \<Rightarrow> (s1\<lparr>continueConnecting := False\<rparr>, Returns ()))"
| "enter TRANSIENT_FAILURE s = (stopKeepalivePings (close_session s), Returns ())"
| "enter IDLE s = (stopKeepalivePings (close_session (stopBackoff s)), Returns ())"
| "enter SHUTDOWN s = (s, Throws ''Invalid state: unknown ConnectivityState 4'')"

definition transitionToState ::
  "ConnectivityState list \<Rightarrow> ConnectivityState \<Rightarrow> Subchannel \<Rightarrow> Subchannel \<times> bool completion" where
  "transitionToState oldStates newState s =
     (if connectivityState s \<notin> set oldStates then (s, Returns False)
      else
        (let previousState = connectivityState s
         in case enter newState (s\<lparr>connectivityState := newState\<rparr>) of
              (s1, Throws e) \<Rightarrow> (s1, Throws e)
            | (s1, Returns u) \<Rightarrow> (emit [StateListeners previousState newState] s1, Returns True)))"

definition discard :: "Subchannel \<times> 'a completion \<Rightarrow> Subchannel \<times> unit completion" where
  "discard r = (case r of (s, Throws e) \<Rightarrow> (s, Throws e) | (s, Returns v) \<Rightarrow> (s, Returns ()))"

text \<open>The callback of the backoff timer, set up in the constructor.\<close>

definition onBackoffTimeout :: "Subchannel \<Rightarrow> Subchannel \<times> unit completion" where
  "onBackoffTimeout s =
     (if continueConnecting s
      then discard (transitionToState [TRANSIENT_FAILURE, CONNECTING] CONNECTING s)
      else discard (transitionToState [TRANSIENT_FAILURE, CONNECTING] IDLE s))"

text \<open>The callback of the keepalive timeout, set up in \<open>sendPing\<close>.\<close>

definition onKeepaliveTimeout :: "Subchannel \<Rightarrow> Subchannel \<times> unit completion" where
  "onKeepaliveTimeout s = discard (transitionToState [READY] IDLE s)"

text \<open>
  The handlers of the session events \<open>connect\<close>, \<open>close\<close> and \<open>goaway\<close>; \<open>sid\<close> is the
  session the handler was attached to. The handler of \<open>error\<close> does nothing.
\<close>

definition onSessionConnect :: "nat \<Rightarrow> Subchannel \<Rightarrow> Subchannel \<times> unit completion" where
  "onSessionConnect sid s =
     (if session s = Some sid then discard (transitionToState [CONNECTING] READY s)
      else (s, Returns ()))"

definition onSessionClose :: "nat \<Rightarrow> Subchannel \<Rightarrow> Subchannel \<times> unit completion" where
  "onSessionClose sid s =
     (if session s = Some sid then
        (case transitionToState [CONNECTING] TRANSIENT_FAILURE s of
           (s1, Throws e) \<Rightarrow> (s1, Throws e)
         | (s1, Returns b) \<Rightarrow> discard (transitionToState [READY] IDLE s1))
      else (s, Returns ()))"

text \<open>\<open>tooManyPings\<close> is the value of \<open>opaqueData.equals(tooManyPingsData)\<close>.\<close>

definition onSessionGoaway :: "nat \<Rightarrow> nat \<Rightarrow> bool \<Rightarrow> Subchannel \<Rightarrow> Subchannel \<times> unit completion" where
  "onSessionGoaway sid errorCode tooManyPings s =
     (if session s = Some sid then
        (let s1 = (if errorCode = NGHTTP2_ENHANCE_YOUR_CALM \<and> tooManyPings
                   then (emit [LogExcessPings] s)
                          \<lparr>keepaliveTimeMs := min (2 * keepaliveTimeMs s) KEEPALIVE_MAX_TIME_MS\<rparr>
                   else s)
         in discard (transitionToState [CONNECTING, READY] IDLE s1))
      else (s, Returns ()))"

definition onSessionError :: "nat \<Rightarrow> Subchannel \<Rightarrow> Subchannel \<times> unit completion" where
  "onSessionError sid s = (s, Returns ())"

definition checkBothRefcounts :: "Subchannel \<Rightarrow> Subchannel \<times> unit completion" where
  "checkBothRefcounts s =
     (if callRefcount s = 0 \<and> refcount s = 0
      then discard (transitionToState [CONNECTING, IDLE, READY] TRANSIENT_FAILURE s)
      else (s, Returns ()))"

definition callRef :: "Subchannel \<Rightarrow> Subchannel \<times> unit completion" where
  "callRef s =
     (if callRefcount s = 0 then
        (let s1 = (case session s of Some sid \<Rightarrow> emit [SessionRef sid] s | None \<Rightarrow> s)
         in case startKeepalivePings s1 of
              (s2, Throws e) \<Rightarrow> (s2, Throws e)
            | (s2, Returns u) \<Rightarrow> (s2\<lparr>callRefcount := callRefcount s2 + 1\<rparr>, Returns ()))
      else (s\<lparr>callRefcount := callRefcount s + 1\<rparr>, Returns ()))"

definition callUnref :: "Subchannel \<Rightarrow> Subchannel \<times> unit completion" where
  "callUnref s =
     (let s1 = s\<lparr>callRefcount := callRefcount s - 1\<rparr>
      in if callRefcount s1 = 0 then
           (let s2 = (case session s1 of Some sid \<Rightarrow> emit [SessionUnref sid] s1 | None \<Rightarrow> s1)
            in checkBothRefcounts (stopKeepalivePings s2))
         else (s1, Returns ()))"

definition ref :: "Subchannel \<Rightarrow> Subchannel \<times> unit completion" where
  "ref s = (s\<lparr>refcount := refcount s + 1\<rparr>, Returns ())"

definition unref :: "Subchannel \<Rightarrow> Subchannel \<times> unit completion" where
  "unref s = checkBothRefcounts (s\<lparr>refcount := refcount s - 1\<rparr>)"

definition unrefIfOneRef :: "Subchannel \<Rightarrow> Subchannel \<times> bool completion" where
  "unrefIfOneRef s =
     (if refcount s = 1 then
        (case unref s of (s1, Throws e) \<Rightarrow> (s1, Throws e) | (s1, Returns u) \<Rightarrow> (s1, Returns True))
      else (s, Returns False))"

definition startConnecting :: "Subchannel \<Rightarrow> Subchannel \<times> unit completion" where
  "startConnecting s =
     (case transitionToState [IDLE] CONNECTING s of
        (s1, Throws e) \<Rightarrow> (s1, Throws e)
      | (s1, Returns changed) \<Rightarrow>
          (if \<not> changed then
             (if connectivityState s1 = TRANSIENT_FAILURE
              then (s1\<lparr>continueConnecting := True\<rparr>, Returns ())
              else (s1, Returns ()))
           else (s1, Returns ())))"

definition resetBackoff :: "Subchannel \<Rightarrow> Subchannel \<times> unit completion" where
  "resetBackoff s = discard (transitionToState [TRANSIENT_FAILURE] CONNECTING (emit [BackoffReset] s))"

text \<open>
  Everything that can change a subchannel: its public methods, the handlers of the
  session events and the two timer callbacks.
\<close>

datatype SubchannelOp =
    StartConnecting
  | SessionConnectEvent nat
  | SessionCloseEvent nat
  | SessionGoawayEvent nat nat bool
  | SessionErrorEvent nat
  | BackoffTimeout
  | KeepaliveTimeout
  | ResetBackoff
  | CallRef
  | CallUnref
  | Ref
  | Unref
  | UnrefIfOneRef

text \<open>The subchannel after an operation, whether that returned or threw.\<close>

fun perform :: "SubchannelOp \<Rightarrow> Subchannel \<Rightarrow> Subchannel" where
  "perform StartConnecting s = fst (startConnecting s)"
| "perform (SessionConnectEvent sid) s = fst (onSessionConnect sid s)"
| "perform (SessionCloseEvent sid) s = fst (onSessionClose sid s)"
| "perform (SessionGoawayEvent sid errorCode tooManyPings) s =
     fst (onSessionGoaway sid errorCode tooManyPings s)"
| "perform (SessionErrorEvent sid) s = fst (onSessionError sid s)"
| "perform BackoffTimeout s = fst (onBackoffTimeout s)"
| "perform KeepaliveTimeout s = fst (onKeepaliveTimeout s)"
| "perform ResetBackoff s = fst (resetBackoff s)"
| "perform CallRef s = fst (callRef s)"
| "perform CallUnref s = fst (callUnref s)"
| "perform Ref s = fst (ref s)"
| "perform Unref s = fst (unref s)"
| "perform UnrefIfOneRef s = fst (unrefIfOneRef s)"

text \<open>
  The transitions of the table of section 4.3 of the specification, as pairs of a source
  and a destination state.
\<close>

definition table_4_3 :: "(ConnectivityState \<times> ConnectivityState) list" where
  "table_4_3 =
     [(IDLE, CONNECTING),
      (CONNECTING, READY),
      (CONNECTING, TRANSIENT_FAILURE),
      (READY, IDLE),
      (TRANSIENT_FAILURE, IDLE), (TRANSIENT_FAILURE, CONNECTING),
      (CONNECTING, TRANSIENT_FAILURE), (IDLE, TRANSIENT_FAILURE), (READY, TRANSIENT_FAILURE)]"

text \<open>The state changes that each operation of the code can make.\<close>

fun transitions_of :: "SubchannelOp \<Rightarrow> (ConnectivityState \<times> ConnectivityState) list" where
  "transitions_of StartConnecting = [(IDLE, CONNECTING)]"
| "transitions_of (SessionConnectEvent sid) = [(CONNECTING, READY)]"
| "transitions_of (SessionCloseEvent sid) = [(CONNECTING, TRANSIENT_FAILURE), (READY, IDLE)]"
| "transitions_of (SessionGoawayEvent sid errorCode tooManyPings) =
     [(CONNECTING, IDLE), (READY, IDLE)]"
| "transitions_of (SessionErrorEvent sid) = []"
| "transitions_of BackoffTimeout =
     [(TRANSIENT_FAILURE, IDLE), (TRANSIENT_FAILURE, CONNECTING), (CONNECTING, IDLE)]"
| "transitions_of KeepaliveTimeout = [(READY, IDLE)]"
| "transitions_of ResetBackoff = [(TRANSIENT_FAILURE, CONNECTING)]"
| "transitions_of CallRef = []"
| "transitions_of CallUnref =
     [(CONNECTING, TRANSIENT_FAILURE), (IDLE, TRANSIENT_FAILURE), (READY, TRANSIENT_FAILURE)]"
| "transitions_of Ref = []"
| "transitions_of Unref =
     [(CONNECTING, TRANSIENT_FAILURE), (IDLE, TRANSIENT_FAILURE), (READY, TRANSIENT_FAILURE)]"
| "transitions_of UnrefIfOneRef =
     [(CONNECTING, TRANSIENT_FAILURE), (IDLE, TRANSIENT_FAILURE), (READY, TRANSIENT_FAILURE)]"

section \<open>ResolvingLoadBalancer (resolving-load-balancer.js)\<close>

text \<open>
  A picker as the resolving load balancer and the channel hold it: the two pickers they
  make themselves and the opaque pickers that a load balancing policy hands up.
\<close>

datatype Picker = UnavailablePicker "StatusObject option" | QueuePicker | PolicyPicker nat

text \<open>The two channel control helpers that the resolving load balancer hands to a policy.\<close>

datatype HelperKind = InnerHelper | ReplacementHelper

text \<open>
  A load balancer object made by \<open>createLoadBalancer\<close>: its type name, a number that
  tells the objects apart, and the helper it currently calls.
\<close>

record LoadBalancer =
  typeName :: string
  lbId :: nat
  helper :: HelperKind

text \<open>
  Modelled from the spec: \<open>createLoadBalancer\<close> belongs to load-balancer.js, of which the
  sources hold the declaration only, with the result type \<open>LoadBalancer | null\<close>. It gives
  a new balancer of the named type when that name is registered (its \<open>getTypeName()\<close>
  is the name it was registered with) and \<open>null\<close> otherwise. \<open>registered\<close> stands for
  \<open>isLoadBalancerNameRegistered\<close>.
\<close>

definition createLoadBalancer ::
  "(string \<Rightarrow> bool) \<Rightarrow> string \<Rightarrow> HelperKind \<Rightarrow> nat \<Rightarrow> LoadBalancer option" where
  "createLoadBalancer registered name h n =
     (if registered name then Some \<lparr>typeName = name, lbId = n, helper = h\<rparr> else None)"

text \<open>
  The calls that the resolving load balancer makes on its collaborators: the channel's
  helper, the load balancers, the resolver and its backoff timer.
\<close>

datatype RlbEffect =
    ChannelUpdateState ConnectivityState Picker
  | LbUpdateAddressList nat "string list" "LoadBalancingConfig option"
  | LbDestroy nat
  | LbExitIdle nat
  | LbResetBackoff nat
  | LbReplaceChannelControlHelper nat
  | ResolverUpdateResolution
  | RlbBackoffRunOnce
  | RlbBackoffReset

text \<open>
  \<open>previousServiceConfig\<close> has three kinds of value: \<open>None\<close> is \<open>undefined\<close> (no
  successful resolution has stored a config yet), \<open>Some None\<close> is \<open>null\<close> and
  \<open>Some (Some c)\<close> is a config. \<open>lbsCreated\<close> numbers the load balancers made so
  far.

  Modelled from the spec: the timer class of backoff-timeout.js is not among the sources.
  \<open>backoffRunning\<close> is its \<open>isRunning()\<close>, which by section 4.1 reports a pending
  timer: \<open>runOnce\<close> makes the timer pending, and it is no longer pending once its
  callback has run.
\<close>

record ResolvingLoadBalancer =
  defaultServiceConfig :: "ServiceConfig option"
  innerLoadBalancer :: "LoadBalancer option"
  pendingReplacementLoadBalancer :: "LoadBalancer option"
  currentState :: ConnectivityState
  previousServiceConfig :: "ServiceConfig option option"
  innerBalancerState :: ConnectivityState
  innerBalancerPicker :: Picker
  replacementBalancerState :: ConnectivityState
  replacementBalancerPicker :: Picker
  continueResolving :: bool
  backoffRunning :: bool
  lbsCreated :: nat
  calls :: "RlbEffect list"

definition DEFAULT_LOAD_BALANCER_NAME :: string where
  "DEFAULT_LOAD_BALANCER_NAME = ''pick_first''"

definition rlb_call :: "RlbEffect list \<Rightarrow> ResolvingLoadBalancer \<Rightarrow> ResolvingLoadBalancer" where
  "rlb_call es r = r\<lparr>calls := calls r @ es\<rparr>"

definition rlb_updateState ::
  "ConnectivityState \<Rightarrow> Picker \<Rightarrow> ResolvingLoadBalancer \<Rightarrow> ResolvingLoadBalancer" where
  "rlb_updateState connectivitystate picker r =
     rlb_call [ChannelUpdateState connectivitystate picker] (r\<lparr>currentState := connectivitystate\<rparr>)"

definition rlb_constructor :: "ServiceConfig option \<Rightarrow> ResolvingLoadBalancer" where
  "rlb_constructor dflt =
     rlb_updateState IDLE QueuePicker
       \<lparr>defaultServiceConfig = dflt,
        innerLoadBalancer = None,
        pendingReplacementLoadBalancer = None,
        currentState = IDLE,
        previousServiceConfig = None,
        innerBalancerState = IDLE,
        innerBalancerPicker = UnavailablePicker None,
        replacementBalancerState = IDLE,
        replacementBalancerPicker = UnavailablePicker None,
        continueResolving = False,
        backoffRunning = False,
        lbsCreated = 0,
        calls = []\<rparr>"

definition rlb_handleResolutionFailure ::
  "StatusObject \<Rightarrow> ResolvingLoadBalancer \<Rightarrow> ResolvingLoadBalancer" where
  "rlb_handleResolutionFailure error r =
     (let r1 = (if innerLoadBalancer r = None \<or> innerBalancerState r = IDLE
                then rlb_updateState TRANSIENT_FAILURE (UnavailablePicker (Some error)) r
                else r)
      in rlb_call [RlbBackoffRunOnce] (r1\<lparr>backoffRunning := True\<rparr>))"

definition rlb_updateResolution :: "ResolvingLoadBalancer \<Rightarrow> ResolvingLoadBalancer" where
  "rlb_updateResolution r =
     (let r1 = rlb_call [ResolverUpdateResolution] r
      in if innerLoadBalancer r1 = None \<or> innerBalancerState r1 = IDLE
         then rlb_updateState CONNECTING QueuePicker r1
         else r1)"

text \<open>
  The first group of conditionals of \<open>onSuccessfulResolution\<close>: it yields the working
  service config and may store \<open>previousServiceConfig\<close> or report a resolution failure.
\<close>

definition rlb_workingServiceConfig ::
  "ServiceConfig option \<Rightarrow> StatusObject option \<Rightarrow> ResolvingLoadBalancer
     \<Rightarrow> ServiceConfig option \<times> ResolvingLoadBalancer" where
  "rlb_workingServiceConfig serviceConfig serviceConfigError r =
     (case serviceConfig of
        None \<Rightarrow>
          (case serviceConfigError of
             None \<Rightarrow> (defaultServiceConfig r, r\<lparr>previousServiceConfig := Some serviceConfig\<rparr>)
           | Some error \<Rightarrow>
               (case previousServiceConfig r of
                  None \<Rightarrow>
                    (case defaultServiceConfig r of
                       None \<Rightarrow> (None, rlb_handleResolutionFailure error r)
                     | Some d \<Rightarrow> (defaultServiceConfig r, r))
                | Some previous \<Rightarrow> (previous, r)))
      | Some config \<Rightarrow> (serviceConfig, r\<lparr>previousServiceConfig := Some serviceConfig\<rparr>))"

text \<open>
  The loop over \<open>workingServiceConfig.loadBalancingConfig\<close>: the first own key, in the
  order of the list and of the keys, that names a registered policy, with its config.
\<close>

fun firstRegistered ::
  "(string \<Rightarrow> bool) \<Rightarrow> LoadBalancingConfig list \<Rightarrow> (string \<times> LoadBalancingConfig) option" where
  "firstRegistered registered [] = None"
| "firstRegistered registered (lbConfig # rest) =
     (case filter registered (map fst lbConfig) of
        key # others \<Rightarrow> Some (key, lbConfig)
      | [] \<Rightarrow> firstRegistered registered rest)"

text \<open>
  The choice of the policy: \<open>Some (name, config)\<close>, or \<open>None\<close> when the working config
  lists policies and none of them is registered.
\<close>

definition rlb_chooseLoadBalancer ::
  "(string \<Rightarrow> bool) \<Rightarrow> ServiceConfig option \<Rightarrow> (string \<times> LoadBalancingConfig option) option" where
  "rlb_chooseLoadBalancer registered workingServiceConfig =
     (case workingServiceConfig of
        None \<Rightarrow> Some (DEFAULT_LOAD_BALANCER_NAME, None)
      | Some config \<Rightarrow>
          (if loadBalancingConfig config = [] then Some (DEFAULT_LOAD_BALANCER_NAME, None)
           else (case firstRegistered registered (loadBalancingConfig config) of
                   None \<Rightarrow> None
                 | Some (key, lbConfig) \<Rightarrow> Some (key, Some lbConfig))))"

text \<open>
  The last group of conditionals of \<open>onSuccessfulResolution\<close>. A call of
  \<open>updateAddressList\<close> on the \<open>null\<close> that \<open>createLoadBalancer\<close> gives for an
  unregistered name throws a TypeError, after the field has been assigned.
\<close>

definition rlb_applyLoadBalancer ::
  "(string \<Rightarrow> bool) \<Rightarrow> string \<Rightarrow> string list \<Rightarrow> LoadBalancingConfig option
     \<Rightarrow> ResolvingLoadBalancer \<Rightarrow> ResolvingLoadBalancer \<times> unit completion" where
  "rlb_applyLoadBalancer registered loadBalancerName addressList chosenConfig r =
     (case innerLoadBalancer r of
        None \<Rightarrow>
          (let r1 = r\<lparr>innerLoadBalancer :=
                        createLoadBalancer registered loadBalancerName InnerHelper (lbsCreated r),
                      lbsCreated := Suc (lbsCreated r)\<rparr>
           in case innerLoadBalancer r1 of
                None \<Rightarrow> (r1, Throws ''TypeError: Cannot read property updateAddressList of null'')
              | Some lb \<Rightarrow>
                  (rlb_call [LbUpdateAddressList (lbId lb) addressList chosenConfig] r1,
                   Returns ()))
      | Some inner \<Rightarrow>
          (if typeName inner = loadBalancerName
           then (rlb_call [LbUpdateAddressList (lbId inner) addressList chosenConfig] r,
                 Returns ())
           else
             (let r2 =
                (if pendingReplacementLoadBalancer r = None
                    \<or> map_option typeName (pendingReplacementLoadBalancer r) \<noteq> Some loadBalancerName
                 then
                   (let r1 = (case pendingReplacementLoadBalancer r of
                                Some pending \<Rightarrow> rlb_call [LbDestroy (lbId pending)] r
                              | None \<Rightarrow> r)
                    in r1\<lparr>pendingReplacementLoadBalancer :=
                             createLoadBalancer registered loadBalancerName ReplacementHelper
                               (lbsCreated r1),
                           lbsCreated := Suc (lbsCreated r1)\<rparr>)
                 else r)
              in case pendingReplacementLoadBalancer r2 of
                   None \<Rightarrow> (r2, Throws ''TypeError: Cannot read property updateAddressList of null'')
                 | Some pending \<Rightarrow>
                     (rlb_call [LbUpdateAddressList (lbId pending) addressList chosenConfig] r2,
                      Returns ()))))"

text \<open>The listener method \<open>onSuccessfulResolution\<close> as a whole.\<close>

definition rlb_onSuccessfulResolution ::
  "(string \<Rightarrow> bool) \<Rightarrow> string list \<Rightarrow> ServiceConfig option \<Rightarrow> StatusObject option
     \<Rightarrow> ResolvingLoadBalancer \<Rightarrow> ResolvingLoadBalancer \<times> unit completion" where
  "rlb_onSuccessfulResolution registered addressList serviceConfig serviceConfigError r =
     (case rlb_workingServiceConfig serviceConfig serviceConfigError r of
        (workingServiceConfig, r1) \<Rightarrow>
          (case rlb_chooseLoadBalancer registered workingServiceConfig of
             None \<Rightarrow>
               (rlb_handleResolutionFailure
                  \<lparr>code = UNAVAILABLE,
                   details = ''All load balancer options in service config are not compatible'',
                   metadata = new_Metadata\<rparr> r1,
                Returns ())
           | Some (loadBalancerName, chosenConfig) \<Rightarrow>
               rlb_applyLoadBalancer registered loadBalancerName addressList chosenConfig r1))"

definition rlb_onError :: "StatusObject \<Rightarrow> ResolvingLoadBalancer \<Rightarrow> ResolvingLoadBalancer" where
  "rlb_onError error r = rlb_handleResolutionFailure error r"

text \<open>
  \<open>switchOverReplacementBalancer\<close>: \<open>this.innerLoadBalancer.destroy()\<close> throws when there
  is no inner balancer, and \<open>replaceChannelControlHelper\<close> throws, after the assignment,
  when there is no replacement.
\<close>

definition rlb_switchOverReplacementBalancer ::
  "ResolvingLoadBalancer \<Rightarrow> ResolvingLoadBalancer \<times> unit completion" where
  "rlb_switchOverReplacementBalancer r =
     (case innerLoadBalancer r of
        None \<Rightarrow> (r, Throws ''TypeError: Cannot read property destroy of null'')
      | Some inner \<Rightarrow>
          (let r1 = (rlb_call [LbDestroy (lbId inner)] r)
                      \<lparr>innerLoadBalancer := pendingReplacementLoadBalancer r\<rparr>
           in case innerLoadBalancer r1 of
                None \<Rightarrow>
                  (r1, Throws ''TypeError: Cannot read property replaceChannelControlHelper of null'')
              | Some lb \<Rightarrow>
                  (let r2 = (rlb_call [LbReplaceChannelControlHelper (lbId lb)] r1)
                              \<lparr>innerLoadBalancer := Some (lb\<lparr>helper := InnerHelper\<rparr>),
                               pendingReplacementLoadBalancer := None,
                               innerBalancerState := replacementBalancerState r1,
                               innerBalancerPicker := replacementBalancerPicker r1\<rparr>
                   in (rlb_updateState (replacementBalancerState r2)
                         (replacementBalancerPicker r2) r2,
                       Returns ()))))"

text \<open>The methods of \<open>innerChannelControlHelper\<close>.\<close>

definition rlb_innerUpdateState ::
  "ConnectivityState \<Rightarrow> Picker \<Rightarrow> ResolvingLoadBalancer
     \<Rightarrow> ResolvingLoadBalancer \<times> unit completion" where
  "rlb_innerUpdateState connectivityState' picker r =
     (let picker1 = (if connectivityState' = IDLE then QueuePicker else picker);
          r1 = r\<lparr>innerBalancerState := connectivityState', innerBalancerPicker := picker1\<rparr>
      in if connectivityState' \<noteq> READY \<and> pendingReplacementLoadBalancer r1 \<noteq> None
         then rlb_switchOverReplacementBalancer r1
         else
           (let r2 = (if connectivityState' = IDLE
                      then (case innerLoadBalancer r1 of
                              Some inner \<Rightarrow>
                                (rlb_call [LbDestroy (lbId inner)] r1)\<lparr>innerLoadBalancer := None\<rparr>
                            | None \<Rightarrow> r1)
                      else r1)
            in (rlb_updateState connectivityState' picker1 r2, Returns ())))"

definition rlb_requestReresolution :: "ResolvingLoadBalancer \<Rightarrow> ResolvingLoadBalancer" where
  "rlb_requestReresolution r =
     (if backoffRunning r then r\<lparr>continueResolving := True\<rparr> else rlb_updateResolution r)"

definition rlb_innerRequestReresolution :: "ResolvingLoadBalancer \<Rightarrow> ResolvingLoadBalancer" where
  "rlb_innerRequestReresolution r =
     (if pendingReplacementLoadBalancer r = None then rlb_requestReresolution r else r)"

text \<open>The methods of \<open>replacementChannelControlHelper\<close>.\<close>

definition rlb_replacementUpdateState ::
  "ConnectivityState \<Rightarrow> Picker \<Rightarrow> ResolvingLoadBalancer
     \<Rightarrow> ResolvingLoadBalancer \<times> unit completion" where
  "rlb_replacementUpdateState connectivityState' picker r =
     (let picker1 = (if connectivityState' = IDLE then QueuePicker else picker);
          r1 = r\<lparr>replacementBalancerState := connectivityState',
                 replacementBalancerPicker := picker1\<rparr>
      in if connectivityState' = READY then rlb_switchOverReplacementBalancer r1
         else if connectivityState' = IDLE
         then (case pendingReplacementLoadBalancer r1 of
                 Some pending \<Rightarrow>
                   ((rlb_call [LbDestroy (lbId pending)] r1)
                      \<lparr>pendingReplacementLoadBalancer := None\<rparr>, Returns ())
               | None \<Rightarrow> (r1, Returns ()))
         else (r1, Returns ()))"

definition rlb_replacementRequestReresolution ::
  "ResolvingLoadBalancer \<Rightarrow> ResolvingLoadBalancer" where
  "rlb_replacementRequestReresolution r = rlb_requestReresolution r"

text \<open>The callback of the backoff timer, with the end of the timer's pending state.\<close>

definition rlb_onBackoffTimeout :: "ResolvingLoadBalancer \<Rightarrow> ResolvingLoadBalancer" where
  "rlb_onBackoffTimeout r0 =
     (let r = r0\<lparr>backoffRunning := False\<rparr>
      in if continueResolving r then (rlb_updateResolution r)\<lparr>continueResolving := False\<rparr>
         else if innerLoadBalancer r = None then rlb_updateState IDLE QueuePicker r
         else rlb_updateState (innerBalancerState r) (innerBalancerPicker r) r)"

definition rlb_exitIdle :: "ResolvingLoadBalancer \<Rightarrow> ResolvingLoadBalancer" where
  "rlb_exitIdle r =
     (let r1 = (case innerLoadBalancer r of
                  Some inner \<Rightarrow> rlb_call [LbExitIdle (lbId inner)] r
                | None \<Rightarrow> r)
      in if currentState r1 = IDLE
         then rlb_updateState CONNECTING QueuePicker
                (if backoffRunning r1 then r1\<lparr>continueResolving := True\<rparr>
                 else rlb_updateResolution r1)
         else r1)"

definition rlb_updateAddressList ::
  "ResolvingLoadBalancer \<Rightarrow> ResolvingLoadBalancer \<times> unit completion" where
  "rlb_updateAddressList r =
     (r, Throws ''updateAddressList not supported on ResolvingLoadBalancer'')"

definition rlb_resetBackoff :: "ResolvingLoadBalancer \<Rightarrow> ResolvingLoadBalancer" where
  "rlb_resetBackoff r =
     (let r1 = rlb_call [RlbBackoffReset] r;
          r2 = (case innerLoadBalancer r1 of
                  Some inner \<Rightarrow> rlb_call [LbResetBackoff (lbId inner)] r1
                | None \<Rightarrow> r1)
      in case pendingReplacementLoadBalancer r2 of
           Some pending \<Rightarrow> rlb_call [LbResetBackoff (lbId pending)] r2
         | None \<Rightarrow> r2)"

definition rlb_destroy :: "ResolvingLoadBalancer \<Rightarrow> ResolvingLoadBalancer" where
  "rlb_destroy r =
     (let r1 = (case innerLoadBalancer r of
                  Some inner \<Rightarrow> (rlb_call [LbDestroy (lbId inner)] r)\<lparr>innerLoadBalancer := None\<rparr>
                | None \<Rightarrow> r);
          r2 = (case pendingReplacementLoadBalancer r1 of
                  Some pending \<Rightarrow>
                    (rlb_call [LbDestroy (lbId pending)] r1)
                      \<lparr>pendingReplacementLoadBalancer := None\<rparr>
                | None \<Rightarrow> r1)
      in rlb_updateState SHUTDOWN (UnavailablePicker None) r2)"

text \<open>
  Everything that can change a resolving load balancer after its construction: the two
  listener methods of the resolver, the methods of the two helpers, the backoff callback
  and the methods of the object itself.
\<close>

datatype RlbOp =
    SuccessfulResolution "string list" "ServiceConfig option" "StatusObject option"
  | ResolutionError StatusObject
  | InnerUpdateState ConnectivityState Picker
  | InnerRequestReresolution
  | ReplacementUpdateState ConnectivityState Picker
  | ReplacementRequestReresolution
  | RlbBackoffTimeout
  | UpdateResolution
  | SwitchOverReplacementBalancer
  | ExitIdle
  | UpdateAddressList
  | RlbResetBackoff
  | Destroy

text \<open>The balancer after an operation, whether that returned or threw.\<close>

fun rlb_perform ::
  "(string \<Rightarrow> bool) \<Rightarrow> RlbOp \<Rightarrow> ResolvingLoadBalancer \<Rightarrow> ResolvingLoadBalancer" where
  "rlb_perform registered (SuccessfulResolution addressList serviceConfig serviceConfigError) r =
     fst (rlb_onSuccessfulResolution registered addressList serviceConfig serviceConfigError r)"
| "rlb_perform registered (ResolutionError error) r = rlb_onError error r"
| "rlb_perform registered (InnerUpdateState st picker) r = fst (rlb_innerUpdateState st picker r)"
| "rlb_perform registered InnerRequestReresolution r = rlb_innerRequestReresolution r"
| "rlb_perform registered (ReplacementUpdateState st picker) r =
     fst (rlb_replacementUpdateState st picker r)"
| "rlb_perform registered ReplacementRequestReresolution r = rlb_replacementRequestReresolution r"
| "rlb_perform registered RlbBackoffTimeout r = rlb_onBackoffTimeout r"
| "rlb_perform registered UpdateResolution r = rlb_updateResolution r"
| "rlb_perform registered SwitchOverReplacementBalancer r =
     fst (rlb_switchOverReplacementBalancer r)"
| "rlb_perform registered ExitIdle r = rlb_exitIdle r"
| "rlb_perform registered UpdateAddressList r = fst (rlb_updateAddressList r)"
| "rlb_perform registered RlbResetBackoff r = rlb_resetBackoff r"
| "rlb_perform registered Destroy r = rlb_destroy r"

text \<open>A sequence of operations, run in order.\<close>

fun rlb_run ::
  "(string \<Rightarrow> bool) \<Rightarrow> RlbOp list \<Rightarrow> ResolvingLoadBalancer \<Rightarrow> ResolvingLoadBalancer" where
  "rlb_run registered [] r = r"
| "rlb_run registered (op # ops) r = rlb_run registered ops (rlb_perform registered op r)"

text \<open>
  The invariant stated at the field \<open>innerLoadBalancer\<close>: without an inner balancer there
  is no pending replacement.
\<close>

definition rlb_invariant :: "ResolvingLoadBalancer \<Rightarrow> bool" where
  "rlb_invariant r \<longleftrightarrow>
     (innerLoadBalancer r = None \<longrightarrow> pendingReplacementLoadBalancer r = None)"

text \<open>
  The selection of the working service config as section 4.6 of the specification words
  it, to be compared with \<open>rlb_workingServiceConfig\<close>. A selection either names the
  config to use (which may be \<open>null\<close>) or is a resolution failure; the second component
  is \<open>previousServiceConfig\<close> afterwards, which is either set (\<open>Some config\<close>) or not
  set (\<open>None\<close>): the first step sets it, the second step clears it and the third step
  uses it if it is set.
\<close>

datatype Selection = UseConfig "ServiceConfig option" | ResolutionFailure StatusObject

definition claimed_selection ::
  "ServiceConfig option \<Rightarrow> StatusObject option \<Rightarrow> ServiceConfig option
     \<Rightarrow> ServiceConfig option \<Rightarrow> Selection \<times> ServiceConfig option" where
  "claimed_selection serviceConfig serviceConfigError dflt previous =
     (case serviceConfig of
        Some config \<Rightarrow> (UseConfig (Some config), Some config)
      | None \<Rightarrow>
          (case serviceConfigError of
             None \<Rightarrow> (UseConfig dflt, None)
           | Some error \<Rightarrow>
               (case previous of
                  Some config \<Rightarrow> (UseConfig (Some config), previous)
                | None \<Rightarrow>
                    (case dflt of
                       Some config \<Rightarrow> (UseConfig (Some config), previous)
                     | None \<Rightarrow> (ResolutionFailure error, previous)))))"

section \<open>Http2CallStream (call-stream.js)\<close>

text \<open>
  What a call stream does to the outside: the \<open>status\<close> event deferred with
  \<open>process.nextTick\<close>, the \<open>metadata\<close> event, the calls on the subchannel it is
  attached to, and the reset of its HTTP/2 stream.
\<close>

datatype CallEffect =
    NextTickEmitStatus StatusObject
  | EmitMetadata Metadata
  | SubchannelAddDisconnectListener nat
  | SubchannelCallRef nat
  | SubchannelCallUnref nat
  | SubchannelRemoveDisconnectListener nat
  | Http2StreamCloseCancel nat

text \<open>
  The fields of a call stream that decide its status. An HTTP/2 stream and a subchannel
  are named by numbers. The promises \<open>handlingHeaders\<close> and \<open>handlingTrailers\<close> are
  modelled by the work still to settle: \<open>handlingHeaders\<close> holds the metadata on which
  the \<open>receiveMetadata\<close> filters are running (\<open>None\<close> once the promise is resolved);
  every call of \<open>handleTrailers\<close> makes a new promise, named by a number, and
  \<open>trailerRuns\<close> holds the runs of \<open>receiveTrailers\<close> still in flight with the status
  each was started on, while \<open>handlingTrailers\<close> is the promise assigned last (0 is the
  promise resolved at construction). A closed stream and a cancellation wait for the
  promise that was current when they began; \<open>pendingClose\<close> and \<open>pendingCancels\<close> hold
  them with that promise. The fields of the read and write paths are left out.
\<close>

record CallStream =
  http2Stream :: "nat option"
  http2StreamDestroyed :: bool
  mappedStatusCode :: StatusCode
  handlingHeaders :: "Metadata option"
  handlingTrailers :: nat
  trailerRuns :: "(nat \<times> StatusObject) list"
  promisesMade :: nat
  pendingClose :: "(StatusCode \<times> string \<times> nat) option"
  pendingCancels :: "(StatusCode \<times> string \<times> nat) list"
  finalStatus :: "StatusObject option"
  subchannel :: "nat option"
  events :: "CallEffect list"

definition Http2CallStream_constructor :: CallStream where
  "Http2CallStream_constructor =
     \<lparr>http2Stream = None,
      http2StreamDestroyed = False,
      mappedStatusCode = UNKNOWN,
      handlingHeaders = None,
      handlingTrailers = 0,
      trailerRuns = [],
      promisesMade = 0,
      pendingClose = None,
      pendingCancels = [],
      finalStatus = None,
      subchannel = None,
      events = []\<rparr>"

definition call_emit :: "CallEffect list \<Rightarrow> CallStream \<Rightarrow> CallStream" where
  "call_emit es c = c\<lparr>events := events c @ es\<rparr>"

definition endCall :: "StatusObject \<Rightarrow> CallStream \<Rightarrow> CallStream" where
  "endCall status c =
     (if finalStatus c = None then
        (let c1 = call_emit [NextTickEmitStatus status] (c\<lparr>finalStatus := Some status\<rparr>)
         in case subchannel c1 of
              Some sub \<Rightarrow>
                call_emit [SubchannelCallUnref sub, SubchannelRemoveDisconnectListener sub] c1
            | None \<Rightarrow> c1)
      else c)"

text \<open>A sequence of calls of \<open>endCall\<close>, in order.\<close>

fun endCalls :: "StatusObject list \<Rightarrow> CallStream \<Rightarrow> CallStream" where
  "endCalls [] c = c"
| "endCalls (status # statuses) c = endCalls statuses (endCall status c)"

text \<open>The listener that the call stream registers on its subchannel.\<close>

definition disconnectListener :: "CallStream \<Rightarrow> CallStream" where
  "disconnectListener c =
     endCall \<lparr>code = UNAVAILABLE, details = ''Connection dropped'', metadata = new_Metadata\<rparr> c"

text \<open>
  \<open>destroyHttp2Stream\<close> closes the stream unless its property \<open>destroyed\<close> is true.
  That property belongs to the http2 stream, which sets it some time after the \<open>close\<close>
  call has returned (\<open>streamDestroyed\<close>); until then another \<open>destroyHttp2Stream\<close> closes
  the stream again.
\<close>

definition destroyHttp2Stream :: "CallStream \<Rightarrow> CallStream" where
  "destroyHttp2Stream c =
     (case http2Stream c of
        Some stream \<Rightarrow>
          (if \<not> http2StreamDestroyed c
           then call_emit [Http2StreamCloseCancel stream] c
           else c)
      | None \<Rightarrow> c)"

definition streamDestroyed :: "CallStream \<Rightarrow> CallStream" where
  "streamDestroyed c = c\<lparr>http2StreamDestroyed := True\<rparr>"

text \<open>
  \<open>attachHttp2Stream\<close>, as far as the status is concerned: the handlers it installs on
  the stream are the functions that follow.
\<close>

definition attachHttp2Stream :: "nat \<Rightarrow> nat \<Rightarrow> CallStream \<Rightarrow> CallStream" where
  "attachHttp2Stream stream sub c =
     (if finalStatus c \<noteq> None then call_emit [Http2StreamCloseCancel stream] c
      else call_emit [SubchannelAddDisconnectListener sub, SubchannelCallRef sub]
             (c\<lparr>http2Stream := Some stream, subchannel := Some sub\<rparr>))"

text \<open>
  The \<open>switch (headers[':status'])\<close> of the \<open>response\<close> handler; \<open>None\<close> stands for
  headers without a numeric \<open>:status\<close>.
\<close>

definition mapHttpStatus :: "int option \<Rightarrow> StatusCode" where
  "mapHttpStatus httpStatus =
     (if httpStatus = Some 400 then INTERNAL
      else if httpStatus = Some 401 then UNAUTHENTICATED
      else if httpStatus = Some 403 then PERMISSION_DENIED
      else if httpStatus = Some 404 then UNIMPLEMENTED
      else if httpStatus = Some 429 \<or> httpStatus = Some 502 \<or> httpStatus = Some 503
              \<or> httpStatus = Some 504 then UNAVAILABLE
      else UNKNOWN)"

text \<open>
  \<open>handleTrailers(headers)\<close>; \<open>parsed\<close> is the outcome of
  \<open>Metadata.fromHttp2Headers(headers)\<close>, \<open>Inl\<close> the message when it throws.
\<close>

definition handleTrailers :: "string + Metadata \<Rightarrow> CallStream \<Rightarrow> CallStream" where
  "handleTrailers parsed c =
     (let status = \<lparr>code = mappedStatusCode c,
                     details = [],
                     metadata = (case parsed of Inr m \<Rightarrow> m | Inl e \<Rightarrow> new_Metadata)\<rparr>;
          promise = Suc (promisesMade c)
      in c\<lparr>handlingTrailers := promise,
            trailerRuns := trailerRuns c @ [(promise, status)],
            promisesMade := promise\<rparr>)"

text \<open>
  The handler of the \<open>response\<close> event; \<open>endStream\<close> says whether the flags have
  \<open>NGHTTP2_FLAG_END_STREAM\<close>.
\<close>

definition onResponse :: "int option \<Rightarrow> bool \<Rightarrow> string + Metadata \<Rightarrow> CallStream \<Rightarrow> CallStream" where
  "onResponse httpStatus endStream parsed c =
     (let c1 = c\<lparr>mappedStatusCode := mapHttpStatus httpStatus\<rparr>
      in if endStream then handleTrailers parsed c1
         else (case parsed of
                 Inl message \<Rightarrow>
                   endCall \<lparr>code = UNKNOWN, details = message, metadata = new_Metadata\<rparr> c1
               | Inr m \<Rightarrow> c1\<lparr>handlingHeaders := Some m\<rparr>))"

text \<open>
  The end of the \<open>receiveMetadata\<close> filters; \<open>receiveMetadata\<close> gives their result on
  the metadata, \<open>Inl\<close> the message of the error when they reject.
\<close>

definition headersSettled :: "(Metadata \<Rightarrow> string + Metadata) \<Rightarrow> CallStream \<Rightarrow> CallStream" where
  "headersSettled receiveMetadata c =
     (case handlingHeaders c of
        None \<Rightarrow> c
      | Some m \<Rightarrow>
          (case receiveMetadata m of
             Inr finalMetadata \<Rightarrow> call_emit [EmitMetadata finalMetadata] (c\<lparr>handlingHeaders := None\<rparr>)
           | Inl message \<Rightarrow>
               endCall \<lparr>code = UNKNOWN, details = message, metadata = new_Metadata\<rparr>
                 (destroyHttp2Stream (c\<lparr>handlingHeaders := None\<rparr>))))"

text \<open>
  The end of the run \<open>promise\<close> of the \<open>receiveTrailers\<close> filters; \<open>receiveTrailers\<close>
  gives their result on the status. The run awaits \<open>handlingHeaders\<close> before it ends the
  call, so nothing happens while the headers are still being handled.
\<close>

definition trailersSettled ::
  "nat \<Rightarrow> (StatusObject \<Rightarrow> string + StatusObject) \<Rightarrow> CallStream \<Rightarrow> CallStream" where
  "trailersSettled promise receiveTrailers c =
     (case map_of (trailerRuns c) promise of
        None \<Rightarrow> c
      | Some status \<Rightarrow>
          (if handlingHeaders c \<noteq> None then c
           else
             (let c1 = c\<lparr>trailerRuns := filter (\<lambda>run. fst run \<noteq> promise) (trailerRuns c)\<rparr>
              in case receiveTrailers status of
                   Inr final \<Rightarrow> endCall final c1
                 | Inl message \<Rightarrow>
                     endCall \<lparr>code = INTERNAL, details = ''Failed to process received status'',
                              metadata = new_Metadata\<rparr> c1)))"

definition NGHTTP2_REFUSED_STREAM :: nat where
  "NGHTTP2_REFUSED_STREAM = 7"

definition NGHTTP2_CANCEL :: nat where
  "NGHTTP2_CANCEL = 8"

definition NGHTTP2_INADEQUATE_SECURITY :: nat where
  "NGHTTP2_INADEQUATE_SECURITY = 12"

text \<open>The \<open>switch (stream.rstCode)\<close> of the \<open>close\<close> handler.\<close>

definition mapRstCode :: "nat \<Rightarrow> StatusCode \<times> string" where
  "mapRstCode rstCode =
     (if rstCode = NGHTTP2_REFUSED_STREAM then (UNAVAILABLE, ''Stream refused by server'')
      else if rstCode = NGHTTP2_CANCEL then (CANCELLED, ''Call cancelled'')
      else if rstCode = NGHTTP2_ENHANCE_YOUR_CALM then (RESOURCE_EXHAUSTED, ''Bandwidth exhausted'')
      else if rstCode = NGHTTP2_INADEQUATE_SECURITY
        then (PERMISSION_DENIED, ''Protocol not secure enough'')
      else (INTERNAL, []))"

text \<open>
  The handler of the \<open>close\<close> event up to its \<open>await this.handlingTrailers\<close>, and its
  continuation, which runs once the awaited promise is resolved.
\<close>

definition onStreamClose :: "nat \<Rightarrow> CallStream \<Rightarrow> CallStream" where
  "onStreamClose rstCode c =
     (case mapRstCode rstCode of
        (code', details') \<Rightarrow> c\<lparr>pendingClose := Some (code', details', handlingTrailers c)\<rparr>)"

definition closeContinued :: "CallStream \<Rightarrow> CallStream" where
  "closeContinued c =
     (case pendingClose c of
        None \<Rightarrow> c
      | Some (code', details', promise) \<Rightarrow>
          (if map_of (trailerRuns c) promise \<noteq> None then c
           else endCall \<lparr>code = code', details = details', metadata = new_Metadata\<rparr>
                  (c\<lparr>pendingClose := None\<rparr>)))"

text \<open>\<open>cancelWithStatus\<close> up to its \<open>await\<close>, and the continuation of its \<open>i\<close>-th waiting call.\<close>

definition cancelWithStatus :: "StatusCode \<Rightarrow> string \<Rightarrow> CallStream \<Rightarrow> CallStream" where
  "cancelWithStatus status details' c =
     (let c1 = destroyHttp2Stream c
      in c1\<lparr>pendingCancels := pendingCancels c1 @ [(status, details', handlingTrailers c1)]\<rparr>)"

definition cancelContinued :: "nat \<Rightarrow> CallStream \<Rightarrow> CallStream" where
  "cancelContinued i c =
     (if i < length (pendingCancels c) then
        (case pendingCancels c ! i of
           (status, details', promise) \<Rightarrow>
             (if map_of (trailerRuns c) promise \<noteq> None then c
              else endCall \<lparr>code = status, details = details', metadata = new_Metadata\<rparr>
                     (c\<lparr>pendingCancels := take i (pendingCancels c) @ drop (Suc i) (pendingCancels c)\<rparr>)))
      else c)"

section \<open>Channel (channel.js)\<close>

text \<open>
  The metadata of a call with its option \<open>waitForReady\<close> (absent counts as false).
\<close>

record CallMetadata =
  entries :: Metadata
  waitForReady :: bool

text \<open>
  The result of a picker. The enumeration \<open>PickResultType\<close> belongs to picker.js, which
  is not among the sources; \<open>OtherPickResultType\<close> stands for any value outside it, which
  \<open>tryPick\<close> answers with its \<open>default\<close> branch.
\<close>

datatype PickResultType = COMPLETE | QUEUE | TRANSIENT_FAILURE_PICK | OtherPickResultType nat

record PickResult =
  pickResultType :: PickResultType
  pick_subchannel :: "nat option"
  pick_status :: "StatusObject option"

text \<open>The error with which the \<open>sendMetadata\<close> filters reject.\<close>

record FilterError =
  error_code :: "StatusCode option"
  error_message :: string

text \<open>
  What happens after \<open>tryPick\<close> has started the \<open>sendMetadata\<close> filters of a call: their
  result, the state of the picked subchannel when they are done, and whether
  \<open>startCallStream\<close> throws.
\<close>

record FilterRun =
  sendMetadataResult :: "FilterError + Metadata"
  subchannelStateThen :: ConnectivityState
  startCallStreamThrows :: bool

text \<open>What the channel does to call streams, subchannels, watchers and timers.\<close>

datatype ChannelEffect =
    CallCancelWithStatus nat StatusCode string
  | SubchannelStartCallStream nat Metadata nat
  | NextTickCallback nat string
  | WatcherCallback nat "string option"
  | SetTimeout nat "int option"
  | ClearTimeout nat
  | ResolvingLoadBalancerDestroy
  | ResolvingLoadBalancerExitIdle
  | PoolUnrefUnusedSubchannels

text \<open>
  A watcher object; \<open>w_id\<close> tells the objects apart, \<open>w_callback\<close> names the callback
  and \<open>w_timer\<close> is the delay of its timer (\<open>None\<close> for \<open>NaN\<close>).
\<close>

record Watcher =
  w_id :: nat
  w_currentState :: ConnectivityState
  w_callback :: nat
  w_timer :: "int option"

record Channel =
  channel_connectivityState :: ConnectivityState
  currentPicker :: Picker
  pickQueue :: "(nat \<times> CallMetadata) list"
  connectivityStateWatchers :: "Watcher list"
  watchersMade :: nat
  outputs :: "ChannelEffect list"

text \<open>
  The channel after its constructor. The field \<open>currentPicker\<close> starts as an
  \<open>UnavailablePicker\<close>, and the constructor of the resolving load balancer, called next,
  hands \<open>IDLE\<close> and a \<open>QueuePicker\<close> to the \<open>updateState\<close> of the channel's helper: with
  an empty pick queue and no watcher that stores the picker and the state.
\<close>

definition Channel_constructor :: Channel where
  "Channel_constructor =
     \<lparr>channel_connectivityState = IDLE,
      currentPicker = QueuePicker,
      pickQueue = [],
      connectivityStateWatchers = [],
      watchersMade = 0,
      outputs = []\<rparr>"

definition channel_out :: "ChannelEffect list \<Rightarrow> Channel \<Rightarrow> Channel" where
  "channel_out es ch = ch\<lparr>outputs := outputs ch @ es\<rparr>"

text \<open>\<open>error.code || Status.UNKNOWN\<close>: an absent code and the code 0 (OK) are falsy.\<close>

definition code_or_UNKNOWN :: "StatusCode option \<Rightarrow> StatusCode" where
  "code_or_UNKNOWN c = (case c of None \<Rightarrow> UNKNOWN | Some x \<Rightarrow> if x = OK then UNKNOWN else x)"

text \<open>
  \<open>tryPick\<close>. \<open>pick\<close> stands for the method \<open>pick\<close> of the pickers. The callbacks given
  to \<open>then\<close> run later; the model runs them at once, on what \<open>run\<close> says happens.
\<close>

definition tryPick ::
  "(Picker \<Rightarrow> CallMetadata \<Rightarrow> PickResult) \<Rightarrow> FilterRun \<Rightarrow> nat \<Rightarrow> CallMetadata \<Rightarrow> Channel
     \<Rightarrow> Channel \<times> unit completion" where
  "tryPick pick run callStream callMetadata ch =
     (let pickResult = pick (currentPicker ch) callMetadata
      in case pickResultType pickResult of
           COMPLETE \<Rightarrow>
             (case pick_subchannel pickResult of
                None \<Rightarrow>
                  (channel_out [CallCancelWithStatus callStream UNAVAILABLE
                                  ''Request dropped by load balancing policy''] ch,
                   Returns ())
              | Some sub \<Rightarrow>
                  (case sendMetadataResult run of
                     Inr finalMetadata \<Rightarrow>
                       (if subchannelStateThen run = READY then
                          (if startCallStreamThrows run
                           then (channel_out
                                   [SubchannelStartCallStream sub finalMetadata callStream,
                                    CallCancelWithStatus callStream UNAVAILABLE
                                      ''Failed to start call on picked subchannel''] ch,
                                 Returns ())
                           else (channel_out
                                   [SubchannelStartCallStream sub finalMetadata callStream] ch,
                                 Returns ()))
                        else (channel_out [CallCancelWithStatus callStream UNAVAILABLE
                                             ''Connection dropped while starting call''] ch,
                              Returns ()))
                   | Inl error \<Rightarrow>
                       (channel_out
                          [CallCancelWithStatus callStream (code_or_UNKNOWN (error_code error))
                             (''Getting metadata from plugin failed with error: ''
                                @ error_message error)] ch,
                        Returns ())))
         | QUEUE \<Rightarrow> (ch\<lparr>pickQueue := pickQueue ch @ [(callStream, callMetadata)]\<rparr>, Returns ())
         | TRANSIENT_FAILURE_PICK \<Rightarrow>
             (if waitForReady callMetadata
              then (ch\<lparr>pickQueue := pickQueue ch @ [(callStream, callMetadata)]\<rparr>, Returns ())
              else (case pick_status pickResult of
                      None \<Rightarrow> (ch, Throws ''TypeError: Cannot read property code of undefined'')
                    | Some status \<Rightarrow>
                        (channel_out [CallCancelWithStatus callStream (code status)
                                        (details status)] ch,
                         Returns ())))
         | OtherPickResultType n \<Rightarrow> (ch, Throws ''Invalid state: unknown pickResultType''))"

definition removeConnectivityStateWatcher :: "nat \<Rightarrow> Watcher list \<Rightarrow> Watcher list" where
  "removeConnectivityStateWatcher wid watchers =
     (case find (\<lambda>w. w_id w = wid) watchers of
        None \<Rightarrow> watchers
      | Some w \<Rightarrow> remove1 w watchers)"

text \<open>
  The loop of \<open>updateState\<close> over a copy of the watcher list: the watchers that remain
  and the callbacks and timers touched.
\<close>

fun fireWatchers ::
  "ConnectivityState \<Rightarrow> Watcher list \<Rightarrow> Watcher list \<Rightarrow> Watcher list \<times> ChannelEffect list" where
  "fireWatchers newState [] watchers = (watchers, [])"
| "fireWatchers newState (watcherObject # watchersCopy) watchers =
     (if newState \<noteq> w_currentState watcherObject then
        (case fireWatchers newState watchersCopy
                (removeConnectivityStateWatcher (w_id watcherObject) watchers) of
           (remaining, es) \<Rightarrow>
             (remaining,
              [WatcherCallback (w_callback watcherObject) None, ClearTimeout (w_id watcherObject)]
                @ es))
      else fireWatchers newState watchersCopy watchers)"

definition Channel_updateState :: "ConnectivityState \<Rightarrow> Channel \<Rightarrow> Channel" where
  "Channel_updateState newState ch =
     (case fireWatchers newState (connectivityStateWatchers ch) (connectivityStateWatchers ch) of
        (remaining, es) \<Rightarrow>
          channel_out es
            (ch\<lparr>channel_connectivityState := newState, connectivityStateWatchers := remaining\<rparr>))"

text \<open>A sequence of state updates of the channel, in order.\<close>

fun Channel_updateStates :: "ConnectivityState list \<Rightarrow> Channel \<Rightarrow> Channel" where
  "Channel_updateStates [] ch = ch"
| "Channel_updateStates (newState # newStates) ch =
     Channel_updateStates newStates (Channel_updateState newState ch)"

text \<open>
  The loop of the helper's \<open>updateState\<close> over the copy of the pick queue; a throwing
  \<open>tryPick\<close> ends it. \<open>runs\<close> gives what happens to the filters of each call.
\<close>

fun repick ::
  "(Picker \<Rightarrow> CallMetadata \<Rightarrow> PickResult) \<Rightarrow> (nat \<Rightarrow> FilterRun) \<Rightarrow> (nat \<times> CallMetadata) list
     \<Rightarrow> Channel \<Rightarrow> Channel \<times> unit completion" where
  "repick pick runs [] ch = (ch, Returns ())"
| "repick pick runs ((callStream, callMetadata) # queueCopy) ch =
     (case tryPick pick (runs callStream) callStream callMetadata ch of
        (ch1, Throws e) \<Rightarrow> (ch1, Throws e)
      | (ch1, Returns u) \<Rightarrow> repick pick runs queueCopy ch1)"

text \<open>The method \<open>updateState\<close> of the channel control helper that the channel makes.\<close>

definition helper_updateState ::
  "(Picker \<Rightarrow> CallMetadata \<Rightarrow> PickResult) \<Rightarrow> (nat \<Rightarrow> FilterRun) \<Rightarrow> ConnectivityState \<Rightarrow> Picker
     \<Rightarrow> Channel \<Rightarrow> Channel \<times> unit completion" where
  "helper_updateState pick runs connectivityState' picker ch =
     (let queueCopy = pickQueue ch
      in case repick pick runs queueCopy (ch\<lparr>currentPicker := picker, pickQueue := []\<rparr>) of
           (ch1, Throws e) \<Rightarrow> (ch1, Throws e)
         | (ch1, Returns u) \<Rightarrow> (Channel_updateState connectivityState' ch1, Returns ()))"

definition deadline_message :: string where
  "deadline_message = ''Deadline passed without connectivity state change''"

text \<open>
  \<open>watchConnectivityState\<close>. \<open>deadline\<close> is the time value of \<open>deadlineDate\<close> and \<open>now\<close>
  that of \<open>new Date()\<close>, in milliseconds; \<open>None\<close> is the \<open>NaN\<close> of an invalid date, for
  which \<open>deadlineDate <= now\<close> is false.
\<close>

definition watchConnectivityState ::
  "ConnectivityState \<Rightarrow> int option \<Rightarrow> nat \<Rightarrow> int \<Rightarrow> Channel \<Rightarrow> Channel" where
  "watchConnectivityState currentState' deadline callback now ch =
     (if (case deadline of Some d \<Rightarrow> d \<le> now | None \<Rightarrow> False)
      then channel_out [NextTickCallback callback deadline_message] ch
      else
        (let watcherObject =
               \<lparr>w_id = watchersMade ch,
                w_currentState = currentState',
                w_callback = callback,
                w_timer = map_option (\<lambda>d. d - now) deadline\<rparr>
         in channel_out [SetTimeout (w_id watcherObject) (w_timer watcherObject)]
              (ch\<lparr>connectivityStateWatchers := connectivityStateWatchers ch @ [watcherObject],
                  watchersMade := Suc (watchersMade ch)\<rparr>)))"

text \<open>The callback of the timer of the watcher \<open>wid\<close>.\<close>

definition onWatcherTimeout :: "nat \<Rightarrow> Channel \<Rightarrow> Channel" where
  "onWatcherTimeout wid ch =
     (case find (\<lambda>w. w_id w = wid) (connectivityStateWatchers ch) of
        None \<Rightarrow> ch
      | Some w \<Rightarrow>
          channel_out [WatcherCallback (w_callback w) (Some deadline_message)]
            (ch\<lparr>connectivityStateWatchers :=
                  removeConnectivityStateWatcher wid (connectivityStateWatchers ch)\<rparr>))"

text \<open>
  \<open>close\<close>. The \<open>destroy\<close> of the resolving load balancer destroys its balancers and
  ends with \<open>updateState(SHUTDOWN, new UnavailablePicker())\<close>, which calls the
  \<open>updateState\<close> of the channel's helper: the queued calls are picked again with the
  new picker and the watchers hear of \<open>SHUTDOWN\<close>, before the channel's own
  \<open>updateState(SHUTDOWN)\<close>. A throwing \<open>tryPick\<close> ends \<open>close\<close> there.
\<close>

definition Channel_close ::
  "(Picker \<Rightarrow> CallMetadata \<Rightarrow> PickResult) \<Rightarrow> (nat \<Rightarrow> FilterRun) \<Rightarrow> Channel
     \<Rightarrow> Channel \<times> unit completion" where
  "Channel_close pick runs ch =
     (case helper_updateState pick runs SHUTDOWN (UnavailablePicker None)
             (channel_out [ResolvingLoadBalancerDestroy] ch) of
        (ch1, Throws e) \<Rightarrow> (ch1, Throws e)
      | (ch1, Returns u) \<Rightarrow>
          (channel_out [PoolUnrefUnusedSubchannels] (Channel_updateState SHUTDOWN ch1),
           Returns ()))"

definition getConnectivityState :: "bool \<Rightarrow> Channel \<Rightarrow> Channel \<times> ConnectivityState" where
  "getConnectivityState tryToConnect ch =
     (if tryToConnect then channel_out [ResolvingLoadBalancerExitIdle] ch else ch,
      channel_connectivityState ch)"

section \<open>Properties of the DNS resolver\<close>

subsection \<open>What a match consumes and captures\<close>

lemmas matches_Rep = matches.simps(3)
lemmas matches_Plus = matches.simps(4)

lemma matches_Rep_cases:
  assumes "(t, c') \<in> set (matches (Rep r lo hi) s c)"
  obtains "t = s" "c' = c" "lo = 0"
  | t1 c1 where "hi \<noteq> 0" "(t1, c1) \<in> set (matches r s c)"
      "(t, c') \<in> set (matches (Rep r (lo - 1) (hi - 1)) t1 c1)"
  using assms unfolding matches_Rep [of r lo hi s c]
  by (auto split: if_splits)

lemma matches_Plus_cases:
  assumes "(t, c') \<in> set (matches (Plus r) s c)"
  obtains "(t, c') \<in> set (matches r s c)"
  | t1 c1 where "(t1, c1) \<in> set (matches r s c)" "length t1 < length s"
      "(t, c') \<in> set (matches (Plus r) t1 c1)"
  using assms unfolding matches_Plus [of r s c]
  by (auto split: if_splits)

lemma matches_consumed:
  "(t, c') \<in> set (matches r s c) \<Longrightarrow> \<exists>u. s = u @ t \<and> set u \<subseteq> chars r"
proof (induction r s c arbitrary: t c' rule: matches.induct)
  case (1 cs s c)
  then show ?case by (cases s) (auto split: if_splits)
next
  case (2 r1 r2 s c)
  from "2.prems" obtain t1 c1 where
    m1: "(t1, c1) \<in> set (matches r1 s c)" and m2: "(t, c') \<in> set (matches r2 t1 c1)"
    by auto
  from "2.IH"(1) [OF m1] obtain u1 where u1: "s = u1 @ t1" "set u1 \<subseteq> chars r1" by blast
  from "2.IH"(2) [OF m1 refl m2] obtain u2 where u2: "t1 = u2 @ t" "set u2 \<subseteq> chars r2" by blast
  have "s = (u1 @ u2) @ t" "set (u1 @ u2) \<subseteq> chars (Seq r1 r2)"
    using u1 u2 by auto
  then show ?case by blast
next
  case (3 r lo hi s c)
  from "3.prems" show ?case
  proof (cases rule: matches_Rep_cases)
    case 1
    then show ?thesis by simp
  next
    case (2 t1 c1)
    from "3.IH"(1) [OF 2(1,2)] obtain u1 where u1: "s = u1 @ t1" "set u1 \<subseteq> chars r" by blast
    from "3.IH"(2) [OF 2(1,2) refl 2(3)] obtain u2 where
      u2: "t1 = u2 @ t" "set u2 \<subseteq> chars r" by auto
    have "s = (u1 @ u2) @ t" "set (u1 @ u2) \<subseteq> chars (Rep r lo hi)"
      using u1 u2 by auto
    then show ?thesis by blast
  qed
next
  case (4 r s c)
  from "4.prems" show ?case
  proof (cases rule: matches_Plus_cases)
    case 1
    from "4.IH"(1) [OF 1] show ?thesis by simp
  next
    case (2 t1 c1)
    from "4.IH"(1) [OF 2(1)] obtain u1 where u1: "s = u1 @ t1" "set u1 \<subseteq> chars r" by blast
    from "4.IH"(2) [OF 2(1) refl 2(2,3)] obtain u2 where
      u2: "t1 = u2 @ t" "set u2 \<subseteq> chars r" by auto
    have "s = (u1 @ u2) @ t" "set (u1 @ u2) \<subseteq> chars (Plus r)"
      using u1 u2 by auto
    then show ?thesis by blast
  qed
next
  case (5 n r s c)
  from "5.prems" obtain c1 where "(t, c1) \<in> set (matches r s c)"
    by auto
  from "5.IH" [OF this] show ?case by simp
qed

lemma matches_shorter: "(t, c') \<in> set (matches r s c) \<Longrightarrow> length t \<le> length s"
  using matches_consumed [of t c' r s c] by auto

lemma matches_no_groups:
  "(t, c') \<in> set (matches r s c) \<Longrightarrow> groups r = {} \<Longrightarrow> c' = c"
proof (induction r s c arbitrary: t c' rule: matches.induct)
  case (1 cs s c)
  then show ?case by (cases s) (auto split: if_splits)
next
  case (2 r1 r2 s c)
  from "2.prems" obtain t1 c1 where
    m1: "(t1, c1) \<in> set (matches r1 s c)" and m2: "(t, c') \<in> set (matches r2 t1 c1)"
    by auto
  from "2.IH"(1) [OF m1] "2.prems" have "c1 = c" by simp
  moreover from "2.IH"(2) [OF m1 refl m2] "2.prems" have "c' = c1" by simp
  ultimately show ?case by simp
next
  case (3 r lo hi s c)
  from "3.prems"(1) show ?case
  proof (cases rule: matches_Rep_cases)
    case 1
    then show ?thesis by simp
  next
    case (2 t1 c1)
    from "3.IH"(1) [OF 2(1,2)] "3.prems" have "c1 = c" by simp
    moreover from "3.IH"(2) [OF 2(1,2) refl 2(3)] "3.prems" have "c' = c1" by simp
    ultimately show ?thesis by simp
  qed
next
  case (4 r s c)
  from "4.prems"(1) show ?case
  proof (cases rule: matches_Plus_cases)
    case 1
    from "4.IH"(1) [OF 1] "4.prems" show ?thesis by simp
  next
    case (2 t1 c1)
    from "4.IH"(1) [OF 2(1)] "4.prems" have "c1 = c" by simp
    moreover from "4.IH"(2) [OF 2(1) refl 2(2,3)] "4.prems" have "c' = c1" by simp
    ultimately show ?thesis by simp
  qed
next
  case (5 n r s c)
  then show ?case by simp
qed

lemma matches_consuming:
  "(t, c') \<in> set (matches r s c) \<Longrightarrow> consuming r \<Longrightarrow> length t < length s"
proof (induction r s c arbitrary: t c' rule: matches.induct)
  case (1 cs s c)
  then show ?case by (cases s) (auto split: if_splits)
next
  case (2 r1 r2 s c)
  from "2.prems" obtain t1 c1 where
    m1: "(t1, c1) \<in> set (matches r1 s c)" and m2: "(t, c') \<in> set (matches r2 t1 c1)"
    by auto
  from matches_shorter [OF m1] have l1: "length t1 \<le> length s" .
  from matches_shorter [OF m2] have l2: "length t \<le> length t1" .
  from "2.prems" have "consuming r1 \<or> consuming r2" by simp
  then show ?case
  proof
    assume "consuming r1"
    from "2.IH"(1) [OF m1 this] l2 show ?thesis by simp
  next
    assume "consuming r2"
    from "2.IH"(2) [OF m1 refl m2 this] l1 show ?thesis by simp
  qed
next
  case (3 r lo hi s c)
  from "3.prems" have lo: "0 < lo" and cr: "consuming r" by simp_all
  from "3.prems"(1) show ?case
  proof (cases rule: matches_Rep_cases)
    case 1
    with lo show ?thesis by simp
  next
    case (2 t1 c1)
    from "3.IH"(1) [OF 2(1,2) cr] have "length t1 < length s" .
    moreover from matches_shorter [OF 2(3)] have "length t \<le> length t1" .
    ultimately show ?thesis by simp
  qed
next
  case (4 r s c)
  from "4.prems" have cr: "consuming r" by simp
  from "4.prems"(1) show ?case
  proof (cases rule: matches_Plus_cases)
    case 1
    from "4.IH"(1) [OF 1 cr] show ?thesis .
  next
    case (2 t1 c1)
    from matches_shorter [OF 2(3)] 2(2) show ?thesis by simp
  qed
next
  case (5 n r s c)
  from "5.prems" obtain c1 where "(t, c1) \<in> set (matches r s c)"
    by auto
  from "5.IH" [OF this] "5.prems" show ?case by simp
qed

lemma matches_Seq_cases:
  assumes "(t, c') \<in> set (matches (Seq r1 r2) s c)"
  obtains t1 c1 where "(t1, c1) \<in> set (matches r1 s c)" "(t, c') \<in> set (matches r2 t1 c1)"
  using assms by auto

lemma matches_Cls_cases:
  assumes "(t, c') \<in> set (matches (Cls cs) s c)"
  obtains x where "s = x # t" "x \<in> set cs" "c' = c"
  using assms by (cases s) (auto split: if_splits)

lemma exec_Some_matches: "exec r s = Some m \<Longrightarrow> ([], m) \<in> set (matches r s Map.empty)"
proof -
  assume a: "exec r s = Some m"
  then obtain t rest where
    f: "filter (\<lambda>(t, c). t = []) (matches r s Map.empty) = (t, m) # rest"
    by (auto simp: exec_def split: list.splits)
  have "(t, m) \<in> set (filter (\<lambda>(t, c). t = []) (matches r s Map.empty))"
    unfolding f by simp
  then show ?thesis by auto
qed

lemma matches_Grp_plain:
  assumes "(t, c') \<in> set (matches (Grp n r) s c)" "groups r = {}"
  shows "\<exists>u. s = u @ t \<and> set u \<subseteq> chars r \<and> c' = c(n \<mapsto> u)"
proof -
  from assms(1) obtain c1 where m: "(t, c1) \<in> set (matches r s c)"
    and c': "c' = c1(n \<mapsto> take (length s - length t) s)"
    by auto
  from matches_consumed [OF m] obtain u where u: "s = u @ t" "set u \<subseteq> chars r" by blast
  from matches_no_groups [OF m assms(2)] have "c1 = c" .
  with c' u show ?thesis by auto
qed

lemma port_suffix_cases:
  assumes "(t', c') \<in> set (matches port_suffix t c)"
  shows "(t' = t \<and> c' = c)
       \<or> (\<exists>p. p \<noteq> [] \<and> set p \<subseteq> set ''0123456789'' \<and> t = CHR '':'' # p @ t' \<and> c' = c(2 \<mapsto> p))"
  using assms unfolding port_suffix_def
proof (cases rule: matches_Rep_cases)
  case 1
  then show ?thesis by simp
next
  case (2 t1 c1)
  from 2(3) have same: "t' = t1" "c' = c1"
    by (cases rule: matches_Rep_cases; simp)+
  from 2(2) obtain ta ca where
    colon: "(ta, ca) \<in> set (matches (Cls '':'') t c)"
    and g0: "(t1, c1) \<in> set (matches (Grp 2 (Plus digit)) ta ca)"
    by (rule matches_Seq_cases)
  from colon obtain x where "t = x # ta" "x \<in> set '':''" "ca = c"
    by (rule matches_Cls_cases)
  then obtain t0 where t: "t = CHR '':'' # t0"
    and g: "(t1, c1) \<in> set (matches (Grp 2 (Plus digit)) t0 c)"
    using g0 by auto
  have "groups (Plus digit) = {}" by (simp add: digit_def)
  from matches_Grp_plain [OF g this] obtain p where
    p: "t0 = p @ t1" "set p \<subseteq> chars (Plus digit)" "c1 = c(2 \<mapsto> p)" by blast
  from g obtain c0 where "(t1, c0) \<in> set (matches (Plus digit) t0 c)" by auto
  from matches_consuming [OF this] have "length t1 < length t0" by (simp add: digit_def)
  with p have "p \<noteq> []" by auto
  with p t same show ?thesis by (auto simp: digit_def)
qed

lemma ipv4_structure:
  assumes "exec IPV4_REGEX s = Some m"
  shows "\<exists>ip. m 1 = Some ip \<and> set ip \<subseteq> set ''0123456789.''
           \<and> ((m 2 = None \<and> s = ip)
              \<or> (\<exists>p. p \<noteq> [] \<and> set p \<subseteq> set ''0123456789'' \<and> m 2 = Some p
                      \<and> s = ip @ '':'' @ p))"
proof -
  let ?A = "Seq (Rep digit 1 3) (Rep (Seq (Cls ''.'') (Rep digit 1 3)) 3 3)"
  from exec_Some_matches [OF assms] have
    "([], m) \<in> set (matches (Seq (Grp 1 ?A) port_suffix) s Map.empty)"
    by (simp only: IPV4_REGEX_def)
  then obtain t1 c1 where
    g: "(t1, c1) \<in> set (matches (Grp 1 ?A) s Map.empty)"
    and ps: "([], m) \<in> set (matches port_suffix t1 c1)"
    by (rule matches_Seq_cases)
  have "groups ?A = {}" by (simp add: digit_def)
  from matches_Grp_plain [OF g this] obtain ip where
    ip: "s = ip @ t1" "set ip \<subseteq> chars ?A" "c1 = Map.empty(1 \<mapsto> ip)" by blast
  have chars: "chars ?A = set ''0123456789.''" by (auto simp: digit_def)
  from port_suffix_cases [OF ps] show ?thesis
  proof
    assume "[] = t1 \<and> m = c1"
    with ip chars show ?thesis by auto
  next
    assume "\<exists>p. p \<noteq> [] \<and> set p \<subseteq> set ''0123456789'' \<and> t1 = CHR '':'' # p @ []
        \<and> m = c1(2 \<mapsto> p)"
    then obtain p where "p \<noteq> []" "set p \<subseteq> set ''0123456789''" "t1 = CHR '':'' # p"
      "m = c1(2 \<mapsto> p)" by auto
    with ip chars show ?thesis by auto
  qed
qed

lemma ipv6_structure:
  assumes "exec IPV6_REGEX s = Some m"
  shows "m 1 = Some s \<and> m 2 = None"
proof -
  from exec_Some_matches [OF assms] have
    g: "([], m) \<in> set (matches (Grp 1 ipv6_body) s Map.empty)"
    by (simp add: IPV6_REGEX_def)
  have "groups ipv6_body = {}" by (simp add: ipv6_body_def hexdigit_def)
  from matches_Grp_plain [OF g this] show ?thesis by auto
qed

lemma ipv6_bracket_structure:
  assumes "exec IPV6_BRACKET_REGEX s = Some m"
  shows "\<exists>ip. m 1 = Some ip \<and> set ip \<subseteq> set ''0123456789abcdefABCDEF:''
           \<and> ((m 2 = None \<and> s = ''['' @ ip @ '']'')
              \<or> (\<exists>p. p \<noteq> [] \<and> set p \<subseteq> set ''0123456789'' \<and> m 2 = Some p
                      \<and> s = ''['' @ ip @ '']:'' @ p))"
proof -
  from exec_Some_matches [OF assms] have
    "([], m) \<in> set (matches (Seq (Cls ''['') (Seq (Grp 1 ipv6_body) (Seq (Cls '']'') port_suffix)))
                       s Map.empty)"
    by (simp only: IPV6_BRACKET_REGEX_def)
  then obtain ta ca where
    a1: "(ta, ca) \<in> set (matches (Cls ''['') s Map.empty)"
    and a2: "([], m) \<in> set (matches (Seq (Grp 1 ipv6_body) (Seq (Cls '']'') port_suffix)) ta ca)"
    by (rule matches_Seq_cases)
  from a1 obtain x where "s = x # ta" "x \<in> set ''[''" "ca = Map.empty"
    by (rule matches_Cls_cases)
  then have s0: "s = CHR ''['' # ta" and ca: "ca = Map.empty" by auto
  from a2 obtain t1 c1 where
    g0: "(t1, c1) \<in> set (matches (Grp 1 ipv6_body) ta ca)"
    and a3: "([], m) \<in> set (matches (Seq (Cls '']'') port_suffix) t1 c1)"
    by (rule matches_Seq_cases)
  from a3 obtain tb cb where
    b1: "(tb, cb) \<in> set (matches (Cls '']'') t1 c1)"
    and ps0: "([], m) \<in> set (matches port_suffix tb cb)"
    by (rule matches_Seq_cases)
  from b1 obtain y where "t1 = y # tb" "y \<in> set '']''" "cb = c1"
    by (rule matches_Cls_cases)
  then have b0: "t1 = CHR '']'' # tb" and cb: "cb = c1" by auto
  obtain s0 t2 where s: "s = CHR ''['' # s0"
    and g: "(t1, c1) \<in> set (matches (Grp 1 ipv6_body) s0 Map.empty)"
    and b: "t1 = CHR '']'' # t2"
    and ps: "([], m) \<in> set (matches port_suffix t2 c1)"
    using s0 ca g0 b0 cb ps0 by auto
  have "groups ipv6_body = {}" by (simp add: ipv6_body_def hexdigit_def)
  from matches_Grp_plain [OF g this] obtain ip where
    ip: "s0 = ip @ t1" "set ip \<subseteq> chars ipv6_body" "c1 = Map.empty(1 \<mapsto> ip)" by blast
  have chars: "chars ipv6_body = set ''0123456789abcdefABCDEF:''"
    by (auto simp: ipv6_body_def hexdigit_def)
  from port_suffix_cases [OF ps] show ?thesis
  proof
    assume "[] = t2 \<and> m = c1"
    with s b ip chars show ?thesis by auto
  next
    assume "\<exists>p. p \<noteq> [] \<and> set p \<subseteq> set ''0123456789'' \<and> t2 = CHR '':'' # p @ []
        \<and> m = c1(2 \<mapsto> p)"
    then obtain p where "p \<noteq> []" "set p \<subseteq> set ''0123456789''" "t2 = CHR '':'' # p"
      "m = c1(2 \<mapsto> p)" by auto
    with s b ip chars show ?thesis by auto
  qed
qed

subsection \<open>The address that parseIP builds\<close>

lemma parseIP_ipv4:
  "exec IPV4_REGEX tgt = Some m \<Longrightarrow>
     parseIP tgt = Some [group_text m 1 @ '':'' @ port_of m]"
  by (simp add: parseIP_def Let_def)

lemma parseIP_ipv6:
  "exec IPV4_REGEX tgt = None \<Longrightarrow> exec IPV6_REGEX tgt = Some m \<Longrightarrow>
     parseIP tgt = Some [(''['' @ group_text m 1 @ '']'') @ '':'' @ port_of m]"
  by (simp add: parseIP_def Let_def)

lemma parseIP_ipv6_bracket:
  "exec IPV4_REGEX tgt = None \<Longrightarrow> exec IPV6_REGEX tgt = None \<Longrightarrow>
   exec IPV6_BRACKET_REGEX tgt = Some m \<Longrightarrow>
     parseIP tgt = Some [(''['' @ group_text m 1 @ '']'') @ '':'' @ port_of m]"
  by (simp add: parseIP_def Let_def)


lemma ipv4_address:
  assumes "exec IPV4_REGEX tgt \<noteq> None"
  shows "\<exists>ip prt. parseIP tgt = Some [ip @ '':'' @ prt]
           \<and> set ip \<subseteq> set ''0123456789.''
           \<and> (tgt = ip \<and> prt = ''443''
              \<or> prt \<noteq> [] \<and> set prt \<subseteq> set ''0123456789'' \<and> tgt = ip @ '':'' @ prt)"
proof -
  from assms obtain m where m: "exec IPV4_REGEX tgt = Some m" by auto
  from ipv4_structure [OF m] obtain ip where
    ip: "m 1 = Some ip" "set ip \<subseteq> set ''0123456789.''"
    and alt: "(m 2 = None \<and> tgt = ip)
       \<or> (\<exists>p. p \<noteq> [] \<and> set p \<subseteq> set ''0123456789'' \<and> m 2 = Some p \<and> tgt = ip @ '':'' @ p)"
    by blast
  from alt show ?thesis
  proof
    assume "m 2 = None \<and> tgt = ip"
    then have "parseIP tgt = Some [ip @ '':'' @ ''443'']" "tgt = ip"
      using parseIP_ipv4 [OF m] ip by (simp_all add: group_text_def port_of_def DEFAULT_PORT_def)
    with ip show ?thesis by blast
  next
    assume "\<exists>p. p \<noteq> [] \<and> set p \<subseteq> set ''0123456789'' \<and> m 2 = Some p \<and> tgt = ip @ '':'' @ p"
    then obtain p where p: "p \<noteq> []" "set p \<subseteq> set ''0123456789''" "m 2 = Some p"
      "tgt = ip @ '':'' @ p" by blast
    then have "parseIP tgt = Some [ip @ '':'' @ p]"
      using parseIP_ipv4 [OF m] ip by (simp add: group_text_def port_of_def)
    with ip p show ?thesis by blast
  qed
qed

lemma ipv6_address:
  assumes "exec IPV4_REGEX tgt = None" "exec IPV6_REGEX tgt \<noteq> None"
  shows "parseIP tgt = Some [''['' @ tgt @ '']:443'']"
proof -
  from assms obtain m where m: "exec IPV6_REGEX tgt = Some m" by auto
  from ipv6_structure [OF m] parseIP_ipv6 [OF assms(1) m] show ?thesis
    by (simp add: group_text_def port_of_def DEFAULT_PORT_def)
qed

lemma ipv6_bracket_address:
  assumes "exec IPV4_REGEX tgt = None" "exec IPV6_REGEX tgt = None"
    "exec IPV6_BRACKET_REGEX tgt \<noteq> None"
  shows "\<exists>ip prt. parseIP tgt = Some [''['' @ ip @ '']:'' @ prt]
           \<and> set ip \<subseteq> set ''0123456789abcdefABCDEF:''
           \<and> (tgt = ''['' @ ip @ '']'' \<and> prt = ''443''
              \<or> prt \<noteq> [] \<and> set prt \<subseteq> set ''0123456789'' \<and> tgt = ''['' @ ip @ '']:'' @ prt)"
proof -
  from assms obtain m where m: "exec IPV6_BRACKET_REGEX tgt = Some m" by auto
  from ipv6_bracket_structure [OF m] obtain ip where
    ip: "m 1 = Some ip" "set ip \<subseteq> set ''0123456789abcdefABCDEF:''"
    and alt: "(m 2 = None \<and> tgt = ''['' @ ip @ '']'')
       \<or> (\<exists>p. p \<noteq> [] \<and> set p \<subseteq> set ''0123456789'' \<and> m 2 = Some p
              \<and> tgt = ''['' @ ip @ '']:'' @ p)"
    by blast
  from alt show ?thesis
  proof
    assume a: "m 2 = None \<and> tgt = ''['' @ ip @ '']''"
    then have "parseIP tgt = Some [''['' @ ip @ '']:'' @ ''443'']"
      using parseIP_ipv6_bracket [OF assms(1,2) m] ip
      by (simp add: group_text_def port_of_def DEFAULT_PORT_def)
    with ip a show ?thesis by blast
  next
    assume "\<exists>p. p \<noteq> [] \<and> set p \<subseteq> set ''0123456789'' \<and> m 2 = Some p
              \<and> tgt = ''['' @ ip @ '']:'' @ p"
    then obtain p where p: "p \<noteq> []" "set p \<subseteq> set ''0123456789''" "m 2 = Some p"
      "tgt = ''['' @ ip @ '']:'' @ p" by blast
    then have "parseIP tgt = Some [''['' @ ip @ '']:'' @ p]"
      using parseIP_ipv6_bracket [OF assms(1,2) m] ip by (simp add: group_text_def port_of_def)
    with ip p show ?thesis by blast
  qed
qed

lemma literal_startResolution:
  assumes "parseIP tgt = Some addrs"
  shows "\<exists>r. DnsResolver_constructor tgt random100 = Returns r
          \<and> startResolution r = (r, [SetImmediate (onSuccessfulResolution addrs None None)])"
  using assms by (simp add: DnsResolver_constructor_def startResolution_def Let_def)



lemma ipv4_has_dot:
  assumes "exec IPV4_REGEX s = Some m"
  shows "CHR ''.'' \<in> set s"
proof -
  let ?D = "Seq (Cls ''.'') (Rep digit 1 3)"
  let ?A = "Seq (Rep digit 1 3) (Rep ?D 3 3)"
  from exec_Some_matches [OF assms] have
    "([], m) \<in> set (matches (Seq (Grp 1 ?A) port_suffix) s Map.empty)"
    by (simp only: IPV4_REGEX_def)
  then obtain t1 c1 where g: "(t1, c1) \<in> set (matches (Grp 1 ?A) s Map.empty)"
    by (rule matches_Seq_cases)
  then obtain c0 where "(t1, c0) \<in> set (matches ?A s Map.empty)"
    by auto
  then obtain ta ca where
    a: "(ta, ca) \<in> set (matches (Rep digit 1 3) s Map.empty)"
    and b: "(t1, c0) \<in> set (matches (Rep ?D 3 3) ta ca)"
    by (rule matches_Seq_cases)
  from b obtain tb cb where "(tb, cb) \<in> set (matches ?D ta ca)"
    by (cases rule: matches_Rep_cases) simp_all
  then obtain tc cc where "(tc, cc) \<in> set (matches (Cls ''.'') ta ca)"
    by (rule matches_Seq_cases)
  then obtain x where "ta = x # tc" "x \<in> set ''.''"
    by (rule matches_Cls_cases)
  then have "CHR ''.'' \<in> set ta" by simp
  moreover from matches_consumed [OF a] obtain u where "s = u @ ta" by blast
  ultimately show ?thesis by simp
qed

lemma ipv4_chars:
  assumes "exec IPV4_REGEX s = Some m"
  shows "set s \<subseteq> set ''0123456789.:''"
proof -
  from matches_consumed [OF exec_Some_matches [OF assms]] have "set s \<subseteq> chars IPV4_REGEX"
    by auto
  moreover have "chars IPV4_REGEX = set ''0123456789.:''"
    by (auto simp: IPV4_REGEX_def port_suffix_def digit_def)
  ultimately show ?thesis by simp
qed

lemma ipv6_chars:
  assumes "exec IPV6_REGEX s = Some m"
  shows "set s \<subseteq> set ''0123456789abcdefABCDEF:''"
proof -
  from matches_consumed [OF exec_Some_matches [OF assms]] have "set s \<subseteq> chars IPV6_REGEX"
    by auto
  moreover have "chars IPV6_REGEX = set ''0123456789abcdefABCDEF:''"
    by (auto simp: IPV6_REGEX_def ipv6_body_def hexdigit_def)
  ultimately show ?thesis by simp
qed

lemma ipv6_bracket_has_bracket:
  assumes "exec IPV6_BRACKET_REGEX s = Some m"
  shows "CHR ''['' \<in> set s"
  using ipv6_bracket_structure [OF assms] by auto

lemma ipv4_not_ipv6: "exec IPV4_REGEX s \<noteq> None \<Longrightarrow> exec IPV6_REGEX s = None"
proof (rule ccontr)
  assume "exec IPV4_REGEX s \<noteq> None" "exec IPV6_REGEX s \<noteq> None"
  then obtain m m' where "exec IPV4_REGEX s = Some m" "exec IPV6_REGEX s = Some m'" by auto
  from ipv4_has_dot [OF this(1)] ipv6_chars [OF this(2)] show False by auto
qed

lemma bracket_not_ipv4: "exec IPV6_BRACKET_REGEX s \<noteq> None \<Longrightarrow> exec IPV4_REGEX s = None"
proof (rule ccontr)
  assume "exec IPV6_BRACKET_REGEX s \<noteq> None" "exec IPV4_REGEX s \<noteq> None"
  then obtain m m' where "exec IPV6_BRACKET_REGEX s = Some m" "exec IPV4_REGEX s = Some m'"
    by auto
  from ipv6_bracket_has_bracket [OF this(1)] ipv4_chars [OF this(2)] show False by auto
qed

lemma bracket_not_ipv6: "exec IPV6_BRACKET_REGEX s \<noteq> None \<Longrightarrow> exec IPV6_REGEX s = None"
proof (rule ccontr)
  assume "exec IPV6_BRACKET_REGEX s \<noteq> None" "exec IPV6_REGEX s \<noteq> None"
  then obtain m m' where "exec IPV6_BRACKET_REGEX s = Some m" "exec IPV6_REGEX s = Some m'"
    by auto
  from ipv6_bracket_has_bracket [OF this(1)] ipv6_chars [OF this(2)] show False by auto
qed

lemma ipv4_literal_resolution:
  assumes "exec IPV4_REGEX tgt \<noteq> None"
  shows "\<exists>r ip prt. DnsResolver_constructor tgt random100 = Returns r
           \<and> startResolution r
               = (r, [SetImmediate (onSuccessfulResolution [ip @ '':'' @ prt] None None)])
           \<and> set ip \<subseteq> set ''0123456789.''
           \<and> (tgt = ip \<and> prt = ''443''
              \<or> prt \<noteq> [] \<and> set prt \<subseteq> set ''0123456789'' \<and> tgt = ip @ '':'' @ prt)"
proof -
  from ipv4_address [OF assms] obtain ip prt where
    p: "parseIP tgt = Some [ip @ '':'' @ prt]" and ip: "set ip \<subseteq> set ''0123456789.''"
    and alt: "tgt = ip \<and> prt = ''443''
           \<or> prt \<noteq> [] \<and> set prt \<subseteq> set ''0123456789'' \<and> tgt = ip @ '':'' @ prt"
    by blast
  from literal_startResolution [OF p, of random100] ip alt show ?thesis by blast
qed

lemma ipv6_literal_resolution:
  assumes "exec IPV6_REGEX tgt \<noteq> None"
  shows "\<exists>r. DnsResolver_constructor tgt random100 = Returns r
           \<and> startResolution r
               = (r, [SetImmediate (onSuccessfulResolution [''['' @ tgt @ '']:443''] None None)])"
proof -
  have "exec IPV4_REGEX tgt = None"
    using ipv4_not_ipv6 [of tgt] assms by blast
  from ipv6_address [OF this assms] literal_startResolution show ?thesis by blast
qed

lemma ipv6_bracket_literal_resolution:
  assumes "exec IPV6_BRACKET_REGEX tgt \<noteq> None"
  shows "\<exists>r ip prt. DnsResolver_constructor tgt random100 = Returns r
           \<and> startResolution r
               = (r, [SetImmediate (onSuccessfulResolution [''['' @ ip @ '']:'' @ prt] None None)])
           \<and> set ip \<subseteq> set ''0123456789abcdefABCDEF:''
           \<and> (tgt = ''['' @ ip @ '']'' \<and> prt = ''443''
              \<or> prt \<noteq> [] \<and> set prt \<subseteq> set ''0123456789'' \<and> tgt = ''['' @ ip @ '']:'' @ prt)"
proof -
  from ipv6_bracket_address [OF bracket_not_ipv4 [OF assms] bracket_not_ipv6 [OF assms] assms]
  obtain ip prt where
    p: "parseIP tgt = Some [''['' @ ip @ '']:'' @ prt]"
    and ip: "set ip \<subseteq> set ''0123456789abcdefABCDEF:''"
    and alt: "tgt = ''['' @ ip @ '']'' \<and> prt = ''443''
           \<or> prt \<noteq> [] \<and> set prt \<subseteq> set ''0123456789'' \<and> tgt = ''['' @ ip @ '']:'' @ prt"
    by blast
  from literal_startResolution [OF p, of random100] ip alt show ?thesis by blast
qed

subsection \<open>The literals that the expressions accept\<close>

text \<open>
  A list-of-successes matcher finds every way to match, so a target that is built like an
  expression is accepted by it: four groups of one to three decimal digits joined by
  dots, with or without a port, by \<open>IPV4_REGEX\<close>; groups of at most four hexadecimal
  digits joined by one or two colons by \<open>IPV6_REGEX\<close>, and in brackets, with or without
  a port, by \<open>IPV6_BRACKET_REGEX\<close>.
\<close>

lemma matches_ClsI: "x \<in> set cs \<Longrightarrow> (t, c) \<in> set (matches (Cls cs) (x # t) c)"
  by simp

lemma matches_SeqI:
  "(t1, c1) \<in> set (matches r1 s c) \<Longrightarrow> (t, c') \<in> set (matches r2 t1 c1)
     \<Longrightarrow> (t, c') \<in> set (matches (Seq r1 r2) s c)"
  by force

lemma matches_Rep_stopI: "(s, c) \<in> set (matches (Rep r 0 hi) s c)"
  by (simp add: matches_Rep)

lemma matches_Rep_stepI:
  "(t1, c1) \<in> set (matches r s c) \<Longrightarrow> (t, c') \<in> set (matches (Rep r (lo - 1) hi) t1 c1)
     \<Longrightarrow> (t, c') \<in> set (matches (Rep r lo (Suc hi)) s c)"
  unfolding matches_Rep [of r lo "Suc hi" s c] by force

lemma matches_Rep_SucI:
  "(t1, c1) \<in> set (matches r s c) \<Longrightarrow> (t, c') \<in> set (matches (Rep r lo hi) t1 c1)
     \<Longrightarrow> (t, c') \<in> set (matches (Rep r (Suc lo) (Suc hi)) s c)"
  using matches_Rep_stepI [of t1 c1 r s c t c' "Suc lo" hi] by simp

lemma matches_PlusI1:
  "(t, c') \<in> set (matches r s c) \<Longrightarrow> (t, c') \<in> set (matches (Plus r) s c)"
  unfolding matches_Plus [of r s c] by force

lemma matches_PlusI2:
  "(t1, c1) \<in> set (matches r s c) \<Longrightarrow> length t1 < length s
     \<Longrightarrow> (t, c') \<in> set (matches (Plus r) t1 c1) \<Longrightarrow> (t, c') \<in> set (matches (Plus r) s c)"
  unfolding matches_Plus [of r s c] by force

lemma matches_GrpI:
  "(t, c1) \<in> set (matches r s c) \<Longrightarrow> \<exists>c'. (t, c') \<in> set (matches (Grp n r) s c)"
  by force

lemma exec_accepts: "([], m) \<in> set (matches r s Map.empty) \<Longrightarrow> exec r s \<noteq> None"
  by (auto simp: exec_def filter_empty_conv split: list.splits)

lemma matches_run:
  "set ds \<subseteq> set cs \<Longrightarrow> lo \<le> length ds \<Longrightarrow> length ds \<le> hi
     \<Longrightarrow> (t, c) \<in> set (matches (Rep (Cls cs) lo hi) (ds @ t) c)"
proof (induction ds arbitrary: lo hi)
  case Nil
  then show ?case by (simp add: matches_Rep_stopI)
next
  case (Cons x ds)
  then obtain hi' where hi: "hi = Suc hi'" "length ds \<le> hi'"
    by (cases hi) auto
  from Cons.prems have "(ds @ t, c) \<in> set (matches (Cls cs) ((x # ds) @ t) c)"
    by simp
  moreover from Cons.prems hi have
    "(t, c) \<in> set (matches (Rep (Cls cs) (lo - 1) hi') (ds @ t) c)"
    by (intro Cons.IH) auto
  ultimately show ?case
    unfolding hi by (rule matches_Rep_stepI)
qed

lemma matches_Plus_run:
  "ds \<noteq> [] \<Longrightarrow> set ds \<subseteq> set cs \<Longrightarrow> (t, c) \<in> set (matches (Plus (Cls cs)) (ds @ t) c)"
proof (induction ds)
  case Nil
  then show ?case by simp
next
  case (Cons x ds)
  have first: "(ds @ t, c) \<in> set (matches (Cls cs) ((x # ds) @ t) c)"
    using Cons.prems by simp
  show ?case
  proof (cases "ds = []")
    case True
    with first show ?thesis by (simp add: matches_PlusI1 del: matches.simps)
  next
    case False
    with Cons have "(t, c) \<in> set (matches (Plus (Cls cs)) (ds @ t) c)" by simp
    from matches_PlusI2 [OF first _ this] show ?thesis by simp
  qed
qed

lemma decimal_group:
  assumes "g \<noteq> []" "length g \<le> 3" "set g \<subseteq> set ''0123456789''"
  shows "(t, c) \<in> set (matches (Rep digit 1 3) (g @ t) c)"
  unfolding digit_def using assms by (intro matches_run) (auto simp: Suc_le_eq)

lemma dotted_group:
  assumes "g \<noteq> []" "length g \<le> 3" "set g \<subseteq> set ''0123456789''"
  shows "(t, c) \<in> set (matches (Seq (Cls ''.'') (Rep digit 1 3)) (''.'' @ g @ t) c)"
proof -
  have "(g @ t, c) \<in> set (matches (Cls ''.'') (''.'' @ g @ t) c)"
    by simp
  from matches_SeqI [OF this decimal_group [OF assms]] show ?thesis .
qed

lemma port_suffix_absent: "([], c) \<in> set (matches port_suffix [] c)"
  unfolding port_suffix_def by (rule matches_Rep_stopI)

lemma port_suffix_present:
  assumes "p \<noteq> []" "set p \<subseteq> set ''0123456789''"
  shows "\<exists>c'. ([], c') \<in> set (matches port_suffix ('':'' @ p) c)"
proof -
  have "([], c) \<in> set (matches (Plus digit) (p @ []) c)"
    unfolding digit_def using assms by (rule matches_Plus_run)
  then have "([], c) \<in> set (matches (Plus digit) p c)"
    by simp
  from matches_GrpI [OF this, of 2] obtain c' where
    "([], c') \<in> set (matches (Grp 2 (Plus digit)) p c)" ..
  moreover have "(p, c) \<in> set (matches (Cls '':'') ('':'' @ p) c)"
    by simp
  ultimately have item:
    "([], c') \<in> set (matches (Seq (Cls '':'') (Grp 2 (Plus digit))) ('':'' @ p) c)"
    by (rule matches_SeqI [rotated])
  have "([], c') \<in> set (matches (Rep (Seq (Cls '':'') (Grp 2 (Plus digit))) 0 (Suc 0)) ('':'' @ p) c)"
    by (rule matches_Rep_stepI [OF item]) (simp add: matches_Rep_stopI)
  then have "([], c') \<in> set (matches port_suffix ('':'' @ p) c)"
    unfolding port_suffix_def by (simp only: One_nat_def)
  then show ?thesis by blast
qed

lemma dotted_quad:
  assumes "\<forall>g \<in> set [a, b, c, d]. g \<noteq> [] \<and> length g \<le> 3 \<and> set g \<subseteq> set ''0123456789''"
  shows "\<exists>m'. (t, m') \<in> set (matches
            (Grp 1 (Seq (Rep digit 1 3) (Rep (Seq (Cls ''.'') (Rep digit 1 3)) 3 3)))
            (a @ ''.'' @ b @ ''.'' @ c @ ''.'' @ d @ t) m)"
proof -
  let ?D = "Seq (Cls ''.'') (Rep digit 1 3)"
  from assms have g: "a \<noteq> []" "length a \<le> 3" "set a \<subseteq> set ''0123456789''"
    "b \<noteq> []" "length b \<le> 3" "set b \<subseteq> set ''0123456789''"
    "c \<noteq> []" "length c \<le> 3" "set c \<subseteq> set ''0123456789''"
    "d \<noteq> []" "length d \<le> 3" "set d \<subseteq> set ''0123456789''"
    by simp_all
  have three: "3 = Suc (Suc (Suc 0))" by simp
  have "(t, m) \<in> set (matches (Rep ?D 0 0) t m)"
    by (rule matches_Rep_stopI)
  from matches_Rep_SucI [OF dotted_group [OF g(10,11,12)] this] have
    "(t, m) \<in> set (matches (Rep ?D (Suc 0) (Suc 0)) (''.'' @ d @ t) m)" .
  from matches_Rep_SucI [OF dotted_group [OF g(7,8,9)] this] have
    "(t, m) \<in> set (matches (Rep ?D (Suc (Suc 0)) (Suc (Suc 0))) (''.'' @ c @ ''.'' @ d @ t) m)" .
  from matches_Rep_SucI [OF dotted_group [OF g(4,5,6)] this] have
    "(t, m) \<in> set (matches (Rep ?D 3 3) (''.'' @ b @ ''.'' @ c @ ''.'' @ d @ t) m)"
    unfolding three .
  from matches_SeqI [OF decimal_group [OF g(1,2,3)] this] have
    "(t, m) \<in> set (matches (Seq (Rep digit 1 3) (Rep ?D 3 3))
                      (a @ ''.'' @ b @ ''.'' @ c @ ''.'' @ d @ t) m)" .
  then show ?thesis
    by (rule matches_GrpI)
qed

lemma ipv4_accepts:
  assumes "\<forall>g \<in> set [a, b, c, d]. g \<noteq> [] \<and> length g \<le> 3 \<and> set g \<subseteq> set ''0123456789''"
  shows "exec IPV4_REGEX (a @ ''.'' @ b @ ''.'' @ c @ ''.'' @ d) \<noteq> None"
    and "p \<noteq> [] \<Longrightarrow> set p \<subseteq> set ''0123456789''
           \<Longrightarrow> exec IPV4_REGEX (a @ ''.'' @ b @ ''.'' @ c @ ''.'' @ d @ '':'' @ p) \<noteq> None"
proof -
  from dotted_quad [OF assms, of "[]" Map.empty] obtain m where
    "([], m) \<in> set (matches
        (Grp 1 (Seq (Rep digit 1 3) (Rep (Seq (Cls ''.'') (Rep digit 1 3)) 3 3)))
        ((a @ ''.'' @ b @ ''.'' @ c @ ''.'' @ d) @ []) Map.empty)"
    by (simp only: append_assoc) blast
  then have "([], m) \<in> set (matches
        (Grp 1 (Seq (Rep digit 1 3) (Rep (Seq (Cls ''.'') (Rep digit 1 3)) 3 3)))
        (a @ ''.'' @ b @ ''.'' @ c @ ''.'' @ d) Map.empty)"
    by (simp only: append_Nil2)
  from matches_SeqI [OF this port_suffix_absent] have
    "([], m) \<in> set (matches IPV4_REGEX (a @ ''.'' @ b @ ''.'' @ c @ ''.'' @ d) Map.empty)"
    unfolding IPV4_REGEX_def .
  then show "exec IPV4_REGEX (a @ ''.'' @ b @ ''.'' @ c @ ''.'' @ d) \<noteq> None"
    by (rule exec_accepts)
next
  assume p: "p \<noteq> []" "set p \<subseteq> set ''0123456789''"
  from dotted_quad [OF assms, of "'':'' @ p" Map.empty] obtain m where
    m: "('':'' @ p, m) \<in> set (matches
        (Grp 1 (Seq (Rep digit 1 3) (Rep (Seq (Cls ''.'') (Rep digit 1 3)) 3 3)))
        (a @ ''.'' @ b @ ''.'' @ c @ ''.'' @ d @ '':'' @ p) Map.empty)"
    by blast
  from port_suffix_present [OF p, of m] obtain m' where
    "([], m') \<in> set (matches port_suffix ('':'' @ p) m)" ..
  from matches_SeqI [OF m this] have
    "([], m') \<in> set (matches IPV4_REGEX (a @ ''.'' @ b @ ''.'' @ c @ ''.'' @ d @ '':'' @ p) Map.empty)"
    unfolding IPV4_REGEX_def .
  then show "exec IPV4_REGEX (a @ ''.'' @ b @ ''.'' @ c @ ''.'' @ d @ '':'' @ p) \<noteq> None"
    by (rule exec_accepts)
qed


lemma hex_group:
  assumes "length g \<le> 4" "set g \<subseteq> set ''0123456789abcdefABCDEF''"
  shows "(t, c) \<in> set (matches (Rep hexdigit 0 4) (g @ t) c)"
  unfolding hexdigit_def using assms by (intro matches_run) auto

lemma colons:
  assumes "sep = '':'' \<or> sep = ''::''"
  shows "(t, c) \<in> set (matches (Rep (Cls '':'') 1 2) (sep @ t) c)"
  using assms by (intro matches_run) auto

lemma colon_group:
  assumes "sep = '':'' \<or> sep = ''::''" "length g \<le> 4"
    "set g \<subseteq> set ''0123456789abcdefABCDEF''"
  shows "(t, c) \<in> set (matches (Seq (Rep (Cls '':'') 1 2) (Rep hexdigit 0 4)) (sep @ g @ t) c)"
  using colons [OF assms(1)] hex_group [OF assms(2,3)] by (rule matches_SeqI)

lemma colon_groups:
  assumes "rest \<noteq> []"
    "\<forall>(sep, g) \<in> set rest. (sep = '':'' \<or> sep = ''::'') \<and> length g \<le> 4
        \<and> set g \<subseteq> set ''0123456789abcdefABCDEF''"
  shows "(t, c) \<in> set (matches (Plus (Seq (Rep (Cls '':'') 1 2) (Rep hexdigit 0 4)))
                          (concat (map (\<lambda>(sep, g). sep @ g) rest) @ t) c)"
  using assms
proof (induction rest)
  case Nil
  then show ?case by simp
next
  case (Cons item rest)
  obtain sep g where item: "item = (sep, g)"
    by (cases item)
  with Cons.prems have ok: "sep = '':'' \<or> sep = ''::''" "length g \<le> 4"
    "set g \<subseteq> set ''0123456789abcdefABCDEF''"
    by simp_all
  let ?tail = "concat (map (\<lambda>(sep, g). sep @ g) rest) @ t"
  have joined: "concat (map (\<lambda>(sep, g). sep @ g) (item # rest)) @ t = sep @ g @ ?tail"
    by (simp add: item)
  have first: "(?tail, c) \<in> set (matches (Seq (Rep (Cls '':'') 1 2) (Rep hexdigit 0 4))
                                    (sep @ g @ ?tail) c)"
    by (rule colon_group [OF ok])
  show ?case
  proof (cases "rest = []")
    case True
    with first have "(t, c) \<in> set (matches (Seq (Rep (Cls '':'') 1 2) (Rep hexdigit 0 4))
                                    (sep @ g @ ?tail) c)"
      by (simp del: matches.simps)
    then show ?thesis
      unfolding joined by (rule matches_PlusI1)
  next
    case False
    with Cons have more:
      "(t, c) \<in> set (matches (Plus (Seq (Rep (Cls '':'') 1 2) (Rep hexdigit 0 4))) ?tail c)"
      by simp
    from ok have "length ?tail < length (sep @ g @ ?tail)"
      by auto
    from matches_PlusI2 [OF first this more] show ?thesis
      unfolding joined .
  qed
qed

lemma ipv6_body_accepts:
  assumes "length g0 \<le> 4" "set g0 \<subseteq> set ''0123456789abcdefABCDEF''" "rest \<noteq> []"
    "\<forall>(sep, g) \<in> set rest. (sep = '':'' \<or> sep = ''::'') \<and> length g \<le> 4
        \<and> set g \<subseteq> set ''0123456789abcdefABCDEF''"
  shows "\<exists>m'. (t, m') \<in> set (matches (Grp 1 ipv6_body)
                              ((g0 @ concat (map (\<lambda>(sep, g). sep @ g) rest)) @ t) m)"
proof -
  from matches_SeqI [OF hex_group [OF assms(1,2)] colon_groups [OF assms(3,4)]] have
    "(t, m) \<in> set (matches ipv6_body (g0 @ concat (map (\<lambda>(sep, g). sep @ g) rest) @ t) m)"
    unfolding ipv6_body_def .
  then have
    "(t, m) \<in> set (matches ipv6_body ((g0 @ concat (map (\<lambda>(sep, g). sep @ g) rest)) @ t) m)"
    by (simp only: append_assoc)
  then show ?thesis
    by (rule matches_GrpI)
qed

lemma split_at_first:
  "x \<notin> set u \<Longrightarrow> x \<notin> set v \<Longrightarrow> u @ x # s = v @ x # t \<Longrightarrow> u = v \<and> s = t"
proof (induction u arbitrary: v)
  case Nil
  then show ?case by (cases v) auto
next
  case (Cons a u)
  then show ?case by (cases v) auto
qed

lemma concat_without:
  "\<forall>item \<in> set items. x \<notin> set (f item) \<Longrightarrow> x \<notin> set (concat (map f items))"
  by (induction items) auto

lemma colon_hex_no_bracket:
  assumes "set g0 \<subseteq> set ''0123456789abcdefABCDEF''"
    "\<forall>(sep, g) \<in> set rest. (sep = '':'' \<or> sep = ''::'') \<and> length g \<le> 4
        \<and> set g \<subseteq> set ''0123456789abcdefABCDEF''"
  shows "CHR '']'' \<notin> set (g0 @ concat (map (\<lambda>(sep, g). sep @ g) rest))"
proof -
  have "CHR '']'' \<notin> set ''0123456789abcdefABCDEF''"
    by simp
  then have hex: "CHR '']'' \<notin> set g" if "set g \<subseteq> set ''0123456789abcdefABCDEF''" for g
    using that by blast
  have "CHR '']'' \<notin> set ((\<lambda>(sep, g). sep @ g) item)" if "item \<in> set rest" for item
  proof -
    obtain sep g where item: "item = (sep, g)"
      by (cases item)
    with assms(2) that have sep: "sep = '':'' \<or> sep = ''::''"
      and g: "set g \<subseteq> set ''0123456789abcdefABCDEF''"
      by blast+
    from sep have "CHR '']'' \<notin> set sep"
      by auto
    with hex [OF g] show ?thesis
      by (simp add: item)
  qed
  then have "CHR '']'' \<notin> set (concat (map (\<lambda>(sep, g). sep @ g) rest))"
    by (intro concat_without) blast
  with hex [OF assms(1)] show ?thesis
    by simp
qed

lemma quad_no_colon:
  assumes "\<forall>g \<in> set [a, b, c, d]. g \<noteq> [] \<and> length g \<le> 3 \<and> set g \<subseteq> set ''0123456789''"
  shows "CHR '':'' \<notin> set (a @ ''.'' @ b @ ''.'' @ c @ ''.'' @ d)"
proof -
  have digits: "CHR '':'' \<notin> set g" if "set g \<subseteq> set ''0123456789''" for g
  proof -
    have "CHR '':'' \<notin> set ''0123456789''" by simp
    with that show ?thesis by blast
  qed
  from assms have "set a \<subseteq> set ''0123456789''" "set b \<subseteq> set ''0123456789''"
    "set c \<subseteq> set ''0123456789''" "set d \<subseteq> set ''0123456789''"
    by (simp_all only: list.set ball_simps insert_iff)
  from this [THEN digits] show ?thesis
    by simp
qed

lemma ipv4_quad_resolution:
  assumes "\<forall>g \<in> set [a, b, c, d]. g \<noteq> [] \<and> length g \<le> 3 \<and> set g \<subseteq> set ''0123456789''"
    and "ip = a @ ''.'' @ b @ ''.'' @ c @ ''.'' @ d"
  shows "\<exists>r. DnsResolver_constructor ip random100 = Returns r
           \<and> startResolution r
               = (r, [SetImmediate (onSuccessfulResolution [ip @ '':443''] None None)])"
    and "p \<noteq> [] \<Longrightarrow> set p \<subseteq> set ''0123456789'' \<Longrightarrow>
         \<exists>r. DnsResolver_constructor (ip @ '':'' @ p) random100 = Returns r
           \<and> startResolution r
               = (r, [SetImmediate (onSuccessfulResolution [ip @ '':'' @ p] None None)])"
proof -
  from quad_no_colon [OF assms(1)] have colon: "CHR '':'' \<notin> set ip"
    unfolding assms(2) .
  from ipv4_literal_resolution [OF ipv4_accepts(1) [OF assms(1)], of random100]
  obtain r ip' prt where
    r: "DnsResolver_constructor ip random100 = Returns r"
      "startResolution r
         = (r, [SetImmediate (onSuccessfulResolution [ip' @ '':'' @ prt] None None)])"
    and alt: "ip = ip' \<and> prt = ''443'' \<or> ip = ip' @ '':'' @ prt"
    unfolding assms(2) [symmetric] by blast
  from colon have "ip \<noteq> ip' @ '':'' @ prt"
    by auto
  with alt have "ip' @ '':'' @ prt = ip @ '':443''"
    by auto
  with r show "\<exists>r. DnsResolver_constructor ip random100 = Returns r
           \<and> startResolution r
               = (r, [SetImmediate (onSuccessfulResolution [ip @ '':443''] None None)])"
    by auto
next
  assume p: "p \<noteq> []" "set p \<subseteq> set ''0123456789''"
  from quad_no_colon [OF assms(1)] have colon: "CHR '':'' \<notin> set ip"
    unfolding assms(2) .
  have "ip @ '':'' @ p = a @ ''.'' @ b @ ''.'' @ c @ ''.'' @ d @ '':'' @ p"
    unfolding assms(2) by simp
  with ipv4_accepts(2) [OF assms(1) p] have "exec IPV4_REGEX (ip @ '':'' @ p) \<noteq> None"
    by simp
  from ipv4_literal_resolution [OF this, of random100]
  obtain r ip' prt where
    r: "DnsResolver_constructor (ip @ '':'' @ p) random100 = Returns r"
      "startResolution r
         = (r, [SetImmediate (onSuccessfulResolution [ip' @ '':'' @ prt] None None)])"
    and ip': "set ip' \<subseteq> set ''0123456789.''"
    and alt: "ip @ '':'' @ p = ip' \<or> ip @ '':'' @ p = ip' @ '':'' @ prt"
    by blast
  have "CHR '':'' \<notin> set ''0123456789.''"
    by simp
  with ip' have colon': "CHR '':'' \<notin> set ip'"
    by blast
  then have "ip @ '':'' @ p \<noteq> ip'"
    by auto
  with alt have "ip @ CHR '':'' # p = ip' @ CHR '':'' # prt"
    by simp
  from split_at_first [OF colon colon' this] have "ip = ip' \<and> p = prt" .
  with r show "\<exists>r. DnsResolver_constructor (ip @ '':'' @ p) random100 = Returns r
           \<and> startResolution r
               = (r, [SetImmediate (onSuccessfulResolution [ip @ '':'' @ p] None None)])"
    by auto
qed

lemma bracket_accepts:
  assumes "\<And>t m. \<exists>m'. (t, m') \<in> set (matches (Grp 1 ipv6_body) (ip @ t) m)"
    and "\<And>m. \<exists>m'. ([], m') \<in> set (matches port_suffix suffix m)"
  shows "exec IPV6_BRACKET_REGEX (''['' @ ip @ '']'' @ suffix) \<noteq> None"
proof -
  from assms(1) [of "'']'' @ suffix" Map.empty] obtain m1 where
    body: "('']'' @ suffix, m1) \<in> set (matches (Grp 1 ipv6_body) (ip @ '']'' @ suffix) Map.empty)"
    by blast
  from assms(2) [of m1] obtain m2 where
    port: "([], m2) \<in> set (matches port_suffix suffix m1)"
    by blast
  have "(suffix, m1) \<in> set (matches (Cls '']'') ('']'' @ suffix) m1)"
    by simp
  from matches_SeqI [OF body matches_SeqI [OF this port]] have
    "([], m2) \<in> set (matches (Seq (Grp 1 ipv6_body) (Seq (Cls '']'') port_suffix))
                       (ip @ '']'' @ suffix) Map.empty)" .
  moreover have
    "(ip @ '']'' @ suffix, Map.empty) \<in> set (matches (Cls ''['') (''['' @ ip @ '']'' @ suffix) Map.empty)"
    by simp
  ultimately have "([], m2) \<in> set (matches IPV6_BRACKET_REGEX (''['' @ ip @ '']'' @ suffix) Map.empty)"
    unfolding IPV6_BRACKET_REGEX_def by (rule matches_SeqI [rotated])
  then show ?thesis
    by (rule exec_accepts)
qed

lemma ipv6_colon_hex_resolution:
  assumes "length g0 \<le> 4" "set g0 \<subseteq> set ''0123456789abcdefABCDEF''" "rest \<noteq> []"
    "\<forall>(sep, g) \<in> set rest. (sep = '':'' \<or> sep = ''::'') \<and> length g \<le> 4
        \<and> set g \<subseteq> set ''0123456789abcdefABCDEF''"
    and "ip = g0 @ concat (map (\<lambda>(sep, g). sep @ g) rest)"
  shows "\<exists>r. DnsResolver_constructor ip random100 = Returns r
           \<and> startResolution r
               = (r, [SetImmediate (onSuccessfulResolution [''['' @ ip @ '']:443''] None None)])"
    and "\<exists>r. DnsResolver_constructor (''['' @ ip @ '']'') random100 = Returns r
           \<and> startResolution r
               = (r, [SetImmediate (onSuccessfulResolution [''['' @ ip @ '']:443''] None None)])"
    and "p \<noteq> [] \<Longrightarrow> set p \<subseteq> set ''0123456789'' \<Longrightarrow>
         \<exists>r. DnsResolver_constructor (''['' @ ip @ '']:'' @ p) random100 = Returns r
           \<and> startResolution r
               = (r, [SetImmediate (onSuccessfulResolution [''['' @ ip @ '']:'' @ p] None None)])"
proof -
  from colon_hex_no_bracket [OF assms(2,4)] have bracket: "CHR '']'' \<notin> set ip"
    unfolding assms(5) .
  have body: "\<exists>m'. (t, m') \<in> set (matches (Grp 1 ipv6_body) (ip @ t) m)" for t m
    using ipv6_body_accepts [OF assms(1-4)] unfolding assms(5) .
  from body [of "[]" Map.empty] obtain m1 where
    "([], m1) \<in> set (matches (Grp 1 ipv6_body) (ip @ []) Map.empty)"
    by blast
  then have "([], m1) \<in> set (matches (Grp 1 ipv6_body) ip Map.empty)"
    by (simp only: append_Nil2)
  then have "exec IPV6_REGEX ip \<noteq> None"
    unfolding IPV6_REGEX_def by (rule exec_accepts)
  from ipv6_literal_resolution [OF this]
  show "\<exists>r. DnsResolver_constructor ip random100 = Returns r
           \<and> startResolution r
               = (r, [SetImmediate (onSuccessfulResolution [''['' @ ip @ '']:443''] None None)])" .
  have "CHR '']'' \<notin> set ''0123456789abcdefABCDEF:''"
    by simp
  then have bracket': "CHR '']'' \<notin> set ip'" if "set ip' \<subseteq> set ''0123456789abcdefABCDEF:''" for ip'
    using that by blast
  have "exec IPV6_BRACKET_REGEX (''['' @ ip @ '']'' @ []) \<noteq> None"
    using body port_suffix_absent by (intro bracket_accepts) blast+
  then have "exec IPV6_BRACKET_REGEX (''['' @ ip @ '']'') \<noteq> None"
    by simp
  from ipv6_bracket_literal_resolution [OF this, of random100]
  obtain r ip' prt where
    r: "DnsResolver_constructor (''['' @ ip @ '']'') random100 = Returns r"
      "startResolution r
         = (r, [SetImmediate (onSuccessfulResolution [''['' @ ip' @ '']:'' @ prt] None None)])"
    and ip': "set ip' \<subseteq> set ''0123456789abcdefABCDEF:''"
    and alt: "''['' @ ip @ '']'' = ''['' @ ip' @ '']'' \<and> prt = ''443''
        \<or> ''['' @ ip @ '']'' = ''['' @ ip' @ '']:'' @ prt"
    by blast
  have "''['' @ ip @ '']'' \<noteq> ''['' @ ip' @ '']:'' @ prt"
  proof
    assume "''['' @ ip @ '']'' = ''['' @ ip' @ '']:'' @ prt"
    then have "ip @ CHR '']'' # [] = ip' @ CHR '']'' # ('':'' @ prt)"
      by simp
    from split_at_first [OF bracket bracket' [OF ip'] this] show False
      by simp
  qed
  with alt have "''['' @ ip' @ '']:'' @ prt = ''['' @ ip @ '']:443''"
    by simp
  with r show "\<exists>r. DnsResolver_constructor (''['' @ ip @ '']'') random100 = Returns r
           \<and> startResolution r
               = (r, [SetImmediate (onSuccessfulResolution [''['' @ ip @ '']:443''] None None)])"
    by auto
  assume p: "p \<noteq> []" "set p \<subseteq> set ''0123456789''"
  have "exec IPV6_BRACKET_REGEX (''['' @ ip @ '']'' @ '':'' @ p) \<noteq> None"
    using body port_suffix_present [OF p] by (intro bracket_accepts) blast+
  then have "exec IPV6_BRACKET_REGEX (''['' @ ip @ '']:'' @ p) \<noteq> None"
    by simp
  from ipv6_bracket_literal_resolution [OF this, of random100]
  obtain r ip' prt where
    r: "DnsResolver_constructor (''['' @ ip @ '']:'' @ p) random100 = Returns r"
      "startResolution r
         = (r, [SetImmediate (onSuccessfulResolution [''['' @ ip' @ '']:'' @ prt] None None)])"
    and ip': "set ip' \<subseteq> set ''0123456789abcdefABCDEF:''"
    and alt: "''['' @ ip @ '']:'' @ p = ''['' @ ip' @ '']''
        \<or> ''['' @ ip @ '']:'' @ p = ''['' @ ip' @ '']:'' @ prt"
    by blast
  have "''['' @ ip @ '']:'' @ p \<noteq> ''['' @ ip' @ '']''"
  proof
    assume "''['' @ ip @ '']:'' @ p = ''['' @ ip' @ '']''"
    then have "ip @ CHR '']'' # ('':'' @ p) = ip' @ CHR '']'' # []"
      by simp
    from split_at_first [OF bracket bracket' [OF ip'] this] show False
      by simp
  qed
  with alt have "ip @ CHR '']'' # ('':'' @ p) = ip' @ CHR '']'' # ('':'' @ prt)"
    by simp
  from split_at_first [OF bracket bracket' [OF ip'] this] have "ip = ip' \<and> p = prt"
    by simp
  with r show "\<exists>r. DnsResolver_constructor (''['' @ ip @ '']:'' @ p) random100 = Returns r
           \<and> startResolution r
               = (r, [SetImmediate (onSuccessfulResolution [''['' @ ip @ '']:'' @ p] None None)])"
    by auto
qed

subsection \<open>C6: targets that do not parse\<close>




subsection \<open>C7: targets that are IP literals\<close>

text \<open>
  C7, as stated, fails: \<open>::ffff:1.2.3.4\<close> is an IPv6 literal, the IPv4-mapped address
  written with its last 32 bits in dotted decimal notation. None of the three expressions
  of \<open>parseIP\<close> accepts it, since their classes have no dot, and neither does
  \<open>DNS_REGEX\<close>: the resolver made for this target has no IP result and no host name,
  and its \<open>startResolution\<close> delivers nothing, where the claim has one successful
  resolution with the address \<open>[::ffff:1.2.3.4]:443\<close>.
\<close>

theorem C7_embedded_ipv4_literal_counterexample:
  "exec IPV4_REGEX ''::ffff:1.2.3.4'' = None
   \<and> exec IPV6_REGEX ''::ffff:1.2.3.4'' = None
   \<and> exec IPV6_BRACKET_REGEX ''::ffff:1.2.3.4'' = None
   \<and> parseIP ''::ffff:1.2.3.4'' = None
   \<and> DnsResolver_constructor ''::ffff:1.2.3.4'' 0 =
       Returns \<lparr>target = ''::ffff:1.2.3.4'', ipResult = None, dnsHostname = None, port = None,
                percentage = 0,
                defaultResolutionError =
                  \<lparr>code = UNAVAILABLE,
                   details = ''Name resolution failed for target ::ffff:1.2.3.4'',
                   metadata = []\<rparr>,
                pendingResultPromise = False\<rparr>
   \<and> startResolution
        \<lparr>target = ''::ffff:1.2.3.4'', ipResult = None, dnsHostname = None, port = None,
         percentage = 0,
         defaultResolutionError =
           \<lparr>code = UNAVAILABLE,
            details = ''Name resolution failed for target ::ffff:1.2.3.4'',
            metadata = []\<rparr>,
         pendingResultPromise = False\<rparr>
       = (\<lparr>target = ''::ffff:1.2.3.4'', ipResult = None, dnsHostname = None, port = None,
          percentage = 0,
          defaultResolutionError =
            \<lparr>code = UNAVAILABLE,
             details = ''Name resolution failed for target ::ffff:1.2.3.4'',
             metadata = []\<rparr>,
          pendingResultPromise = False\<rparr>, [])"
proof -
  have none: "exec DNS_REGEX ''::ffff:1.2.3.4'' = None \<and> exec IPV4_REGEX ''::ffff:1.2.3.4'' = None
      \<and> exec IPV6_REGEX ''::ffff:1.2.3.4'' = None
      \<and> exec IPV6_BRACKET_REGEX ''::ffff:1.2.3.4'' = None"
    by code_simp
  then show ?thesis
    by (simp add: DnsResolver_constructor_def startResolution_def parseIP_def new_Metadata_def)
qed

text \<open>
  C7, amended: for a target that is an IPv4 literal (four groups of one to three decimal
  digits joined by dots), or an IPv6 literal written with hexadecimal groups only (groups
  of at most four hexadecimal digits joined by single or double colons), bare or in
  brackets, \<open>startResolution\<close> on the resolver made for it defers exactly one
  successful resolution, with a single address and with neither a service config nor a
  service config error, starts no DNS lookup and leaves the resolver as it is. A port (a
  non-empty run of decimal digits after a colon) may follow an IPv4 literal and a
  bracketed IPv6 literal. For an IPv4 literal \<open>ip\<close> or \<open>ip:port\<close> the address is
  \<open>ip:port\<close>; for an IPv6 literal \<open>ip\<close>, \<open>[ip]\<close> or \<open>[ip]:port\<close> it is
  \<open>[ip]:port\<close>; an absent port is 443. In particular the target \<open>1.2.3.4\<close> gives
  the address \<open>1.2.3.4:443\<close>. An IPv6 literal with an embedded IPv4 address is not
  among these targets.
\<close>

theorem C7_ip_literal_resolution:
  "((\<forall>g \<in> set [a, b, c, d]. g \<noteq> [] \<and> length g \<le> 3 \<and> set g \<subseteq> set ''0123456789'')
      \<and> quad = a @ ''.'' @ b @ ''.'' @ c @ ''.'' @ d
    \<longrightarrow> (\<exists>r. DnsResolver_constructor quad random100 = Returns r
           \<and> startResolution r
               = (r, [SetImmediate (onSuccessfulResolution [quad @ '':443''] None None)]))
       \<and> (p \<noteq> [] \<and> set p \<subseteq> set ''0123456789''
          \<longrightarrow> (\<exists>r. DnsResolver_constructor (quad @ '':'' @ p) random100 = Returns r
                 \<and> startResolution r
                     = (r, [SetImmediate
                              (onSuccessfulResolution [quad @ '':'' @ p] None None)]))))
   \<and> (length lead \<le> 4 \<and> set lead \<subseteq> set ''0123456789abcdefABCDEF'' \<and> rest \<noteq> []
      \<and> (\<forall>(sep, g) \<in> set rest. (sep = '':'' \<or> sep = ''::'') \<and> length g \<le> 4
            \<and> set g \<subseteq> set ''0123456789abcdefABCDEF'')
      \<and> colonhex = lead @ concat (map (\<lambda>(sep, g). sep @ g) rest)
    \<longrightarrow> (\<exists>r. DnsResolver_constructor colonhex random100 = Returns r
           \<and> startResolution r
               = (r, [SetImmediate
                        (onSuccessfulResolution [''['' @ colonhex @ '']:443''] None None)]))
       \<and> (\<exists>r. DnsResolver_constructor (''['' @ colonhex @ '']'') random100 = Returns r
           \<and> startResolution r
               = (r, [SetImmediate
                        (onSuccessfulResolution [''['' @ colonhex @ '']:443''] None None)]))
       \<and> (p \<noteq> [] \<and> set p \<subseteq> set ''0123456789''
          \<longrightarrow> (\<exists>r. DnsResolver_constructor (''['' @ colonhex @ '']:'' @ p) random100 = Returns r
                 \<and> startResolution r
                     = (r, [SetImmediate
                              (onSuccessfulResolution [''['' @ colonhex @ '']:'' @ p] None None)]))))"
proof (intro conjI impI)
  assume "(\<forall>g \<in> set [a, b, c, d]. g \<noteq> [] \<and> length g \<le> 3 \<and> set g \<subseteq> set ''0123456789'')
      \<and> quad = a @ ''.'' @ b @ ''.'' @ c @ ''.'' @ d"
  then have four: "\<forall>g \<in> set [a, b, c, d]. g \<noteq> [] \<and> length g \<le> 3 \<and> set g \<subseteq> set ''0123456789''"
    "quad = a @ ''.'' @ b @ ''.'' @ c @ ''.'' @ d"
    by blast+
  from ipv4_quad_resolution(1) [OF four]
  show "\<exists>r. DnsResolver_constructor quad random100 = Returns r
           \<and> startResolution r
               = (r, [SetImmediate (onSuccessfulResolution [quad @ '':443''] None None)])" .
  assume "p \<noteq> [] \<and> set p \<subseteq> set ''0123456789''"
  then have "p \<noteq> []" "set p \<subseteq> set ''0123456789''"
    by blast+
  from ipv4_quad_resolution(2) [OF four this]
  show "\<exists>r. DnsResolver_constructor (quad @ '':'' @ p) random100 = Returns r
           \<and> startResolution r
               = (r, [SetImmediate (onSuccessfulResolution [quad @ '':'' @ p] None None)])" .
next
  assume "length lead \<le> 4 \<and> set lead \<subseteq> set ''0123456789abcdefABCDEF'' \<and> rest \<noteq> []
      \<and> (\<forall>(sep, g) \<in> set rest. (sep = '':'' \<or> sep = ''::'') \<and> length g \<le> 4
            \<and> set g \<subseteq> set ''0123456789abcdefABCDEF'')
      \<and> colonhex = lead @ concat (map (\<lambda>(sep, g). sep @ g) rest)"
  then have hex: "length lead \<le> 4" "set lead \<subseteq> set ''0123456789abcdefABCDEF''" "rest \<noteq> []"
    "\<forall>(sep, g) \<in> set rest. (sep = '':'' \<or> sep = ''::'') \<and> length g \<le> 4
            \<and> set g \<subseteq> set ''0123456789abcdefABCDEF''"
    "colonhex = lead @ concat (map (\<lambda>(sep, g). sep @ g) rest)"
    by blast+
  from ipv6_colon_hex_resolution(1) [OF hex]
  show "\<exists>r. DnsResolver_constructor colonhex random100 = Returns r
           \<and> startResolution r
               = (r, [SetImmediate
                        (onSuccessfulResolution [''['' @ colonhex @ '']:443''] None None)])" .
  from ipv6_colon_hex_resolution(2) [OF hex]
  show "\<exists>r. DnsResolver_constructor (''['' @ colonhex @ '']'') random100 = Returns r
           \<and> startResolution r
               = (r, [SetImmediate
                        (onSuccessfulResolution [''['' @ colonhex @ '']:443''] None None)])" .
  assume "p \<noteq> [] \<and> set p \<subseteq> set ''0123456789''"
  then have "p \<noteq> []" "set p \<subseteq> set ''0123456789''"
    by blast+
  from ipv6_colon_hex_resolution(3) [OF hex this]
  show "\<exists>r. DnsResolver_constructor (''['' @ colonhex @ '']:'' @ p) random100 = Returns r
           \<and> startResolution r
               = (r, [SetImmediate
                        (onSuccessfulResolution [''['' @ colonhex @ '']:'' @ p] None None)])" .
qed

theorem C7_ip_literal_resolution_witness:
  "(\<exists>r. DnsResolver_constructor ''1.2.3.4'' 0 = Returns r
        \<and> startResolution r
            = (r, [SetImmediate (onSuccessfulResolution [''1.2.3.4:443''] None None)]))
   \<and> (\<exists>r. DnsResolver_constructor ''1.2.3.4:8080'' 0 = Returns r
        \<and> startResolution r
            = (r, [SetImmediate (onSuccessfulResolution [''1.2.3.4:8080''] None None)]))
   \<and> (\<exists>r. DnsResolver_constructor ''::1'' 0 = Returns r
        \<and> startResolution r
            = (r, [SetImmediate (onSuccessfulResolution [''[::1]:443''] None None)]))
   \<and> (\<exists>r. DnsResolver_constructor ''[::1]'' 0 = Returns r
        \<and> startResolution r
            = (r, [SetImmediate (onSuccessfulResolution [''[::1]:443''] None None)]))
   \<and> (\<exists>r. DnsResolver_constructor ''[::1]:8080'' 0 = Returns r
        \<and> startResolution r
            = (r, [SetImmediate (onSuccessfulResolution [''[::1]:8080''] None None)]))"
proof -
  have four: "(\<forall>g \<in> set [''1'', ''2'', ''3'', ''4''].
                 g \<noteq> [] \<and> length g \<le> 3 \<and> set g \<subseteq> set ''0123456789'')
              \<and> ''1.2.3.4'' = ''1'' @ ''.'' @ ''2'' @ ''.'' @ ''3'' @ ''.'' @ ''4''"
    by simp
  have hex: "length ([] :: string) \<le> 4 \<and> set [] \<subseteq> set ''0123456789abcdefABCDEF''
      \<and> [(''::'', ''1'')] \<noteq> []
      \<and> (\<forall>(sep, g) \<in> set [(''::'', ''1'')]. (sep = '':'' \<or> sep = ''::'') \<and> length g \<le> 4
            \<and> set g \<subseteq> set ''0123456789abcdefABCDEF'')
      \<and> ''::1'' = [] @ concat (map (\<lambda>(sep, g). sep @ g) [(''::'', ''1'')])"
    by simp
  have port: "''8080'' \<noteq> [] \<and> set ''8080'' \<subseteq> set ''0123456789''"
    by simp
  note inst = C7_ip_literal_resolution
      [where a = "''1''" and b = "''2''" and c = "''3''" and d = "''4''" and quad = "''1.2.3.4''"
         and p = "''8080''" and lead = "[]" and rest = "[(''::'', ''1'')]" and colonhex = "''::1''"
         and ?random100.0 = 0]
  note v4 = inst [THEN conjunct1, rule_format, OF four]
  note v6 = inst [THEN conjunct2, rule_format, OF hex]
  note r1 = v4 [THEN conjunct1]
  note r2 = v4 [THEN conjunct2, rule_format, OF port]
  note r3 = v6 [THEN conjunct1]
  note r4 = v6 [THEN conjunct2, THEN conjunct1]
  note r5 = v6 [THEN conjunct2, THEN conjunct2, rule_format, OF port]
  have texts: "''1.2.3.4'' @ '':443'' = ''1.2.3.4:443''"
    "''1.2.3.4'' @ '':'' @ ''8080'' = ''1.2.3.4:8080''"
    "''['' @ ''::1'' @ '']:443'' = ''[::1]:443''"
    "''['' @ ''::1'' @ '']'' = ''[::1]''"
    "''['' @ ''::1'' @ '']:'' @ ''8080'' = ''[::1]:8080''"
    by simp_all
  from r1 r2 r3 r4 r5 show ?thesis
    unfolding texts by blast
qed

subsection \<open>The address merge\<close>

lemma concat_singletons_nth: "concat (map (\<lambda>i. [xs ! i]) [0 ..< length xs]) = xs"
proof -
  have "concat (map (\<lambda>i. [xs ! i]) [0 ..< length xs]) = map (\<lambda>i. xs ! i) [0 ..< length xs]"
    by (induction "[0 ..< length xs]") (simp_all add: concat_map_singleton)
  then show ?thesis by (simp add: map_nth)
qed

lemma concat_guarded_nth:
  "concat (map (\<lambda>i. if i < length xs then [xs ! i] else []) [0 ..< length xs]) = xs"
proof -
  have eq: "map (\<lambda>i. if i < length xs then [xs ! i] else []) [0 ..< length xs]
        = map (\<lambda>i. [xs ! i]) [0 ..< length xs]"
    by (rule map_cong) simp_all
  show ?thesis
    unfolding eq by (rule concat_singletons_nth)
qed

lemma mergeArrays_Nil_left: "mergeArrays [[], bs] = bs"
  by (simp add: mergeArrays_def concat_guarded_nth)

lemma mergeArrays_Nil_right: "mergeArrays [as, []] = as"
  by (simp add: mergeArrays_def concat_guarded_nth)

lemma mergeArrays_Cons_Cons:
  "mergeArrays [a # as, b # bs] = a # b # mergeArrays [as, bs]"
proof -
  let ?n = "max (length as) (length bs)"
  have upt: "[0 ..< Suc ?n] = 0 # map Suc [0 ..< ?n]"
    by (simp add: upt_conv_Cons map_Suc_upt del: upt_Suc)
  have "max (Suc (length as)) (Suc (length bs)) = Suc ?n"
    by simp
  then show ?thesis
    by (simp add: mergeArrays_def upt comp_def del: upt_Suc cong: if_cong)
qed

lemma round_robin_eq_Nil: "round_robin as bs = [] \<longleftrightarrow> as = [] \<and> bs = []"
  by (induction as bs rule: round_robin.induct) simp_all

lemma mergeArrays_round_robin: "mergeArrays [as, bs] = round_robin as bs"
proof (induction as bs rule: round_robin.induct)
  case (1 bs)
  show ?case by (simp add: mergeArrays_Nil_left)
next
  case (2 a as)
  show ?case by (simp add: mergeArrays_Nil_right)
next
  case (3 a as b bs)
  then show ?case by (simp add: mergeArrays_Cons_Cons)
qed


subsection \<open>C8: the delivered address list\<close>

text \<open>
  C8, as stated, at a runtime outside the IPv6 support range: with the A results
  \<open>10.0.0.1\<close>, \<open>10.0.0.2\<close> and the AAAA result \<open>::1\<close> the resolver for
  \<open>dns:a.b\<close> delivers the two IPv4 addresses only, which is not the interleaving of the
  resolved IPv4 and IPv6 addresses.
\<close>

theorem C8_delivered_without_ipv6_counterexample:
  "resolutionSettled False
      (Inr [\<lparr>address = ''10.0.0.1'', family = 4\<rparr>,
            \<lparr>address = ''10.0.0.2'', family = 4\<rparr>,
            \<lparr>address = ''::1'', family = 6\<rparr>])
      (TxtSelected None)
      \<lparr>target = ''dns:a.b'', ipResult = None, dnsHostname = Some ''a.b'', port = Some ''443'',
       percentage = 0,
       defaultResolutionError =
         \<lparr>code = UNAVAILABLE, details = ''Name resolution failed for target dns:a.b'',
          metadata = []\<rparr>,
       pendingResultPromise = True\<rparr>
     = (\<lparr>target = ''dns:a.b'', ipResult = None, dnsHostname = Some ''a.b'', port = Some ''443'',
        percentage = 0,
        defaultResolutionError =
          \<lparr>code = UNAVAILABLE, details = ''Name resolution failed for target dns:a.b'',
           metadata = []\<rparr>,
        pendingResultPromise = False\<rparr>,
        [CallListener (onSuccessfulResolution [''10.0.0.1:443'', ''10.0.0.2:443''] None None)])
   \<and> round_robin [''10.0.0.1:443'', ''10.0.0.2:443''] [''[::1]:443'']
       = [''10.0.0.1:443'', ''[::1]:443'', ''10.0.0.2:443'']
   \<and> fst (startResolution
            \<lparr>target = ''dns:a.b'', ipResult = None, dnsHostname = Some ''a.b'',
             port = Some ''443'', percentage = 0,
             defaultResolutionError =
               \<lparr>code = UNAVAILABLE, details = ''Name resolution failed for target dns:a.b'',
                metadata = []\<rparr>,
             pendingResultPromise = False\<rparr>)
       = \<lparr>target = ''dns:a.b'', ipResult = None, dnsHostname = Some ''a.b'', port = Some ''443'',
          percentage = 0,
          defaultResolutionError =
            \<lparr>code = UNAVAILABLE, details = ''Name resolution failed for target dns:a.b'',
             metadata = []\<rparr>,
          pendingResultPromise = True\<rparr>
   \<and> DnsResolver_constructor ''dns:a.b'' 0
       = Returns \<lparr>target = ''dns:a.b'', ipResult = None, dnsHostname = Some ''a.b'',
                  port = Some ''443'', percentage = 0,
                  defaultResolutionError =
                    \<lparr>code = UNAVAILABLE,
                     details = ''Name resolution failed for target dns:a.b'', metadata = []\<rparr>,
                  pendingResultPromise = False\<rparr>"
proof -
  have parsed:
    "map_option (\<lambda>m. (m 1, m 2)) (exec DNS_REGEX ''dns:a.b'') = Some (Some ''a.b'', None)
     \<and> exec IPV4_REGEX ''dns:a.b'' = None \<and> exec IPV6_REGEX ''dns:a.b'' = None
     \<and> exec IPV6_BRACKET_REGEX ''dns:a.b'' = None"
    by code_simp
  then obtain m where m: "exec DNS_REGEX ''dns:a.b'' = Some m" "m 1 = Some ''a.b''" "m 2 = None"
    by auto
  have made: "DnsResolver_constructor ''dns:a.b'' 0
       = Returns \<lparr>target = ''dns:a.b'', ipResult = None, dnsHostname = Some ''a.b'',
                  port = Some ''443'', percentage = 0,
                  defaultResolutionError =
                    \<lparr>code = UNAVAILABLE,
                     details = ''Name resolution failed for target dns:a.b'', metadata = []\<rparr>,
                  pendingResultPromise = False\<rparr>"
    using parsed m
    by (simp add: DnsResolver_constructor_def parseIP_def port_of_def DEFAULT_PORT_def
        new_Metadata_def)
  show ?thesis
    using made
    by (simp add: resolutionSettled_def allAddresses_def mergeArrays_round_robin
        ip4Addresses_def ip6Addresses_def serviceConfigOf_def startResolution_def Let_def)
qed

text \<open>
  C8, amended: the address list that the DNS resolver delivers is the round-robin
  interleaving, starting with A, of the formatted IPv4 results A and the formatted IPv6
  results B that the resolver retains. B holds the AAAA results where the runtime supports
  IPv6 literals and is empty where it does not, so that only A is delivered there. When
  both lists are empty the resolver delivers its resolution error instead of a list. Merging
  \<open>[a1, a2]\<close> with \<open>[b1]\<close> gives \<open>[a1, b1, a2]\<close>.
\<close>

theorem C8_delivered_addresses_round_robin:
  "snd (resolutionSettled ipv6Supported (Inr addressList) txtOutcome r) =
     (let prt = (case port r of Some p \<Rightarrow> p | None \<Rightarrow> ''null'');
          A = ip4Addresses prt addressList;
          B = ip6Addresses ipv6Supported prt addressList
      in if A = [] \<and> B = [] then [CallListener (onError (defaultResolutionError r))]
         else [CallListener (onSuccessfulResolution (round_robin A B)
                               (fst (serviceConfigOf txtOutcome)) (snd (serviceConfigOf txtOutcome)))])
   \<and> ip6Addresses False prt' addressList = []
   \<and> ip6Addresses True prt' addressList
       = map (\<lambda>addr. ''['' @ address addr @ '']:'' @ prt')
             (filter (\<lambda>addr. family addr = 6) addressList)
   \<and> mergeArrays [[a1, a2], [b1]] = [a1, b1, a2]"
proof -
  have "mergeArrays [[a1, a2], [b1]] = [a1, b1, a2]"
    by (simp add: mergeArrays_round_robin)
  moreover have "ip6Addresses False prt' addressList = []"
    by (simp add: ip6Addresses_def)
  moreover have "ip6Addresses True prt' addressList
       = map (\<lambda>addr. ''['' @ address addr @ '']:'' @ prt')
             (filter (\<lambda>addr. family addr = 6) addressList)"
    by (simp add: ip6Addresses_def)
  moreover have "snd (resolutionSettled ipv6Supported (Inr addressList) txtOutcome r) =
     (let prt = (case port r of Some p \<Rightarrow> p | None \<Rightarrow> ''null'');
          A = ip4Addresses prt addressList;
          B = ip6Addresses ipv6Supported prt addressList
      in if A = [] \<and> B = [] then [CallListener (onError (defaultResolutionError r))]
         else [CallListener (onSuccessfulResolution (round_robin A B)
                               (fst (serviceConfigOf txtOutcome)) (snd (serviceConfigOf txtOutcome)))])"
    by (simp add: resolutionSettled_def allAddresses_def mergeArrays_round_robin
        round_robin_eq_Nil Let_def split: prod.splits)
  ultimately show ?thesis by blast
qed

theorem C8_delivered_addresses_round_robin_witness:
  "snd (resolutionSettled True
          (Inr [\<lparr>address = ''10.0.0.1'', family = 4\<rparr>,
                \<lparr>address = ''10.0.0.2'', family = 4\<rparr>,
                \<lparr>address = ''::1'', family = 6\<rparr>])
          (TxtSelected None)
          \<lparr>target = ''dns:a.b'', ipResult = None, dnsHostname = Some ''a.b'',
           port = Some ''443'', percentage = 0,
           defaultResolutionError = \<lparr>code = UNAVAILABLE, details = [], metadata = []\<rparr>,
           pendingResultPromise = True\<rparr>)
   = [CallListener (onSuccessfulResolution
                      [''10.0.0.1:443'', ''[::1]:443'', ''10.0.0.2:443''] None None)]"
  using C8_delivered_addresses_round_robin
    [where ipv6Supported = True
       and addressList = "[\<lparr>address = ''10.0.0.1'', family = 4\<rparr>,
                \<lparr>address = ''10.0.0.2'', family = 4\<rparr>,
                \<lparr>address = ''::1'', family = 6\<rparr>]"
       and txtOutcome = "TxtSelected None"
       and r = "\<lparr>target = ''dns:a.b'', ipResult = None, dnsHostname = Some ''a.b'',
           port = Some ''443'', percentage = 0,
           defaultResolutionError = \<lparr>code = UNAVAILABLE, details = [], metadata = []\<rparr>,
           pendingResultPromise = True\<rparr>", THEN conjunct1]
  by (simp add: ip4Addresses_def ip6Addresses_def serviceConfigOf_def Let_def)


section \<open>Properties of the subchannel state machine\<close>

lemma cs_emit [simp]: "connectivityState (emit es s) = connectivityState s"
  by (simp add: emit_def)

lemma cs_close_session [simp]: "connectivityState (close_session s) = connectivityState s"
  by (simp add: close_session_def split: option.splits)

lemma cs_open_session [simp]: "connectivityState (open_session a n s) = connectivityState s"
  by (simp add: open_session_def Let_def)

lemma cs_startConnectingInternal [simp]:
  "connectivityState (fst (startConnectingInternal s)) = connectivityState s"
  by (simp add: startConnectingInternal_def split: option.splits completion.splits)

lemma cs_enter [simp]: "connectivityState (fst (enter n s)) = connectivityState s"
  by (cases n)
     (auto simp: stopBackoff_def startBackoff_def stopKeepalivePings_def Let_def
           split: option.splits prod.splits completion.splits
           dest: arg_cong [where f = "\<lambda>p. connectivityState (fst p)"])

lemma cs_transitionToState:
  "connectivityState (fst (transitionToState olds new s)) =
     (if connectivityState s \<in> set olds then new else connectivityState s)"
proof (cases "connectivityState s \<in> set olds")
  case False
  then show ?thesis by (simp add: transitionToState_def)
next
  case True
  obtain s1 r where e: "enter new (s\<lparr>connectivityState := new\<rparr>) = (s1, r)"
    by (cases "enter new (s\<lparr>connectivityState := new\<rparr>)")
  have "connectivityState s1 = new"
    using cs_enter [of new "s\<lparr>connectivityState := new\<rparr>"] e by simp
  then show ?thesis
    using True e by (cases r) (simp_all add: transitionToState_def)
qed

lemma fst_discard [simp]: "fst (discard r) = fst r"
  by (cases r) (simp add: discard_def split: completion.splits)

lemma cs_onBackoffTimeout:
  "connectivityState (fst (onBackoffTimeout s)) =
     (if connectivityState s \<in> {TRANSIENT_FAILURE, CONNECTING}
      then (if continueConnecting s then CONNECTING else IDLE) else connectivityState s)"
  by (simp add: onBackoffTimeout_def cs_transitionToState)

lemma cs_onSessionClose:
  "connectivityState (fst (onSessionClose sid s)) =
     (if session s = Some sid then
        (if connectivityState s = CONNECTING then TRANSIENT_FAILURE
         else if connectivityState s = READY then IDLE else connectivityState s)
      else connectivityState s)"
proof (cases "session s = Some sid")
  case False
  then show ?thesis by (simp add: onSessionClose_def)
next
  case True
  obtain s1 r where first: "transitionToState [CONNECTING] TRANSIENT_FAILURE s = (s1, r)"
    by (cases "transitionToState [CONNECTING] TRANSIENT_FAILURE s")
  have s1: "connectivityState s1 =
      (if connectivityState s = CONNECTING then TRANSIENT_FAILURE else connectivityState s)"
    using cs_transitionToState [of "[CONNECTING]" TRANSIENT_FAILURE s] first by simp
  show ?thesis
  proof (cases r)
    case (Throws e)
    have "connectivityState s \<noteq> CONNECTING \<Longrightarrow> r = Returns False"
      using first by (simp add: transitionToState_def)
    moreover have "r \<noteq> Throws e" if "connectivityState s = CONNECTING"
      using first that
      by (auto simp: transitionToState_def Let_def split: prod.splits completion.splits)
    ultimately show ?thesis using Throws by auto
  next
    case (Returns b)
    then show ?thesis
      using True first s1 by (simp add: onSessionClose_def cs_transitionToState)
  qed
qed

lemma cs_onSessionGoaway:
  "connectivityState (fst (onSessionGoaway sid ec tmp s)) =
     (if session s = Some sid \<and> connectivityState s \<in> {CONNECTING, READY} then IDLE
      else connectivityState s)"
  by (simp add: onSessionGoaway_def cs_transitionToState Let_def)

lemma cs_checkBothRefcounts:
  "connectivityState (fst (checkBothRefcounts s)) =
     (if callRefcount s = 0 \<and> refcount s = 0 \<and> connectivityState s \<in> {CONNECTING, IDLE, READY}
      then TRANSIENT_FAILURE else connectivityState s)"
  by (simp add: checkBothRefcounts_def cs_transitionToState)

lemma cs_startConnecting:
  "connectivityState (fst (startConnecting s)) =
     (if connectivityState s = IDLE then CONNECTING else connectivityState s)"
  using cs_transitionToState [of "[IDLE]" CONNECTING s]
  by (auto simp: startConnecting_def split: prod.splits completion.splits)

lemma cs_callRef: "connectivityState (fst (callRef s)) = connectivityState s"
  by (auto simp: callRef_def startKeepalivePings_def sendPing_def Let_def
      split: option.splits prod.splits completion.splits)

lemma cs_callUnref:
  "connectivityState (fst (callUnref s)) =
     (if callRefcount s = 1 \<and> refcount s = 0 \<and> connectivityState s \<in> {CONNECTING, IDLE, READY}
      then TRANSIENT_FAILURE else connectivityState s)"
  by (auto simp: callUnref_def cs_checkBothRefcounts stopKeepalivePings_def emit_def Let_def
      split: option.splits)

lemma cs_unref:
  "connectivityState (fst (unref s)) =
     (if callRefcount s = 0 \<and> refcount s = 1 \<and> connectivityState s \<in> {CONNECTING, IDLE, READY}
      then TRANSIENT_FAILURE else connectivityState s)"
  by (auto simp: unref_def cs_checkBothRefcounts)

lemma cs_unrefIfOneRef:
  "connectivityState (fst (unrefIfOneRef s)) =
     (if callRefcount s = 0 \<and> refcount s = 1 \<and> connectivityState s \<in> {CONNECTING, IDLE, READY}
      then TRANSIENT_FAILURE else connectivityState s)"
  using cs_unref [of s]
  by (auto simp: unrefIfOneRef_def split: prod.splits completion.splits)

lemma cs_perform:
  "connectivityState (perform op s) \<noteq> connectivityState s \<Longrightarrow>
     (connectivityState s, connectivityState (perform op s)) \<in> set (transitions_of op)"
  by (cases op; cases "connectivityState s")
     (auto simp: cs_startConnecting cs_onSessionClose cs_onSessionGoaway cs_onBackoffTimeout
        cs_callRef cs_callUnref cs_unref cs_unrefIfOneRef onSessionConnect_def
        onKeepaliveTimeout_def resetBackoff_def onSessionError_def ref_def
        cs_transitionToState split: if_splits)


lemma refs_emit [simp]:
  "callRefcount (emit es s) = callRefcount s" "refcount (emit es s) = refcount s"
  by (simp_all add: emit_def)

lemma refs_close_session [simp]:
  "callRefcount (close_session s) = callRefcount s" "refcount (close_session s) = refcount s"
  by (simp_all add: close_session_def split: option.splits)

lemma refs_open_session [simp]:
  "callRefcount (open_session a n s) = callRefcount s"
  "refcount (open_session a n s) = refcount s"
  by (simp_all add: open_session_def Let_def)

lemma refs_startConnectingInternal [simp]:
  "callRefcount (fst (startConnectingInternal s)) = callRefcount s"
  "refcount (fst (startConnectingInternal s)) = refcount s"
  by (simp_all add: startConnectingInternal_def split: option.splits completion.splits)

lemma refs_enter [simp]:
  "callRefcount (fst (enter n s)) = callRefcount s" "refcount (fst (enter n s)) = refcount s"
  by (cases n;
      auto simp: stopBackoff_def startBackoff_def stopKeepalivePings_def Let_def
           split: option.splits prod.splits completion.splits
           dest: arg_cong [where f = "\<lambda>p. callRefcount (fst p)"]
                 arg_cong [where f = "\<lambda>p. refcount (fst p)"])+

lemma refs_transitionToState [simp]:
  "callRefcount (fst (transitionToState olds new s)) = callRefcount s"
  "refcount (fst (transitionToState olds new s)) = refcount s"
proof -
  obtain s1 r where e: "enter new (s\<lparr>connectivityState := new\<rparr>) = (s1, r)"
    by (cases "enter new (s\<lparr>connectivityState := new\<rparr>)")
  have "callRefcount s1 = callRefcount s" "refcount s1 = refcount s"
    using refs_enter [of new "s\<lparr>connectivityState := new\<rparr>"] e by simp_all
  then show "callRefcount (fst (transitionToState olds new s)) = callRefcount s"
    "refcount (fst (transitionToState olds new s)) = refcount s"
    using e by (cases r; simp add: transitionToState_def)+
qed

lemma refs_checkBothRefcounts [simp]:
  "callRefcount (fst (checkBothRefcounts s)) = callRefcount s"
  "refcount (fst (checkBothRefcounts s)) = refcount s"
  by (simp_all add: checkBothRefcounts_def)

lemma refs_callUnref:
  "callRefcount (fst (callUnref s)) = callRefcount s - 1"
  "refcount (fst (callUnref s)) = refcount s"
  by (auto simp: callUnref_def stopKeepalivePings_def Let_def split: option.splits)

lemma refs_unref:
  "callRefcount (fst (unref s)) = callRefcount s"
  "refcount (fst (unref s)) = refcount s - 1"
  by (simp_all add: unref_def)

lemma refs_unrefIfOneRef:
  "callRefcount (fst (unrefIfOneRef s)) = callRefcount s"
  "refcount (fst (unrefIfOneRef s)) = (if refcount s = 1 then 0 else refcount s)"
  using refs_unref [of s]
  by (auto simp: unrefIfOneRef_def split: prod.splits completion.splits)

lemma shutdown_only_at_zero:
  "op \<in> {CallUnref, Unref, UnrefIfOneRef} \<Longrightarrow>
   connectivityState (perform op s) \<noteq> connectivityState s \<Longrightarrow>
   callRefcount (perform op s) = 0 \<and> refcount (perform op s) = 0"
  by (auto simp: cs_callUnref cs_unref cs_unrefIfOneRef refs_callUnref refs_unref
      refs_unrefIfOneRef split: if_splits)

lemma transitions_of_subset:
  "set (transitions_of op) \<subseteq> set table_4_3 \<union> {(CONNECTING, IDLE)}"
  by (cases op) (simp_all add: table_4_3_def)

lemma transitionToState_outside:
  "connectivityState s \<notin> set oldStates \<Longrightarrow> transitionToState oldStates newState s = (s, Returns False)"
  by (simp add: transitionToState_def)

subsection \<open>C1: the transitions of a subchannel\<close>

text \<open>
  C1, as stated, fails for a \<open>goaway\<close> that arrives while the subchannel is connecting:
  a fresh subchannel that has started connecting is in CONNECTING, the \<open>goaway\<close> of
  its session moves it to IDLE, and the table of section 4.3 has no transition from
  CONNECTING to IDLE.
\<close>

theorem C1_goaway_while_connecting_counterexample:
  "connectivityState (perform StartConnecting
      (Subchannel_constructor ''dns:a.b'' (Returns ''a.b'') ''10.0.0.1:443'' False None None None)) = CONNECTING
   \<and> connectivityState (perform (SessionGoawayEvent 0 0 False) (perform StartConnecting
      (Subchannel_constructor ''dns:a.b'' (Returns ''a.b'') ''10.0.0.1:443'' False None None None))) = IDLE
   \<and> (CONNECTING, IDLE) \<notin> set table_4_3"
  by (simp add: Subchannel_constructor_def startConnecting_def transitionToState_def
      startBackoff_def startConnectingInternal_def open_session_def emit_def Let_def
      onSessionGoaway_def discard_def NGHTTP2_ENHANCE_YOUR_CALM_def stopBackoff_def
      close_session_def stopKeepalivePings_def table_4_3_def)

text \<open>
  C1, amended: whenever an operation changes the state of a subchannel from \<open>src\<close> to
  \<open>dst\<close>, the pair is one that the operation can make: IDLE to CONNECTING on
  \<open>startConnecting\<close>; CONNECTING to READY on the \<open>connect\<close> event; CONNECTING to
  TRANSIENT_FAILURE or READY to IDLE on the \<open>close\<close> event; CONNECTING to IDLE or READY
  to IDLE on \<open>goaway\<close>; TRANSIENT_FAILURE to IDLE, TRANSIENT_FAILURE to CONNECTING or
  CONNECTING to IDLE on backoff expiry; READY to IDLE on keepalive timeout;
  TRANSIENT_FAILURE to CONNECTING on \<open>resetBackoff\<close>; CONNECTING, IDLE or READY to
  TRANSIENT_FAILURE when an unref leaves both refcounts at zero. Each of these pairs is in
  the table of section 4.3 or is CONNECTING to IDLE. A call of \<open>transitionToState\<close>
  whose set of source states does not hold the current state returns false and leaves the
  subchannel as it is.
\<close>

theorem C1_transitions_permitted:
  "(connectivityState (perform op s) \<noteq> connectivityState s \<longrightarrow>
      (connectivityState s, connectivityState (perform op s)) \<in> set (transitions_of op))
   \<and> set (transitions_of op) \<subseteq> set table_4_3 \<union> {(CONNECTING, IDLE)}
   \<and> (op \<in> {CallUnref, Unref, UnrefIfOneRef}
        \<and> connectivityState (perform op s) \<noteq> connectivityState s \<longrightarrow>
      callRefcount (perform op s) = 0 \<and> refcount (perform op s) = 0)
   \<and> (connectivityState s \<notin> set oldStates \<longrightarrow>
      transitionToState oldStates newState s = (s, Returns False))"
  using cs_perform [of op s] shutdown_only_at_zero [of op s] transitions_of_subset [of op]
    transitionToState_outside [of s oldStates newState]
  by blast

theorem C1_transitions_permitted_witness:
  "connectivityState (perform Unref ((Subchannel_constructor ''dns:a.b'' (Returns ''a.b'') ''10.0.0.1:443'' False
        None None None)\<lparr>refcount := 1\<rparr>))
     \<noteq> connectivityState ((Subchannel_constructor ''dns:a.b'' (Returns ''a.b'') ''10.0.0.1:443'' False
        None None None)\<lparr>refcount := 1\<rparr>)
   \<and> Unref \<in> {CallUnref, Unref, UnrefIfOneRef}
   \<and> connectivityState ((Subchannel_constructor ''dns:a.b'' (Returns ''a.b'') ''10.0.0.1:443'' False
        None None None)\<lparr>refcount := 1\<rparr>) \<notin> set [READY]
   \<and> (connectivityState ((Subchannel_constructor ''dns:a.b'' (Returns ''a.b'') ''10.0.0.1:443'' False
        None None None)\<lparr>refcount := 1\<rparr>),
       connectivityState (perform Unref ((Subchannel_constructor ''dns:a.b'' (Returns ''a.b'') ''10.0.0.1:443''
        False None None None)\<lparr>refcount := 1\<rparr>))) \<in> set (transitions_of Unref)
   \<and> callRefcount (perform Unref ((Subchannel_constructor ''dns:a.b'' (Returns ''a.b'') ''10.0.0.1:443'' False
        None None None)\<lparr>refcount := 1\<rparr>)) = 0
   \<and> refcount (perform Unref ((Subchannel_constructor ''dns:a.b'' (Returns ''a.b'') ''10.0.0.1:443'' False
        None None None)\<lparr>refcount := 1\<rparr>)) = 0
   \<and> transitionToState [READY] IDLE ((Subchannel_constructor ''dns:a.b'' (Returns ''a.b'') ''10.0.0.1:443'' False
        None None None)\<lparr>refcount := 1\<rparr>)
      = ((Subchannel_constructor ''dns:a.b'' (Returns ''a.b'') ''10.0.0.1:443'' False
        None None None)\<lparr>refcount := 1\<rparr>, Returns False)"
proof -
  let ?s = "(Subchannel_constructor ''dns:a.b'' (Returns ''a.b'') ''10.0.0.1:443'' False None None None)
              \<lparr>refcount := 1\<rparr>"
  have changed: "connectivityState (perform Unref ?s) \<noteq> connectivityState ?s"
    by (simp add: Subchannel_constructor_def cs_unref)
  have outside: "connectivityState ?s \<notin> set [READY]"
    by (simp add: Subchannel_constructor_def)
  show ?thesis
    using C1_transitions_permitted [of Unref ?s "[READY]" IDLE] changed outside
    by simp
qed


section \<open>Properties of the resolving load balancer\<close>

lemma lbs_rlb_call [simp]:
  "innerLoadBalancer (rlb_call es r) = innerLoadBalancer r"
  "pendingReplacementLoadBalancer (rlb_call es r) = pendingReplacementLoadBalancer r"
  "previousServiceConfig (rlb_call es r) = previousServiceConfig r"
  by (simp_all add: rlb_call_def)

lemma lbs_rlb_updateState [simp]:
  "innerLoadBalancer (rlb_updateState st p r) = innerLoadBalancer r"
  "pendingReplacementLoadBalancer (rlb_updateState st p r) = pendingReplacementLoadBalancer r"
  "previousServiceConfig (rlb_updateState st p r) = previousServiceConfig r"
  by (simp_all add: rlb_updateState_def)

lemma lbs_rlb_handleResolutionFailure [simp]:
  "innerLoadBalancer (rlb_handleResolutionFailure e r) = innerLoadBalancer r"
  "pendingReplacementLoadBalancer (rlb_handleResolutionFailure e r)
     = pendingReplacementLoadBalancer r"
  "previousServiceConfig (rlb_handleResolutionFailure e r) = previousServiceConfig r"
  by (simp_all add: rlb_handleResolutionFailure_def Let_def)

lemma lbs_rlb_updateResolution [simp]:
  "innerLoadBalancer (rlb_updateResolution r) = innerLoadBalancer r"
  "pendingReplacementLoadBalancer (rlb_updateResolution r) = pendingReplacementLoadBalancer r"
  by (simp_all add: rlb_updateResolution_def Let_def)

lemma lbs_rlb_workingServiceConfig [simp]:
  "innerLoadBalancer (snd (rlb_workingServiceConfig sc err r)) = innerLoadBalancer r"
  "pendingReplacementLoadBalancer (snd (rlb_workingServiceConfig sc err r))
     = pendingReplacementLoadBalancer r"
  by (simp_all add: rlb_workingServiceConfig_def split: option.splits)

lemma inv_rlb_applyLoadBalancer:
  "rlb_invariant r \<Longrightarrow> rlb_invariant (fst (rlb_applyLoadBalancer reg name addrs cfg r))"
  by (auto simp: rlb_invariant_def rlb_applyLoadBalancer_def Let_def split: option.splits)

lemma inv_rlb_onSuccessfulResolution:
  assumes "rlb_invariant r"
  shows "rlb_invariant (fst (rlb_onSuccessfulResolution reg addrs sc err r))"
proof -
  obtain w r1 where w: "rlb_workingServiceConfig sc err r = (w, r1)"
    by (cases "rlb_workingServiceConfig sc err r")
  have r1: "rlb_invariant r1"
    using assms lbs_rlb_workingServiceConfig [of sc err r] w by (simp add: rlb_invariant_def)
  show ?thesis
  proof (cases "rlb_chooseLoadBalancer reg w")
    case None
    then show ?thesis
      using r1 w by (simp add: rlb_onSuccessfulResolution_def rlb_invariant_def)
  next
    case (Some choice)
    then show ?thesis
      using r1 w inv_rlb_applyLoadBalancer [of r1]
      by (cases choice) (simp add: rlb_onSuccessfulResolution_def)
  qed
qed

lemma inv_rlb_switchOver:
  "rlb_invariant r \<Longrightarrow> rlb_invariant (fst (rlb_switchOverReplacementBalancer r))"
  by (auto simp: rlb_invariant_def rlb_switchOverReplacementBalancer_def Let_def
      split: option.splits)

lemma inv_rlb_innerUpdateState:
  assumes "rlb_invariant r"
  shows "rlb_invariant (fst (rlb_innerUpdateState st p r))"
proof -
  let ?r1 = "r\<lparr>innerBalancerState := st,
               innerBalancerPicker := (if st = IDLE then QueuePicker else p)\<rparr>"
  have r1: "rlb_invariant ?r1"
    using assms by (simp add: rlb_invariant_def)
  show ?thesis
  proof (cases "st \<noteq> READY \<and> pendingReplacementLoadBalancer r \<noteq> None")
    case True
    then show ?thesis
      using inv_rlb_switchOver [OF r1] by (simp add: rlb_innerUpdateState_def Let_def)
  next
    case False
    then show ?thesis
      using assms
      by (auto simp: rlb_innerUpdateState_def rlb_invariant_def Let_def split: option.splits)
  qed
qed

lemma inv_rlb_replacementUpdateState:
  assumes "rlb_invariant r"
  shows "rlb_invariant (fst (rlb_replacementUpdateState st p r))"
proof -
  let ?r1 = "r\<lparr>replacementBalancerState := st,
               replacementBalancerPicker := (if st = IDLE then QueuePicker else p)\<rparr>"
  have r1: "rlb_invariant ?r1"
    using assms by (simp add: rlb_invariant_def)
  show ?thesis
  proof (cases "st = READY")
    case True
    then show ?thesis
      using inv_rlb_switchOver [OF r1] by (simp add: rlb_replacementUpdateState_def Let_def)
  next
    case False
    then show ?thesis
      using assms
      by (auto simp: rlb_replacementUpdateState_def rlb_invariant_def Let_def
          split: option.splits)
  qed
qed

lemma inv_rlb_requestReresolution:
  "rlb_invariant r \<Longrightarrow> rlb_invariant (rlb_requestReresolution r)"
  by (simp add: rlb_invariant_def rlb_requestReresolution_def)

lemma inv_rlb_onBackoffTimeout:
  "rlb_invariant r \<Longrightarrow> rlb_invariant (rlb_onBackoffTimeout r)"
  by (simp add: rlb_invariant_def rlb_onBackoffTimeout_def Let_def)

lemma inv_rlb_exitIdle: "rlb_invariant r \<Longrightarrow> rlb_invariant (rlb_exitIdle r)"
  by (auto simp: rlb_invariant_def rlb_exitIdle_def Let_def split: option.splits)

lemma inv_rlb_resetBackoff: "rlb_invariant r \<Longrightarrow> rlb_invariant (rlb_resetBackoff r)"
  by (auto simp: rlb_invariant_def rlb_resetBackoff_def Let_def split: option.splits)

lemma inv_rlb_destroy: "rlb_invariant (rlb_destroy r)"
  by (auto simp: rlb_invariant_def rlb_destroy_def Let_def split: option.splits)

lemma inv_rlb_constructor: "rlb_invariant (rlb_constructor d)"
  by (simp add: rlb_invariant_def rlb_constructor_def)

lemma inv_rlb_perform: "rlb_invariant r \<Longrightarrow> rlb_invariant (rlb_perform reg op r)"
  by (cases op)
     (simp_all add: inv_rlb_onSuccessfulResolution inv_rlb_innerUpdateState
        inv_rlb_replacementUpdateState inv_rlb_requestReresolution inv_rlb_onBackoffTimeout
        inv_rlb_exitIdle inv_rlb_resetBackoff inv_rlb_destroy inv_rlb_switchOver
        rlb_onError_def rlb_innerRequestReresolution_def rlb_replacementRequestReresolution_def
        rlb_updateAddressList_def, simp_all add: rlb_invariant_def)

lemma inv_rlb_run: "rlb_invariant r \<Longrightarrow> rlb_invariant (rlb_run reg ops r)"
  by (induction ops arbitrary: r) (simp_all add: inv_rlb_perform)

lemma previousServiceConfig_applyLoadBalancer [simp]:
  "previousServiceConfig (fst (rlb_applyLoadBalancer reg name addrs cfg r))
     = previousServiceConfig r"
  by (auto simp: rlb_applyLoadBalancer_def Let_def split: option.splits)

lemma handleResolutionFailure_effects:
  "rlb_handleResolutionFailure error r =
     r\<lparr>currentState :=
         (if innerLoadBalancer r = None \<or> innerBalancerState r = IDLE
          then TRANSIENT_FAILURE else currentState r),
       backoffRunning := True,
       calls :=
         calls r
         @ (if innerLoadBalancer r = None \<or> innerBalancerState r = IDLE
            then [ChannelUpdateState TRANSIENT_FAILURE (UnavailablePicker (Some error))] else [])
         @ [RlbBackoffRunOnce]\<rparr>"
  by (simp add: rlb_handleResolutionFailure_def rlb_updateState_def rlb_call_def Let_def)

lemma previousServiceConfig_onSuccessfulResolution:
  "previousServiceConfig (fst (rlb_onSuccessfulResolution reg addrs sc err r))
     = previousServiceConfig (snd (rlb_workingServiceConfig sc err r))"
  by (auto simp: rlb_onSuccessfulResolution_def rlb_handleResolutionFailure_def
      rlb_updateState_def rlb_call_def Let_def split: option.splits prod.splits)

subsection \<open>C2: the choice of the working service config\<close>

text \<open>
  C2, as stated, fails. Take a resolving load balancer whose default service config
  names the policy \<open>round_robin\<close>, and two successful resolutions: the first with
  neither a service config nor an error, the second without a service config and with an
  error. By the second step of the claim the first resolution clears
  \<open>previousServiceConfig\<close>, so by its third step the second resolution uses the default
  service config. The code stores \<open>null\<close> at the first resolution and, since \<open>null\<close> is
  not \<open>undefined\<close>, uses that \<open>null\<close> as the working config at the second: the policy
  then is \<open>pick_first\<close>, for which a replacement balancer is made beside the
  \<open>round_robin\<close> balancer of the first resolution.
\<close>

theorem C2_cleared_config_is_used_counterexample:
  "fst (rlb_workingServiceConfig None
          (Some \<lparr>code = UNAVAILABLE, details = ''TXT record is not valid'', metadata = []\<rparr>)
          (snd (rlb_workingServiceConfig None None
                  (rlb_constructor
                     (Some \<lparr>loadBalancingConfig = [[(''round_robin'', ''{}'')]],
                            methodConfig = []\<rparr>)))))
     = None
   \<and> fst (claimed_selection None
          (Some \<lparr>code = UNAVAILABLE, details = ''TXT record is not valid'', metadata = []\<rparr>)
          (Some \<lparr>loadBalancingConfig = [[(''round_robin'', ''{}'')]], methodConfig = []\<rparr>)
          (snd (claimed_selection None None
                  (Some \<lparr>loadBalancingConfig = [[(''round_robin'', ''{}'')]],
                         methodConfig = []\<rparr>)
                  None)))
     = UseConfig (Some \<lparr>loadBalancingConfig = [[(''round_robin'', ''{}'')]], methodConfig = []\<rparr>)
   \<and> calls (rlb_run (\<lambda>name. True)
          [SuccessfulResolution [''10.0.0.1:443''] None None,
           SuccessfulResolution [''10.0.0.1:443''] None
             (Some \<lparr>code = UNAVAILABLE, details = ''TXT record is not valid'', metadata = []\<rparr>)]
          (rlb_constructor
             (Some \<lparr>loadBalancingConfig = [[(''round_robin'', ''{}'')]], methodConfig = []\<rparr>)))
     = [ChannelUpdateState IDLE QueuePicker,
        LbUpdateAddressList 0 [''10.0.0.1:443''] (Some [(''round_robin'', ''{}'')]),
        LbUpdateAddressList 1 [''10.0.0.1:443''] None]
   \<and> map_option typeName (pendingReplacementLoadBalancer
          (rlb_run (\<lambda>name. True)
             [SuccessfulResolution [''10.0.0.1:443''] None None,
              SuccessfulResolution [''10.0.0.1:443''] None
                (Some \<lparr>code = UNAVAILABLE, details = ''TXT record is not valid'', metadata = []\<rparr>)]
             (rlb_constructor
                (Some \<lparr>loadBalancingConfig = [[(''round_robin'', ''{}'')]],
                       methodConfig = []\<rparr>))))
     = Some ''pick_first''"
  by (simp add: rlb_workingServiceConfig_def claimed_selection_def rlb_constructor_def
      rlb_updateState_def rlb_call_def rlb_onSuccessfulResolution_def rlb_chooseLoadBalancer_def
      rlb_applyLoadBalancer_def createLoadBalancer_def DEFAULT_LOAD_BALANCER_NAME_def
      Let_def)

text \<open>
  C2, amended: \<open>previousServiceConfig\<close> has three kinds of value: nothing stored yet
  (\<open>undefined\<close>), a stored \<open>null\<close> and a stored config. On a successful resolution with
  \<open>serviceConfig\<close> and \<open>serviceConfigError\<close> the working service config is chosen as
  follows. A non-null \<open>serviceConfig\<close> is used and stored as \<open>previousServiceConfig\<close>.
  Else, without an error, \<open>null\<close> is stored as \<open>previousServiceConfig\<close> and
  \<open>defaultServiceConfig\<close> is used. Else, if an earlier resolution has stored
  \<open>previousServiceConfig\<close>, the stored value is used, also when it is the \<open>null\<close> of
  the second step, which gives a \<open>null\<close> working config whatever the default is. If
  nothing has been stored yet, \<open>defaultServiceConfig\<close> is used if it is not \<open>null\<close>;
  otherwise the failure handler runs with \<open>serviceConfigError\<close>: it starts the backoff
  timer and, when there is no inner balancer or the inner balancer is \<open>IDLE\<close>, first
  reports \<open>TRANSIENT_FAILURE\<close> with an \<open>UnavailablePicker\<close> of that error to the
  channel. With an error and no service config \<open>previousServiceConfig\<close> is left as it
  was; so it is when the whole handler is done.
\<close>

theorem C2_working_service_config:
  "rlb_workingServiceConfig (Some config) serviceConfigError r
     = (Some config, r\<lparr>previousServiceConfig := Some (Some config)\<rparr>)
   \<and> rlb_workingServiceConfig None None r
     = (defaultServiceConfig r, r\<lparr>previousServiceConfig := Some None\<rparr>)
   \<and> rlb_workingServiceConfig None (Some error) (r\<lparr>previousServiceConfig := Some stored\<rparr>)
     = (stored, r\<lparr>previousServiceConfig := Some stored\<rparr>)
   \<and> rlb_workingServiceConfig None (Some error)
        (r\<lparr>previousServiceConfig := None, defaultServiceConfig := Some dflt\<rparr>)
     = (Some dflt, r\<lparr>previousServiceConfig := None, defaultServiceConfig := Some dflt\<rparr>)
   \<and> rlb_workingServiceConfig None (Some error)
        (r\<lparr>previousServiceConfig := None, defaultServiceConfig := None\<rparr>)
     = (None,
        r\<lparr>previousServiceConfig := None, defaultServiceConfig := None,
          currentState :=
            (if innerLoadBalancer r = None \<or> innerBalancerState r = IDLE
             then TRANSIENT_FAILURE else currentState r),
          backoffRunning := True,
          calls :=
            calls r
            @ (if innerLoadBalancer r = None \<or> innerBalancerState r = IDLE
               then [ChannelUpdateState TRANSIENT_FAILURE (UnavailablePicker (Some error))]
               else [])
            @ [RlbBackoffRunOnce]\<rparr>)
   \<and> previousServiceConfig
        (fst (rlb_onSuccessfulResolution registered addressList (Some config) serviceConfigError r))
     = Some (Some config)
   \<and> previousServiceConfig (fst (rlb_onSuccessfulResolution registered addressList None None r))
     = Some None
   \<and> previousServiceConfig
        (fst (rlb_onSuccessfulResolution registered addressList None (Some error) r))
     = previousServiceConfig r"
proof -
  have "previousServiceConfig (snd (rlb_workingServiceConfig None (Some error) r))
          = previousServiceConfig r"
    by (simp add: rlb_workingServiceConfig_def handleResolutionFailure_effects
        split: option.splits)
  then show ?thesis
    by (simp add: previousServiceConfig_onSuccessfulResolution)
       (simp add: rlb_workingServiceConfig_def handleResolutionFailure_effects)
qed

text \<open>
  After the failure handler has run in the last case, \<open>onSuccessfulResolution\<close> goes on
  with a \<open>null\<close> working config, unlike its other call of the failure handler, which
  is followed by \<open>return\<close>: without an inner balancer a \<open>pick_first\<close> balancer is made
  and given the address list.
\<close>

lemma failure_then_default_policy:
  assumes "previousServiceConfig r = None" "defaultServiceConfig r = None"
    "innerLoadBalancer r = None" "registered DEFAULT_LOAD_BALANCER_NAME"
  shows "rlb_onSuccessfulResolution registered addressList None (Some error) r
     = (r\<lparr>currentState := TRANSIENT_FAILURE, backoffRunning := True,
          innerLoadBalancer :=
            Some \<lparr>typeName = DEFAULT_LOAD_BALANCER_NAME, lbId = lbsCreated r,
                  helper = InnerHelper\<rparr>,
          lbsCreated := Suc (lbsCreated r),
          calls := calls r
            @ [ChannelUpdateState TRANSIENT_FAILURE (UnavailablePicker (Some error)),
               RlbBackoffRunOnce,
               LbUpdateAddressList (lbsCreated r) addressList None]\<rparr>,
        Returns ())"
  using assms
  by (simp add: rlb_onSuccessfulResolution_def rlb_workingServiceConfig_def
      handleResolutionFailure_effects rlb_chooseLoadBalancer_def rlb_applyLoadBalancer_def
      createLoadBalancer_def rlb_call_def Let_def)

subsection \<open>C5: no pending replacement without an inner balancer\<close>

text \<open>
  C5: the resolving load balancer satisfies, after its construction and after every
  operation on it (every resolution event, every state update of the inner or of the
  replacement balancer, \<open>switchOverReplacementBalancer\<close>, \<open>destroy\<close> and the other
  methods and callbacks), that \<open>pendingReplacementLoadBalancer\<close> is \<open>null\<close> whenever
  \<open>innerLoadBalancer\<close> is \<open>null\<close>. Every operation keeps the invariant, also when it
  throws, so it holds after every sequence of operations on a new balancer.
\<close>

theorem C5_inner_null_implies_pending_null:
  "rlb_invariant (rlb_constructor dflt)
   \<and> (rlb_invariant r \<longrightarrow> rlb_invariant (rlb_perform registered op r))
   \<and> rlb_invariant (rlb_run registered ops (rlb_constructor dflt))"
  using inv_rlb_constructor [of dflt] inv_rlb_perform [of r registered op]
    inv_rlb_run [OF inv_rlb_constructor, of registered ops dflt]
  by blast

theorem C5_inner_null_implies_pending_null_witness:
  "innerLoadBalancer
     (rlb_run (\<lambda>name. True)
        [SuccessfulResolution [''10.0.0.1:443''] None None,
         InnerUpdateState READY (PolicyPicker 0),
         SuccessfulResolution [''10.0.0.1:443'']
           (Some \<lparr>loadBalancingConfig = [[(''round_robin'', ''{}'')]], methodConfig = []\<rparr>) None,
         InnerUpdateState IDLE (PolicyPicker 1),
         InnerUpdateState IDLE (PolicyPicker 2)]
        (rlb_constructor None)) = None
   \<and> pendingReplacementLoadBalancer
     (rlb_run (\<lambda>name. True)
        [SuccessfulResolution [''10.0.0.1:443''] None None,
         InnerUpdateState READY (PolicyPicker 0),
         SuccessfulResolution [''10.0.0.1:443'']
           (Some \<lparr>loadBalancingConfig = [[(''round_robin'', ''{}'')]], methodConfig = []\<rparr>) None,
         InnerUpdateState IDLE (PolicyPicker 1),
         InnerUpdateState IDLE (PolicyPicker 2)]
        (rlb_constructor None)) = None"
proof -
  let ?r = "rlb_run (\<lambda>name. True)
        [SuccessfulResolution [''10.0.0.1:443''] None None,
         InnerUpdateState READY (PolicyPicker 0),
         SuccessfulResolution [''10.0.0.1:443'']
           (Some \<lparr>loadBalancingConfig = [[(''round_robin'', ''{}'')]], methodConfig = []\<rparr>) None,
         InnerUpdateState IDLE (PolicyPicker 1),
         InnerUpdateState IDLE (PolicyPicker 2)]
        (rlb_constructor None)"
  have inner: "innerLoadBalancer ?r = None"
    by (simp add: rlb_constructor_def rlb_onSuccessfulResolution_def
        rlb_workingServiceConfig_def rlb_chooseLoadBalancer_def rlb_applyLoadBalancer_def
        createLoadBalancer_def rlb_innerUpdateState_def rlb_updateState_def rlb_call_def
        rlb_switchOverReplacementBalancer_def DEFAULT_LOAD_BALANCER_NAME_def Let_def)
  have "rlb_invariant ?r"
    using C5_inner_null_implies_pending_null by blast
  with inner show ?thesis
    by (simp add: rlb_invariant_def)
qed

section \<open>Properties of the call stream\<close>

lemma endCall_ended: "finalStatus c \<noteq> None \<Longrightarrow> endCall status c = c"
  by (auto simp: endCall_def)

lemma finalStatus_endCall: "finalStatus (endCall status c) \<noteq> None"
  by (simp add: endCall_def call_emit_def Let_def split: option.splits)

lemma endCalls_ended: "finalStatus c \<noteq> None \<Longrightarrow> endCalls statuses c = c"
  by (induction statuses arbitrary: c) (simp_all add: endCall_ended)

lemma endCalls_Cons: "endCalls (status # statuses) c = endCall status c"
  by (simp add: endCalls_ended finalStatus_endCall)

lemma endCall_first:
  "finalStatus c = None \<Longrightarrow>
     finalStatus (endCall status c) = Some status
     \<and> events (endCall status c) =
         events c @ [NextTickEmitStatus status]
           @ (case subchannel c of
                Some sub \<Rightarrow> [SubchannelCallUnref sub, SubchannelRemoveDisconnectListener sub]
              | None \<Rightarrow> [])"
  by (simp add: endCall_def call_emit_def Let_def split: option.splits)

subsection \<open>C4: ending a call more than once\<close>

text \<open>
  C4: for every call stream and statuses \<open>s1, ..., sN\<close>, the calls \<open>endCall(s1)\<close>, ...,
  \<open>endCall(sN)\<close> leave the stream, with everything it has emitted and every call it has
  made on its subchannel, exactly as the single call \<open>endCall(s1)\<close> does, and every call
  after the first changes nothing. On a stream that has not ended, \<open>finalStatus\<close>
  becomes \<open>s1\<close> and what the whole sequence adds to the events is one deferred
  \<open>status\<close> event with \<open>s1\<close> followed by one call-unref and one removal of the
  disconnect listener on the subchannel the stream is attached to (a stream attached to no
  subchannel has no subchannel to call).
\<close>

theorem C4_endCall_idempotent:
  "endCalls (s1 # rest) c = endCall s1 c
   \<and> (finalStatus c = None \<longrightarrow>
        finalStatus (endCalls (s1 # rest) c) = Some s1
        \<and> events (endCalls (s1 # rest) c) =
            events c @ [NextTickEmitStatus s1]
              @ (case subchannel c of
                   Some sub \<Rightarrow> [SubchannelCallUnref sub, SubchannelRemoveDisconnectListener sub]
                 | None \<Rightarrow> []))
   \<and> endCall s (endCall s1 c) = endCall s1 c"
proof -
  have once: "endCalls (s1 # rest) c = endCall s1 c"
    by (rule endCalls_Cons)
  have later: "endCall s (endCall s1 c) = endCall s1 c"
    by (rule endCall_ended) (rule finalStatus_endCall)
  show ?thesis
    using once later endCall_first [of c s1] by simp
qed

theorem C4_endCall_idempotent_witness:
  "finalStatus (attachHttp2Stream 3 7 Http2CallStream_constructor) = None
   \<and> finalStatus
       (endCalls [\<lparr>code = CANCELLED, details = ''Cancelled'', metadata = []\<rparr>,
                  \<lparr>code = INTERNAL, details = [], metadata = []\<rparr>,
                  \<lparr>code = UNAVAILABLE, details = ''Connection dropped'', metadata = []\<rparr>]
          (attachHttp2Stream 3 7 Http2CallStream_constructor))
     = Some \<lparr>code = CANCELLED, details = ''Cancelled'', metadata = []\<rparr>
   \<and> events
       (endCalls [\<lparr>code = CANCELLED, details = ''Cancelled'', metadata = []\<rparr>,
                  \<lparr>code = INTERNAL, details = [], metadata = []\<rparr>,
                  \<lparr>code = UNAVAILABLE, details = ''Connection dropped'', metadata = []\<rparr>]
          (attachHttp2Stream 3 7 Http2CallStream_constructor))
     = [SubchannelAddDisconnectListener 7, SubchannelCallRef 7,
        NextTickEmitStatus \<lparr>code = CANCELLED, details = ''Cancelled'', metadata = []\<rparr>,
        SubchannelCallUnref 7, SubchannelRemoveDisconnectListener 7]"
proof -
  have fresh: "finalStatus (attachHttp2Stream 3 7 Http2CallStream_constructor) = None"
    by (simp add: attachHttp2Stream_def Http2CallStream_constructor_def call_emit_def)
  have attached:
    "subchannel (attachHttp2Stream 3 7 Http2CallStream_constructor) = Some 7"
    "events (attachHttp2Stream 3 7 Http2CallStream_constructor)
       = [SubchannelAddDisconnectListener 7, SubchannelCallRef 7]"
    by (simp_all add: attachHttp2Stream_def Http2CallStream_constructor_def call_emit_def)
  note first =
    C4_endCall_idempotent
      [of "\<lparr>code = CANCELLED, details = ''Cancelled'', metadata = []\<rparr>"
          "[\<lparr>code = INTERNAL, details = [], metadata = []\<rparr>,
            \<lparr>code = UNAVAILABLE, details = ''Connection dropped'', metadata = []\<rparr>]"
          "attachHttp2Stream 3 7 Http2CallStream_constructor"
          "\<lparr>code = INTERNAL, details = [], metadata = []\<rparr>",
       THEN conjunct2, THEN conjunct1, rule_format, OF fresh]
  show ?thesis
    using first fresh attached by (simp del: endCalls.simps)
qed

lemma mapped_onResponse: "mappedStatusCode (onResponse h e p c) = mapHttpStatus h"
  by (simp add: onResponse_def handleTrailers_def endCall_def call_emit_def Let_def
      split: sum.splits option.splits)

lemma mapHttpStatus_table:
  "mapHttpStatus (Some 400) = INTERNAL"
  "mapHttpStatus (Some 401) = UNAUTHENTICATED"
  "mapHttpStatus (Some 403) = PERMISSION_DENIED"
  "mapHttpStatus (Some 404) = UNIMPLEMENTED"
  "mapHttpStatus (Some 429) = UNAVAILABLE"
  "mapHttpStatus (Some 502) = UNAVAILABLE"
  "mapHttpStatus (Some 503) = UNAVAILABLE"
  "mapHttpStatus (Some 504) = UNAVAILABLE"
  "h \<notin> {Some 400, Some 401, Some 403, Some 404, Some 429, Some 502, Some 503, Some 504}
     \<Longrightarrow> mapHttpStatus h = UNKNOWN"
  by (simp_all add: mapHttpStatus_def)

lemma trailers_final:
  assumes "finalStatus c = None" "handlingHeaders c = None" "trailerRuns c = []"
    and "receiveTrailers \<lparr>code = mappedStatusCode c, details = [],
            metadata = (case parsed of Inr m \<Rightarrow> m | Inl e \<Rightarrow> new_Metadata)\<rparr> = Inr final"
  shows "finalStatus (trailersSettled (handlingTrailers (handleTrailers parsed c)) receiveTrailers
            (handleTrailers parsed c)) = Some final"
  using assms
  by (simp add: trailersSettled_def handleTrailers_def Let_def endCall_def call_emit_def
      split: option.splits)

lemma trailers_only_final:
  assumes "finalStatus c = None" "handlingHeaders c = None" "trailerRuns c = []"
    and "receiveTrailers \<lparr>code = mapHttpStatus h, details = [],
            metadata = (case parsed of Inr m \<Rightarrow> m | Inl e \<Rightarrow> new_Metadata)\<rparr> = Inr final"
  shows "finalStatus (trailersSettled (handlingTrailers (onResponse h True parsed c)) receiveTrailers
            (onResponse h True parsed c)) = Some final"
proof -
  let ?c1 = "c\<lparr>mappedStatusCode := mapHttpStatus h\<rparr>"
  have "onResponse h True parsed c = handleTrailers parsed ?c1"
    by (simp add: onResponse_def)
  then show ?thesis
    using trailers_final [of ?c1 receiveTrailers parsed final] assms by simp
qed

lemma response_then_trailers_final:
  assumes "finalStatus c = None" "trailerRuns c = []"
    and "receiveMetadata m = Inr finalMetadata"
    and "receiveTrailers \<lparr>code = mapHttpStatus h, details = [],
            metadata = (case parsed of Inr m \<Rightarrow> m | Inl e \<Rightarrow> new_Metadata)\<rparr> = Inr final"
  shows "finalStatus
           (trailersSettled
              (handlingTrailers
                 (handleTrailers parsed (headersSettled receiveMetadata (onResponse h False (Inr m) c))))
              receiveTrailers
              (handleTrailers parsed (headersSettled receiveMetadata (onResponse h False (Inr m) c))))
         = Some final"
proof -
  let ?c2 = "headersSettled receiveMetadata (onResponse h False (Inr m) c)"
  have "finalStatus ?c2 = None" "handlingHeaders ?c2 = None" "trailerRuns ?c2 = []"
    "mappedStatusCode ?c2 = mapHttpStatus h"
    using assms by (simp_all add: headersSettled_def onResponse_def call_emit_def)
  then show ?thesis
    using trailers_final [of ?c2 receiveTrailers parsed final] assms by simp
qed

lemma close_without_trailers_final:
  assumes "finalStatus c = None" "trailerRuns c = []"
    and "receiveMetadata m = Inr finalMetadata"
  shows "map_option code
           (finalStatus (closeContinued (onStreamClose rstCode
              (headersSettled receiveMetadata (onResponse h False (Inr m) c)))))
         = Some (fst (mapRstCode rstCode))"
  using assms
  by (simp add: closeContinued_def onStreamClose_def headersSettled_def onResponse_def
      call_emit_def endCall_def Let_def split: prod.splits option.splits)

subsection \<open>C9: the status code mapped from the HTTP status\<close>

text \<open>
  C9, as stated, fails when the stream closes without trailers: a response with
  \<open>:status\<close> 404 and without the end-of-stream flag, whose headers pass the filters,
  followed by the \<open>close\<close> of the stream with the reset code 0, ends the call with
  INTERNAL, although no \<open>grpc-status\<close> was received and 404 maps to UNIMPLEMENTED.
\<close>

theorem C9_close_without_trailers_counterexample:
  "mapHttpStatus (Some 404) = UNIMPLEMENTED
   \<and> map_option code
       (finalStatus
          (closeContinued (onStreamClose 0 (headersSettled Inr
             (onResponse (Some 404) False (Inr [])
                (attachHttp2Stream 0 0 Http2CallStream_constructor))))))
     = Some INTERNAL"
  by (simp add: mapHttpStatus_def closeContinued_def onStreamClose_def headersSettled_def
      onResponse_def attachHttp2Stream_def Http2CallStream_constructor_def call_emit_def
      endCall_def mapRstCode_def NGHTTP2_REFUSED_STREAM_def NGHTTP2_CANCEL_def
      NGHTTP2_ENHANCE_YOUR_CALM_def NGHTTP2_INADEQUATE_SECURITY_def new_Metadata_def Let_def)

text \<open>
  C9, amended: a response whose headers carry the HTTP status \<open>h\<close> sets the mapped
  status code to the mapping of \<open>h\<close>: 400 to INTERNAL, 401 to UNAUTHENTICATED, 403 to
  PERMISSION_DENIED, 404 to UNIMPLEMENTED, 429, 502, 503 and 504 to UNAVAILABLE and every
  other value to UNKNOWN. On a call that has not ended and has handled no trailers before,
  the final status is what the trailer filters make of the status with that code, so its
  code is the mapped one when no \<open>grpc-status\<close> makes the filters change it; this holds
  both when the response headers end the stream and when a \<open>trailers\<close> event follows
  headers that passed their filters. When the stream closes with no trailers handled, the
  code of the final status is the one of the reset code of the stream, not the mapped one.
\<close>

theorem C9_mapped_status_code:
  "mappedStatusCode (onResponse h endStream parsed c) = mapHttpStatus h
   \<and> mapHttpStatus (Some 400) = INTERNAL
   \<and> mapHttpStatus (Some 401) = UNAUTHENTICATED
   \<and> mapHttpStatus (Some 403) = PERMISSION_DENIED
   \<and> mapHttpStatus (Some 404) = UNIMPLEMENTED
   \<and> mapHttpStatus (Some 429) = UNAVAILABLE
   \<and> mapHttpStatus (Some 502) = UNAVAILABLE
   \<and> mapHttpStatus (Some 503) = UNAVAILABLE
   \<and> mapHttpStatus (Some 504) = UNAVAILABLE
   \<and> (h \<notin> {Some 400, Some 401, Some 403, Some 404, Some 429, Some 502, Some 503, Some 504}
        \<longrightarrow> mapHttpStatus h = UNKNOWN)
   \<and> (finalStatus c = None \<and> handlingHeaders c = None \<and> trailerRuns c = []
        \<and> receiveTrailers \<lparr>code = mapHttpStatus h, details = [],
              metadata = (case parsed of Inr m \<Rightarrow> m | Inl e \<Rightarrow> new_Metadata)\<rparr> = Inr final
        \<and> code final = mapHttpStatus h
        \<longrightarrow> map_option code
              (finalStatus
                 (trailersSettled (handlingTrailers (onResponse h True parsed c)) receiveTrailers
                    (onResponse h True parsed c)))
            = Some (mapHttpStatus h))
   \<and> (finalStatus c = None \<and> trailerRuns c = []
        \<and> receiveMetadata headerMetadata = Inr finalMetadata
        \<and> receiveTrailers \<lparr>code = mapHttpStatus h, details = [],
              metadata = (case parsed of Inr m \<Rightarrow> m | Inl e \<Rightarrow> new_Metadata)\<rparr> = Inr final
        \<and> code final = mapHttpStatus h
        \<longrightarrow> map_option code
              (finalStatus
                 (trailersSettled
                    (handlingTrailers
                       (handleTrailers parsed
                          (headersSettled receiveMetadata
                             (onResponse h False (Inr headerMetadata) c))))
                    receiveTrailers
                    (handleTrailers parsed
                       (headersSettled receiveMetadata
                          (onResponse h False (Inr headerMetadata) c)))))
            = Some (mapHttpStatus h))
   \<and> (finalStatus c = None \<and> trailerRuns c = []
        \<and> receiveMetadata headerMetadata = Inr finalMetadata
        \<longrightarrow> map_option code
              (finalStatus
                 (closeContinued (onStreamClose rstCode
                    (headersSettled receiveMetadata
                       (onResponse h False (Inr headerMetadata) c)))))
            = Some (fst (mapRstCode rstCode)))"
proof -
  have table:
    "mappedStatusCode (onResponse h endStream parsed c) = mapHttpStatus h
     \<and> mapHttpStatus (Some 400) = INTERNAL
     \<and> mapHttpStatus (Some 401) = UNAUTHENTICATED
     \<and> mapHttpStatus (Some 403) = PERMISSION_DENIED
     \<and> mapHttpStatus (Some 404) = UNIMPLEMENTED
     \<and> mapHttpStatus (Some 429) = UNAVAILABLE
     \<and> mapHttpStatus (Some 502) = UNAVAILABLE
     \<and> mapHttpStatus (Some 503) = UNAVAILABLE
     \<and> mapHttpStatus (Some 504) = UNAVAILABLE
     \<and> (h \<notin> {Some 400, Some 401, Some 403, Some 404, Some 429, Some 502, Some 503, Some 504}
          \<longrightarrow> mapHttpStatus h = UNKNOWN)"
    using mapped_onResponse [of h endStream parsed c] mapHttpStatus_table by blast
  have only:
    "finalStatus c = None \<and> handlingHeaders c = None \<and> trailerRuns c = []
        \<and> receiveTrailers \<lparr>code = mapHttpStatus h, details = [],
              metadata = (case parsed of Inr m \<Rightarrow> m | Inl e \<Rightarrow> new_Metadata)\<rparr> = Inr final
        \<and> code final = mapHttpStatus h
        \<longrightarrow> map_option code
              (finalStatus
                 (trailersSettled (handlingTrailers (onResponse h True parsed c)) receiveTrailers
                    (onResponse h True parsed c)))
            = Some (mapHttpStatus h)"
    using trailers_only_final [of c receiveTrailers h parsed final] by simp
  have after:
    "finalStatus c = None \<and> trailerRuns c = []
        \<and> receiveMetadata headerMetadata = Inr finalMetadata
        \<and> receiveTrailers \<lparr>code = mapHttpStatus h, details = [],
              metadata = (case parsed of Inr m \<Rightarrow> m | Inl e \<Rightarrow> new_Metadata)\<rparr> = Inr final
        \<and> code final = mapHttpStatus h
        \<longrightarrow> map_option code
              (finalStatus
                 (trailersSettled
                    (handlingTrailers
                       (handleTrailers parsed
                          (headersSettled receiveMetadata
                             (onResponse h False (Inr headerMetadata) c))))
                    receiveTrailers
                    (handleTrailers parsed
                       (headersSettled receiveMetadata
                          (onResponse h False (Inr headerMetadata) c)))))
            = Some (mapHttpStatus h)"
    using response_then_trailers_final
      [of c receiveMetadata headerMetadata finalMetadata receiveTrailers h parsed final]
    by simp
  have closed:
    "finalStatus c = None \<and> trailerRuns c = []
        \<and> receiveMetadata headerMetadata = Inr finalMetadata
        \<longrightarrow> map_option code
              (finalStatus
                 (closeContinued (onStreamClose rstCode
                    (headersSettled receiveMetadata
                       (onResponse h False (Inr headerMetadata) c)))))
            = Some (fst (mapRstCode rstCode))"
    using close_without_trailers_final
      [of c receiveMetadata headerMetadata finalMetadata rstCode h]
    by simp
  show ?thesis
    using table only after closed by (intro conjI) blast+
qed

theorem C9_mapped_status_code_witness:
  "finalStatus (attachHttp2Stream 0 0 Http2CallStream_constructor) = None
   \<and> map_option code
       (finalStatus
          (trailersSettled
             (handlingTrailers
                (onResponse (Some 404) True (Inr [])
                   (attachHttp2Stream 0 0 Http2CallStream_constructor)))
             Inr
             (onResponse (Some 404) True (Inr [])
                (attachHttp2Stream 0 0 Http2CallStream_constructor))))
     = Some UNIMPLEMENTED
   \<and> map_option code
       (finalStatus
          (trailersSettled
             (handlingTrailers
                (handleTrailers (Inr [])
                   (headersSettled Inr
                      (onResponse (Some 404) False (Inr [])
                         (attachHttp2Stream 0 0 Http2CallStream_constructor)))))
             Inr
             (handleTrailers (Inr [])
                (headersSettled Inr
                   (onResponse (Some 404) False (Inr [])
                      (attachHttp2Stream 0 0 Http2CallStream_constructor))))))
     = Some UNIMPLEMENTED
   \<and> map_option code
       (finalStatus
          (closeContinued (onStreamClose 8
             (headersSettled Inr
                (onResponse (Some 404) False (Inr [])
                   (attachHttp2Stream 0 0 Http2CallStream_constructor))))))
     = Some CANCELLED
   \<and> Some 200 \<notin> {Some 400, Some 401, Some 403, Some 404, Some 429, Some 502, Some 503,
                     Some (504::int)}
   \<and> mapHttpStatus (Some 200) = UNKNOWN"
proof -
  let ?c = "attachHttp2Stream 0 0 Http2CallStream_constructor"
  let ?final = "\<lparr>code = UNIMPLEMENTED, details = [], metadata = []\<rparr>"
  have fresh: "finalStatus ?c = None" "handlingHeaders ?c = None" "trailerRuns ?c = []"
    by (simp_all add: attachHttp2Stream_def Http2CallStream_constructor_def call_emit_def)
  have kept:
    "Inr \<lparr>code = mapHttpStatus (Some 404), details = [],
          metadata = (case Inr [] of Inr m \<Rightarrow> m | Inl (e::string) \<Rightarrow> new_Metadata)\<rparr>
       = (Inr ?final :: string + StatusObject)"
    "code ?final = mapHttpStatus (Some 404)"
    by (simp_all add: mapHttpStatus_def)
  have passed: "(Inr [] :: string + Metadata) = Inr []"
    by simp
  have other:
    "Some 200 \<notin> {Some 400, Some 401, Some 403, Some 404, Some 429, Some 502, Some 503,
                   Some (504::int)}"
    by simp
  note at_404 =
    C9_mapped_status_code
      [where h = "Some 404" and parsed = "Inr []" and c = ?c and receiveTrailers = Inr
         and final = ?final and receiveMetadata = Inr and headerMetadata = "[]"
         and finalMetadata = "[]" and rstCode = 8]
  note at_200 = C9_mapped_status_code [where h = "Some 200"]
  have "mapHttpStatus (Some 200) = UNKNOWN"
    using at_200 other by blast
  moreover have "fst (mapRstCode 8) = CANCELLED" "mapHttpStatus (Some 404) = UNIMPLEMENTED"
    by (simp_all add: mapRstCode_def NGHTTP2_REFUSED_STREAM_def NGHTTP2_CANCEL_def
        mapHttpStatus_def)
  ultimately show ?thesis
    using at_404 fresh kept passed other by simp
qed

section \<open>Properties of the channel\<close>

lemma tryPick_drop:
  "pickResultType (pick (currentPicker ch) md) = COMPLETE \<Longrightarrow>
   pick_subchannel (pick (currentPicker ch) md) = None \<Longrightarrow>
   tryPick pick run cs md ch =
     (ch\<lparr>outputs := outputs ch @ [CallCancelWithStatus cs UNAVAILABLE ''Request dropped by load balancing policy'']\<rparr>,
      Returns ())"
  by (simp add: tryPick_def channel_out_def Let_def)

lemma tryPick_not_ready:
  "pickResultType (pick (currentPicker ch) md) = COMPLETE \<Longrightarrow>
   pick_subchannel (pick (currentPicker ch) md) = Some sub \<Longrightarrow>
   sendMetadataResult run = Inr finalMetadata \<Longrightarrow>
   subchannelStateThen run \<noteq> READY \<Longrightarrow>
   tryPick pick run cs md ch =
     (ch\<lparr>outputs := outputs ch @ [CallCancelWithStatus cs UNAVAILABLE ''Connection dropped while starting call'']\<rparr>,
      Returns ())"
  by (simp add: tryPick_def channel_out_def Let_def)

lemma tryPick_queue:
  "pickResultType (pick (currentPicker ch) md) = QUEUE \<Longrightarrow>
   tryPick pick run cs md ch = (ch\<lparr>pickQueue := pickQueue ch @ [(cs, md)]\<rparr>, Returns ())"
  by (simp add: tryPick_def channel_out_def Let_def)

lemma tryPick_failure:
  "pickResultType (pick (currentPicker ch) md) = TRANSIENT_FAILURE_PICK \<Longrightarrow>
   pick_status (pick (currentPicker ch) md) = Some status \<Longrightarrow>
   \<not> waitForReady md \<Longrightarrow>
   tryPick pick run cs md ch =
     (ch\<lparr>outputs := outputs ch @ [CallCancelWithStatus cs (code status) (details status)]\<rparr>, Returns ())"
  by (simp add: tryPick_def channel_out_def Let_def)

lemma tryPick_failure_wait:
  "pickResultType (pick (currentPicker ch) md) = TRANSIENT_FAILURE_PICK \<Longrightarrow>
   waitForReady md \<Longrightarrow>
   tryPick pick run cs md ch = (ch\<lparr>pickQueue := pickQueue ch @ [(cs, md)]\<rparr>, Returns ())"
  by (simp add: tryPick_def channel_out_def Let_def)

subsection \<open>C3: the dispatch of a call on the result of the picker\<close>

text \<open>
  C3: \<open>tryPick\<close> dispatches a call on the result of the current picker; what the
  channel does to a call is the entry that \<open>tryPick\<close> adds to \<open>outputs\<close>. A COMPLETE
  result without a subchannel cancels the call with UNAVAILABLE and the details "Request
  dropped by load balancing policy". A COMPLETE result with a subchannel that is not READY
  when the outgoing metadata filters have produced the final metadata cancels it with
  UNAVAILABLE and "Connection dropped while starting call". A QUEUE result appends the call
  to \<open>pickQueue\<close>. A TRANSIENT_FAILURE result cancels the call with the code and the
  details of the status it carries, unless the metadata of the call has \<open>waitForReady\<close>,
  in which case the call is appended to \<open>pickQueue\<close>. In each case that is the only
  change of the channel, and \<open>tryPick\<close> returns.
\<close>

theorem C3_tryPick_dispatch:
  "(pickResultType (pick (currentPicker ch) callMetadata) = COMPLETE
      \<and> pick_subchannel (pick (currentPicker ch) callMetadata) = None
      \<longrightarrow> tryPick pick run callStream callMetadata ch =
            (ch\<lparr>outputs := outputs ch @ [CallCancelWithStatus callStream UNAVAILABLE
                            ''Request dropped by load balancing policy'']\<rparr>,
             Returns ()))
   \<and> (pickResultType (pick (currentPicker ch) callMetadata) = COMPLETE
      \<and> pick_subchannel (pick (currentPicker ch) callMetadata) = Some sub
      \<and> sendMetadataResult run = Inr finalMetadata
      \<and> subchannelStateThen run \<noteq> READY
      \<longrightarrow> tryPick pick run callStream callMetadata ch =
            (ch\<lparr>outputs := outputs ch @ [CallCancelWithStatus callStream UNAVAILABLE
                            ''Connection dropped while starting call'']\<rparr>,
             Returns ()))
   \<and> (pickResultType (pick (currentPicker ch) callMetadata) = QUEUE
      \<longrightarrow> tryPick pick run callStream callMetadata ch =
            (ch\<lparr>pickQueue := pickQueue ch @ [(callStream, callMetadata)]\<rparr>, Returns ()))
   \<and> (pickResultType (pick (currentPicker ch) callMetadata) = TRANSIENT_FAILURE_PICK
      \<and> pick_status (pick (currentPicker ch) callMetadata) = Some status
      \<and> \<not> waitForReady callMetadata
      \<longrightarrow> tryPick pick run callStream callMetadata ch =
            (ch\<lparr>outputs := outputs ch @ [CallCancelWithStatus callStream (code status)
                            (details status)]\<rparr>,
             Returns ()))
   \<and> (pickResultType (pick (currentPicker ch) callMetadata) = TRANSIENT_FAILURE_PICK
      \<and> waitForReady callMetadata
      \<longrightarrow> tryPick pick run callStream callMetadata ch =
            (ch\<lparr>pickQueue := pickQueue ch @ [(callStream, callMetadata)]\<rparr>, Returns ()))"
  using tryPick_drop [of pick ch callMetadata run callStream]
    tryPick_not_ready [of pick ch callMetadata sub run finalMetadata callStream]
    tryPick_queue [of pick ch callMetadata run callStream]
    tryPick_failure [of pick ch callMetadata status run callStream]
    tryPick_failure_wait [of pick ch callMetadata run callStream]
  by blast

theorem C3_tryPick_dispatch_witness:
  "tryPick (\<lambda>picker m. \<lparr>pickResultType = COMPLETE, pick_subchannel = None, pick_status = None\<rparr>)
      \<lparr>sendMetadataResult = Inr [], subchannelStateThen = READY, startCallStreamThrows = False\<rparr>
      1 \<lparr>entries = [], waitForReady = False\<rparr> Channel_constructor
     = (Channel_constructor\<lparr>outputs := [CallCancelWithStatus 1 UNAVAILABLE
                       ''Request dropped by load balancing policy'']\<rparr>,
        Returns ())
   \<and> tryPick (\<lambda>picker m. \<lparr>pickResultType = COMPLETE, pick_subchannel = Some 4, pick_status = None\<rparr>)
      \<lparr>sendMetadataResult = Inr [], subchannelStateThen = IDLE, startCallStreamThrows = False\<rparr>
      1 \<lparr>entries = [], waitForReady = False\<rparr> Channel_constructor
     = (Channel_constructor\<lparr>outputs := [CallCancelWithStatus 1 UNAVAILABLE
                       ''Connection dropped while starting call'']\<rparr>,
        Returns ())
   \<and> tryPick (\<lambda>picker m. \<lparr>pickResultType = QUEUE, pick_subchannel = None, pick_status = None\<rparr>)
      \<lparr>sendMetadataResult = Inr [], subchannelStateThen = READY, startCallStreamThrows = False\<rparr>
      1 \<lparr>entries = [], waitForReady = False\<rparr> Channel_constructor
     = (Channel_constructor\<lparr>pickQueue := [(1, \<lparr>entries = [], waitForReady = False\<rparr>)]\<rparr>,
        Returns ())
   \<and> tryPick (\<lambda>picker m. \<lparr>pickResultType = TRANSIENT_FAILURE_PICK, pick_subchannel = None,
                            pick_status = Some \<lparr>code = UNAVAILABLE, details = ''No connection'',
                                                 metadata = []\<rparr>\<rparr>)
      \<lparr>sendMetadataResult = Inr [], subchannelStateThen = READY, startCallStreamThrows = False\<rparr>
      1 \<lparr>entries = [], waitForReady = False\<rparr> Channel_constructor
     = (Channel_constructor\<lparr>outputs := [CallCancelWithStatus 1 UNAVAILABLE ''No connection'']\<rparr>,
        Returns ())
   \<and> tryPick (\<lambda>picker m. \<lparr>pickResultType = TRANSIENT_FAILURE_PICK, pick_subchannel = None,
                            pick_status = Some \<lparr>code = UNAVAILABLE, details = ''No connection'',
                                                 metadata = []\<rparr>\<rparr>)
      \<lparr>sendMetadataResult = Inr [], subchannelStateThen = READY, startCallStreamThrows = False\<rparr>
      1 \<lparr>entries = [], waitForReady = True\<rparr> Channel_constructor
     = (Channel_constructor\<lparr>pickQueue := [(1, \<lparr>entries = [], waitForReady = True\<rparr>)]\<rparr>,
        Returns ())"
proof -
  let ?run = "\<lambda>st. \<lparr>sendMetadataResult = Inr [], subchannelStateThen = st,
                     startCallStreamThrows = False\<rparr>"
  let ?failed = "\<lparr>code = UNAVAILABLE, details = ''No connection'', metadata = []\<rparr>"
  have queue: "pickQueue Channel_constructor = []" "outputs Channel_constructor = []"
    by (simp_all add: Channel_constructor_def)
  note dropped =
    C3_tryPick_dispatch
      [where pick = "\<lambda>picker m. \<lparr>pickResultType = COMPLETE, pick_subchannel = None,
                                   pick_status = None\<rparr>"
         and run = "?run READY" and callStream = 1
         and callMetadata = "\<lparr>entries = [], waitForReady = False\<rparr>"
         and ch = Channel_constructor, THEN conjunct1]
  note not_ready =
    C3_tryPick_dispatch
      [where pick = "\<lambda>picker m. \<lparr>pickResultType = COMPLETE, pick_subchannel = Some 4,
                                   pick_status = None\<rparr>"
         and run = "?run IDLE" and callStream = 1 and sub = 4 and finalMetadata = "[]"
         and callMetadata = "\<lparr>entries = [], waitForReady = False\<rparr>"
         and ch = Channel_constructor, THEN conjunct2, THEN conjunct1]
  note queued =
    C3_tryPick_dispatch
      [where pick = "\<lambda>picker m. \<lparr>pickResultType = QUEUE, pick_subchannel = None,
                                   pick_status = None\<rparr>"
         and run = "?run READY" and callStream = 1
         and callMetadata = "\<lparr>entries = [], waitForReady = False\<rparr>"
         and ch = Channel_constructor, THEN conjunct2, THEN conjunct2, THEN conjunct1]
  note failed =
    C3_tryPick_dispatch
      [where pick = "\<lambda>picker m. \<lparr>pickResultType = TRANSIENT_FAILURE_PICK,
                                   pick_subchannel = None, pick_status = Some ?failed\<rparr>"
         and run = "?run READY" and callStream = 1 and status = ?failed
         and callMetadata = "\<lparr>entries = [], waitForReady = False\<rparr>"
         and ch = Channel_constructor,
       THEN conjunct2, THEN conjunct2, THEN conjunct2, THEN conjunct1]
  note waiting =
    C3_tryPick_dispatch
      [where pick = "\<lambda>picker m. \<lparr>pickResultType = TRANSIENT_FAILURE_PICK,
                                   pick_subchannel = None, pick_status = Some ?failed\<rparr>"
         and run = "?run READY" and callStream = 1
         and callMetadata = "\<lparr>entries = [], waitForReady = True\<rparr>"
         and ch = Channel_constructor,
       THEN conjunct2, THEN conjunct2, THEN conjunct2, THEN conjunct2]
  show ?thesis
    using dropped not_ready queued failed waiting queue by simp
qed

lemma watch_past_deadline:
  "d \<le> now \<Longrightarrow>
   watchConnectivityState st (Some d) cb now ch =
     ch\<lparr>outputs := outputs ch @ [NextTickCallback cb deadline_message]\<rparr>"
  by (simp add: watchConnectivityState_def channel_out_def)

lemma remove_subset:
  "set (removeConnectivityStateWatcher wid ws) \<subseteq> set ws"
  using set_remove1_subset [of _ ws]
  by (auto simp: removeConnectivityStateWatcher_def split: option.splits)

lemma fire_remaining_subset:
  "set (fst (fireWatchers st copy live)) \<subseteq> set live"
proof (induction copy arbitrary: live)
  case Nil
  then show ?case by simp
next
  case (Cons w copy)
  show ?case
  proof (cases "st \<noteq> w_currentState w")
    case True
    have "set (fst (fireWatchers st copy (removeConnectivityStateWatcher (w_id w) live)))
            \<subseteq> set (removeConnectivityStateWatcher (w_id w) live)"
      by (rule Cons.IH)
    with True show ?thesis
      using remove_subset [of "w_id w" live] by (auto split: prod.splits)
  next
    case False
    then show ?thesis using Cons.IH [of live] by simp
  qed
qed

lemma fire_effects:
  "e \<in> set (snd (fireWatchers st copy live)) \<Longrightarrow>
     \<exists>w \<in> set copy. e = WatcherCallback (w_callback w) None \<or> e = ClearTimeout (w_id w)"
proof (induction copy arbitrary: live)
  case Nil
  then show ?case by simp
next
  case (Cons w copy)
  show ?case
  proof (cases "st \<noteq> w_currentState w")
    case True
    with Cons.prems have
      "e = WatcherCallback (w_callback w) None \<or> e = ClearTimeout (w_id w)
       \<or> e \<in> set (snd (fireWatchers st copy (removeConnectivityStateWatcher (w_id w) live)))"
      by (auto split: prod.splits)
    then show ?thesis using Cons.IH by auto
  next
    case False
    with Cons.prems have "e \<in> set (snd (fireWatchers st copy live))" by simp
    then show ?thesis using Cons.IH by auto
  qed
qed

lemma updateState_watchers_subset:
  "set (connectivityStateWatchers (Channel_updateState st ch)) \<subseteq> set (connectivityStateWatchers ch)"
  using fire_remaining_subset [of st "connectivityStateWatchers ch" "connectivityStateWatchers ch"]
  by (cases "fireWatchers st (connectivityStateWatchers ch) (connectivityStateWatchers ch)")
     (simp add: Channel_updateState_def channel_out_def)

lemma updateState_callback:
  "WatcherCallback cb e \<in> set (outputs (Channel_updateState st ch)) \<Longrightarrow>
     WatcherCallback cb e \<in> set (outputs ch) \<or> cb \<in> w_callback ` set (connectivityStateWatchers ch)"
  using fire_effects [of "WatcherCallback cb e" st "connectivityStateWatchers ch"
      "connectivityStateWatchers ch"]
  by (cases "fireWatchers st (connectivityStateWatchers ch) (connectivityStateWatchers ch)")
     (auto simp: Channel_updateState_def channel_out_def)

lemma updateStates_callback:
  "WatcherCallback cb e \<in> set (outputs (Channel_updateStates sts ch)) \<Longrightarrow>
     WatcherCallback cb e \<in> set (outputs ch) \<or> cb \<in> w_callback ` set (connectivityStateWatchers ch)"
proof (induction sts arbitrary: ch)
  case Nil
  then show ?case by simp
next
  case (Cons st sts)
  from Cons.prems have
    "WatcherCallback cb e \<in> set (outputs (Channel_updateState st ch))
     \<or> cb \<in> w_callback ` set (connectivityStateWatchers (Channel_updateState st ch))"
    using Cons.IH [of "Channel_updateState st ch"] by simp
  then show ?case
    using updateState_callback [of cb e st ch] updateState_watchers_subset [of st ch] by auto
qed

subsection \<open>C10: watching the connectivity state with a deadline that has passed\<close>

text \<open>
  C10: a call of \<open>watchConnectivityState\<close> whose deadline is at or before the current
  time defers one call of the callback, with the deadline error, and does nothing else: no
  watcher is added and the state of the channel stays as it is. After it, no sequence of
  state updates calls the callback, unless a watcher registered by another call holds the
  same callback.
\<close>

theorem C10_watch_with_passed_deadline:
  "d \<le> now \<longrightarrow>
     watchConnectivityState currentState' (Some d) callback now ch
       = ch\<lparr>outputs := outputs ch @ [NextTickCallback callback deadline_message]\<rparr>
     \<and> connectivityStateWatchers (watchConnectivityState currentState' (Some d) callback now ch)
         = connectivityStateWatchers ch
     \<and> channel_connectivityState (watchConnectivityState currentState' (Some d) callback now ch)
         = channel_connectivityState ch
     \<and> (callback \<notin> w_callback ` set (connectivityStateWatchers ch)
          \<and> WatcherCallback callback e \<notin> set (outputs ch)
        \<longrightarrow> WatcherCallback callback e
              \<notin> set (outputs (Channel_updateStates newStates
                                 (watchConnectivityState currentState' (Some d) callback now ch))))"
proof
  assume past: "d \<le> now"
  let ?ch = "watchConnectivityState currentState' (Some d) callback now ch"
  have eq: "?ch = ch\<lparr>outputs := outputs ch @ [NextTickCallback callback deadline_message]\<rparr>"
    using past by (rule watch_past_deadline)
  have later:
    "WatcherCallback callback e \<notin> set (outputs (Channel_updateStates newStates ?ch))"
    if "callback \<notin> w_callback ` set (connectivityStateWatchers ch)"
      and "WatcherCallback callback e \<notin> set (outputs ch)"
  proof
    assume "WatcherCallback callback e \<in> set (outputs (Channel_updateStates newStates ?ch))"
    then have "WatcherCallback callback e \<in> set (outputs ?ch)
        \<or> callback \<in> w_callback ` set (connectivityStateWatchers ?ch)"
      by (rule updateStates_callback)
    with that show False by (simp add: eq)
  qed
  show "?ch = ch\<lparr>outputs := outputs ch @ [NextTickCallback callback deadline_message]\<rparr>
     \<and> connectivityStateWatchers ?ch = connectivityStateWatchers ch
     \<and> channel_connectivityState ?ch = channel_connectivityState ch
     \<and> (callback \<notin> w_callback ` set (connectivityStateWatchers ch)
          \<and> WatcherCallback callback e \<notin> set (outputs ch)
        \<longrightarrow> WatcherCallback callback e \<notin> set (outputs (Channel_updateStates newStates ?ch)))"
    using eq later by simp
qed

theorem C10_watch_with_passed_deadline_witness:
  "(5::int) \<le> 10
   \<and> watchConnectivityState IDLE (Some 5) 1 10 Channel_constructor
       = Channel_constructor\<lparr>outputs := [NextTickCallback 1 deadline_message]\<rparr>
   \<and> connectivityStateWatchers (watchConnectivityState IDLE (Some 5) 1 10 Channel_constructor) = []
   \<and> channel_connectivityState (watchConnectivityState IDLE (Some 5) 1 10 Channel_constructor)
       = IDLE
   \<and> WatcherCallback 1 None
       \<notin> set (outputs (Channel_updateStates [CONNECTING, READY]
                          (watchConnectivityState IDLE (Some 5) 1 10 Channel_constructor)))"
proof -
  have past: "(5::int) \<le> 10"
    by simp
  have before:
    "1 \<notin> w_callback ` set (connectivityStateWatchers Channel_constructor)"
    "WatcherCallback 1 None \<notin> set (outputs Channel_constructor)"
    "outputs Channel_constructor = []"
    "connectivityStateWatchers Channel_constructor = []"
    "channel_connectivityState Channel_constructor = IDLE"
    by (simp_all add: Channel_constructor_def)
  note passed =
    C10_watch_with_passed_deadline
      [where d = 5 and now = 10 and currentState' = IDLE and callback = 1
         and ch = Channel_constructor and e = None and newStates = "[CONNECTING, READY]",
       rule_format, OF past]
  have deferred:
    "watchConnectivityState IDLE (Some 5) 1 10 Channel_constructor
       = Channel_constructor\<lparr>outputs := [NextTickCallback 1 deadline_message]\<rparr>"
    using passed before(3) by simp
  have unchanged:
    "connectivityStateWatchers (watchConnectivityState IDLE (Some 5) 1 10 Channel_constructor) = []"
    "channel_connectivityState (watchConnectivityState IDLE (Some 5) 1 10 Channel_constructor)
       = IDLE"
    using passed before(4,5) by simp_all
  have never:
    "WatcherCallback 1 None
       \<notin> set (outputs (Channel_updateStates [CONNECTING, READY]
                          (watchConnectivityState IDLE (Some 5) 1 10 Channel_constructor)))"
    using passed before(1,2) by blast
  show ?thesis
    using past deferred unchanged never by blast
qed

end
